(* ===== verification/Nachos_Prelude.thy ===== *)
theory Nachos_Prelude
  imports Main "HOL-Library.Word"
begin

text \<open>
  Shared vocabulary of the development.  A kernel routine that can stop the machine (a failed
  \<^verbatim>\<open>ASSERT\<close>, a wild pointer, a call of \<^verbatim>\<open>Interrupt::Halt\<close>) is a function into
  \<open>'a result\<close>; \<open>bind_r\<close> runs two such routines one after the other.  The theory also holds
  the arithmetic macros of \<^verbatim>\<open>threads/utility.h\<close>, the counting loop every table scan of the
  kernel uses, and the lemmas about them that the components share.
\<close>

section \<open>Outcomes of kernel routines\<close>

named_theorems result_simps \<open>rewriting of sequenced kernel routines\<close>
named_theorems nachos_defs \<open>constants of the header files\<close>

text \<open>
  The ways a routine fails to return: an assertion that dumps core, a dereferenced null or
  dangling pointer, an access outside an array, a trap of the host processor (the quotient of a
  division does not fit), a loop that never ends, an orderly shutdown, and the end of the thread that
  runs the routine.
\<close>

datatype stop = AssertFail | BadPointer | OutOfBounds | HostTrap | Diverges | MachineHalt | ThreadGone

type_synonym 'a result = "stop + 'a"

definition bind_r :: "'a result \<Rightarrow> ('a \<Rightarrow> 'b result) \<Rightarrow> 'b result" where
  "bind_r r f = (case r of Inl e \<Rightarrow> Inl e | Inr x \<Rightarrow> f x)"

lemma bind_r_simps [simp, result_simps]:
  "bind_r (Inr x) f = f x"
  "bind_r (Inl e) f = Inl e"
  by (simp_all add: bind_r_def)

lemma bind_r_Inr_iff: "bind_r r f = Inr y \<longleftrightarrow> (\<exists>x. r = Inr x \<and> f x = Inr y)"
  by (cases r) auto

lemma bind_r_InrE:
  assumes "bind_r r f = Inr y"
  obtains x where "r = Inr x" "f x = Inr y"
  using assms by (auto simp: bind_r_Inr_iff)

lemma bind_r_Inl_iff: "bind_r r f = Inl e \<longleftrightarrow> r = Inl e \<or> (\<exists>x. r = Inr x \<and> f x = Inl e)"
  by (cases r) auto

lemma bind_r_cong [fundef_cong]:
  "r = r' \<Longrightarrow> (\<And>x. r' = Inr x \<Longrightarrow> f x = g x) \<Longrightarrow> bind_r r f = bind_r r' g"
  by (cases r') auto

lemma bind_r_assoc: "bind_r (bind_r r f) g = bind_r r (\<lambda>x. bind_r (f x) g)"
  by (cases r) auto

text \<open>The \<^verbatim>\<open>ASSERT\<close> macro: print a message and abort when the condition is false.\<close>

definition ASSERT :: "bool \<Rightarrow> unit result" where
  "ASSERT c = (if c then Inr () else Inl AssertFail)"

lemma ASSERT_simps [simp, result_simps]:
  "ASSERT True = Inr ()"
  "ASSERT False = Inl AssertFail"
  by (simp_all add: ASSERT_def)

lemma ASSERT_bind: "bind_r (ASSERT c) f = (if c then f () else Inl AssertFail)"
  by (simp add: ASSERT_def)

section \<open>Integer division\<close>

text \<open>Division and remainder of C truncate towards zero.\<close>

definition c_div :: "int \<Rightarrow> int \<Rightarrow> int" where
  "c_div a b = sgn a * sgn b * (\<bar>a\<bar> div \<bar>b\<bar>)"

definition c_mod :: "int \<Rightarrow> int \<Rightarrow> int" where
  "c_mod a b = sgn a * (\<bar>a\<bar> mod \<bar>b\<bar>)"

lemma c_div_nonneg [simp]: "0 \<le> a \<Longrightarrow> 0 \<le> b \<Longrightarrow> c_div a b = a div b"
  by (auto simp: c_div_def sgn_if)

lemma c_mod_nonneg [simp]: "0 \<le> a \<Longrightarrow> 0 \<le> b \<Longrightarrow> c_mod a b = a mod b"
  by (auto simp: c_mod_def sgn_if)

lemma c_div_mod: "c_div a b * b + c_mod a b = a"
proof -
  have "c_div a b * b = sgn a * (\<bar>a\<bar> div \<bar>b\<bar> * \<bar>b\<bar>)"
    by (simp add: c_div_def sgn_mult_self_eq abs_sgn mult.assoc mult.left_commute mult.commute)
  then have "c_div a b * b + c_mod a b = sgn a * (\<bar>a\<bar> div \<bar>b\<bar> * \<bar>b\<bar> + \<bar>a\<bar> mod \<bar>b\<bar>)"
    by (simp only: c_mod_def distrib_left)
  then show ?thesis by (simp add: sgn_mult_abs)
qed

definition divRoundDown :: "int \<Rightarrow> int \<Rightarrow> int" where
  "divRoundDown n s = c_div n s"

definition divRoundUp :: "int \<Rightarrow> int \<Rightarrow> int" where
  "divRoundUp n s = c_div n s + (if c_mod n s > 0 then 1 else 0)"

lemma divRoundUp_bounds:
  assumes "0 < s" "0 \<le> n"
  shows "n \<le> divRoundUp n s * s" and "divRoundUp n s * s < n + s"
proof -
  have eq: "s * (n div s) + n mod s = n" by simp
  have m: "0 \<le> n mod s" "n mod s < s" using assms by simp_all
  have up: "divRoundUp n s * s = s * (n div s) + (if n mod s > 0 then s else 0)"
    using assms by (simp add: divRoundUp_def algebra_simps)
  show "n \<le> divRoundUp n s * s" unfolding up using eq m by (simp split: if_splits; linarith)
  show "divRoundUp n s * s < n + s" unfolding up using eq m by (simp split: if_splits; linarith)
qed

lemma divRoundUp_nonneg: "0 \<le> n \<Longrightarrow> 0 < s \<Longrightarrow> 0 \<le> divRoundUp n s"
  by (simp add: divRoundUp_def pos_imp_zdiv_nonneg_iff)

lemma divRoundUp_index:
  assumes "0 \<le> i" "i < n" "0 < s"
  shows "i div s < divRoundUp n s"
proof -
  have "i < divRoundUp n s * s" using divRoundUp_bounds(1)[OF assms(3), of n] assms(1,2) by simp
  moreover have "i div s * s \<le> i"
    using minus_mod_eq_div_mult [of i s] pos_mod_sign [OF assms(3), of i] by linarith
  ultimately have "i div s * s < divRoundUp n s * s" by linarith
  then show ?thesis using assms(3) by simp
qed

section \<open>Counting loops\<close>

text \<open>
  \<open>for_loop i k body s\<close> is \<^verbatim>\<open>for (j = i; j < i + k; j++) s = body(j, s)\<close>; it stops as soon
  as the body does.
\<close>

fun for_loop :: "nat \<Rightarrow> nat \<Rightarrow> (nat \<Rightarrow> 's \<Rightarrow> 's result) \<Rightarrow> 's \<Rightarrow> 's result" where
  "for_loop i 0 body s = Inr s"
| "for_loop i (Suc k) body s = bind_r (body i s) (for_loop (Suc i) k body)"

text \<open>Total correctness of a loop: an invariant indexed by the loop counter.\<close>

lemma for_loop_rule:
  assumes "I i s"
    and "\<And>j s. i \<le> j \<Longrightarrow> j < i + k \<Longrightarrow> I j s \<Longrightarrow> \<exists>s'. body j s = Inr s' \<and> I (Suc j) s'"
  shows "\<exists>s'. for_loop i k body s = Inr s' \<and> I (i + k) s'"
  using assms
proof (induction k arbitrary: i s)
  case 0
  then show ?case by simp
next
  case (Suc k)
  then obtain s1 where s1: "body i s = Inr s1" "I (Suc i) s1" by force
  have "\<exists>s'. for_loop (Suc i) k body s1 = Inr s' \<and> I (Suc i + k) s'"
    by (rule Suc.IH [OF s1(2)]) (use Suc.prems(2) in auto)
  then show ?case using s1(1) by simp
qed

text \<open>Partial correctness: what every iteration keeps, the loop keeps.\<close>

lemma for_loop_keeps:
  assumes "for_loop i k body s = Inr s'" "R s s"
    and "\<And>j a b. R s a \<Longrightarrow> body j a = Inr b \<Longrightarrow> R s b"
  shows "R s s'"
proof -
  have "R s a \<Longrightarrow> for_loop i k body a = Inr s' \<Longrightarrow> R s s'" for a
    by (induction k arbitrary: i a) (auto elim!: bind_r_InrE dest: assms(3))
  with assms(1,2) show ?thesis by blast
qed

section \<open>Arrays\<close>

text \<open>
  A C array access: an index outside the array is undefined behaviour, here the outcome
  \<^const>\<open>OutOfBounds\<close>.
\<close>

definition arr_get :: "'a list \<Rightarrow> int \<Rightarrow> 'a result" where
  "arr_get xs i = (if 0 \<le> i \<and> i < int (length xs) then Inr (xs ! nat i) else Inl OutOfBounds)"

definition arr_set :: "'a list \<Rightarrow> int \<Rightarrow> 'a \<Rightarrow> 'a list result" where
  "arr_set xs i v =
     (if 0 \<le> i \<and> i < int (length xs) then Inr (xs[nat i := v]) else Inl OutOfBounds)"

lemma arr_get_nat [simp]: "n < length xs \<Longrightarrow> arr_get xs (int n) = Inr (xs ! n)"
  by (simp add: arr_get_def)

lemma arr_set_nat [simp]: "n < length xs \<Longrightarrow> arr_set xs (int n) v = Inr (xs[n := v])"
  by (simp add: arr_set_def)

lemma arr_get_uint [simp]: "unat w < length xs \<Longrightarrow> arr_get xs (uint w) = Inr (xs ! unat w)"
  using arr_get_nat [of "unat w" xs] by simp

lemma arr_get_Inr_iff:
  "arr_get xs i = Inr v \<longleftrightarrow> 0 \<le> i \<and> i < int (length xs) \<and> v = xs ! nat i"
  by (auto simp: arr_get_def)

lemma arr_set_Inr_iff:
  "arr_set xs i v = Inr ys \<longleftrightarrow> 0 \<le> i \<and> i < int (length xs) \<and> ys = xs[nat i := v]"
  by (auto simp: arr_set_def)

section \<open>Words\<close>

lemma unat_of_nat_small: "n < 2 ^ 32 \<Longrightarrow> unat (of_nat n :: 32 word) = n"
  by (simp add: unat_of_nat take_bit_eq_mod)

lemma sint_small:
  assumes "unat (w :: 32 word) < 2 ^ 31"
  shows "sint w = int (unat w)"
proof -
  have "uint w < 2 ^ 31" using assms by (metis of_nat_less_iff of_nat_numeral of_nat_power uint_nat)
  moreover have "0 \<le> uint w" by simp
  ultimately have "signed_take_bit 31 (uint w) = uint w"
    by (intro signed_take_bit_int_eq_self) linarith+
  then show ?thesis by (simp add: sint_uint)
qed

end
