(* ===== verification/Linked_List.thy ===== *)
theory Linked_List
  imports Nachos_Prelude "HOL-Library.Multiset"
begin

text \<open>
  The singly linked list of \<^verbatim>\<open>threads/list.cc\<close>, on which the ready queue, the semaphore queues
  and the queue of pending interrupts are built.  List elements live in an explicit heap;
  following a null pointer or one to a deleted element is the outcome \<^const>\<open>BadPointer\<close>.
  The contract of the class is the locale \<open>keyed_list\<close>, stated over the sequence of
  (key, item) pairs a list holds; the pointer structure and the plain sequences that the kernel
  theories compute with are both instances of it.
\<close>

section \<open>Heap of list elements\<close>

record 'a ListElement =
  le_next :: "nat option"
  le_key :: int
  le_item :: "'a option"

record 'a lheap =
  cells :: "nat \<Rightarrow> 'a ListElement option"
  brk :: nat

record NList =
  lst_first :: "nat option"
  lst_last :: "nat option"

type_synonym 'a lstate = "'a lheap \<times> NList"

definition deref :: "'a lheap \<Rightarrow> nat option \<Rightarrow> 'a ListElement result" where
  "deref h p = (case p of None \<Rightarrow> Inl BadPointer
     | Some a \<Rightarrow> (case cells h a of None \<Rightarrow> Inl BadPointer | Some e \<Rightarrow> Inr e))"

definition set_next :: "nat option \<Rightarrow> nat option \<Rightarrow> 'a lheap \<Rightarrow> 'a lheap result" where
  "set_next p q h = bind_r (deref h p) (\<lambda>e.
     Inr (h\<lparr>cells := (cells h)(the p \<mapsto> e\<lparr>le_next := q\<rparr>)\<rparr>))"

text \<open>\<^verbatim>\<open>new ListElement(item, key)\<close>: the address of the new element and the heap with it.\<close>

definition ListElement_new :: "'a option \<Rightarrow> int \<Rightarrow> 'a lheap \<Rightarrow> nat \<times> 'a lheap" where
  "ListElement_new itemPtr sortKey h =
     (brk h, h\<lparr>cells := (cells h)(brk h \<mapsto>
        \<lparr>le_next = None, le_key = sortKey, le_item = itemPtr\<rparr>), brk := Suc (brk h)\<rparr>)"

section \<open>Operations\<close>

definition List_new :: NList where
  "List_new = \<lparr>lst_first = None, lst_last = None\<rparr>"

definition List_IsEmpty :: "NList \<Rightarrow> bool" where
  "List_IsEmpty l = (lst_first l = None)"

definition List_Append :: "'a option \<Rightarrow> 'a lstate \<Rightarrow> 'a lstate result" where
  "List_Append item hl = (case hl of (h, l) \<Rightarrow>
     (case ListElement_new item 0 h of (e, h1) \<Rightarrow>
       if List_IsEmpty l then Inr (h1, l\<lparr>lst_first := Some e, lst_last := Some e\<rparr>)
       else bind_r (set_next (lst_last l) (Some e) h1) (\<lambda>h2. Inr (h2, l\<lparr>lst_last := Some e\<rparr>))))"

definition List_Prepend :: "'a option \<Rightarrow> 'a lstate \<Rightarrow> 'a lstate result" where
  "List_Prepend item hl = (case hl of (h, l) \<Rightarrow>
     (case ListElement_new item 0 h of (e, h1) \<Rightarrow>
       if List_IsEmpty l then Inr (h1, l\<lparr>lst_first := Some e, lst_last := Some e\<rparr>)
       else bind_r (set_next (Some e) (lst_first l) h1) (\<lambda>h2. Inr (h2, l\<lparr>lst_first := Some e\<rparr>))))"

text \<open>
  The \<^verbatim>\<open>for\<close> loop of \<^verbatim>\<open>SortedInsert\<close>.  \<open>Some h\<close> is the \<^verbatim>\<open>return\<close> from inside the loop with
  the element linked in, \<open>None\<close> the normal end of the loop.  The fuel bounds the number of
  elements visited.
\<close>

fun sorted_walk :: "nat \<Rightarrow> int \<Rightarrow> nat \<Rightarrow> nat option \<Rightarrow> 'a lheap \<Rightarrow> 'a lheap option result" where
  "sorted_walk 0 sortKey e p h = Inl Diverges"
| "sorted_walk (Suc fuel) sortKey e p h =
     bind_r (deref h p) (\<lambda>x.
       case le_next x of None \<Rightarrow> Inr None
       | Some q \<Rightarrow> bind_r (deref h (Some q)) (\<lambda>y.
           if sortKey < le_key y
           then bind_r (set_next (Some e) (Some q) h) (\<lambda>h1.
                bind_r (set_next p (Some e) h1) (\<lambda>h2. Inr (Some h2)))
           else sorted_walk fuel sortKey e (Some q) h))"

definition List_SortedInsert :: "'a option \<Rightarrow> int \<Rightarrow> 'a lstate \<Rightarrow> 'a lstate result" where
  "List_SortedInsert item sortKey hl = (case hl of (h, l) \<Rightarrow>
     (case ListElement_new item sortKey h of (e, h1) \<Rightarrow>
       if List_IsEmpty l then Inr (h1, l\<lparr>lst_first := Some e, lst_last := Some e\<rparr>)
       else bind_r (deref h1 (lst_first l)) (\<lambda>f.
         if sortKey < le_key f
         then bind_r (set_next (Some e) (lst_first l) h1) (\<lambda>h2. Inr (h2, l\<lparr>lst_first := Some e\<rparr>))
         else bind_r (sorted_walk (brk h1) sortKey e (lst_first l) h1) (\<lambda>r.
           case r of Some h2 \<Rightarrow> Inr (h2, l)
           | None \<Rightarrow> bind_r (set_next (lst_last l) (Some e) h1) (\<lambda>h2.
               Inr (h2, l\<lparr>lst_last := Some e\<rparr>))))))"

text \<open>The removed item (null when the list is empty) and, when there is one, its key.\<close>

definition List_SortedRemove :: "'a lstate \<Rightarrow> (('a option \<times> int option) \<times> 'a lstate) result" where
  "List_SortedRemove hl = (case hl of (h, l) \<Rightarrow>
     if List_IsEmpty l then Inr ((None, None), (h, l))
     else bind_r (deref h (lst_first l)) (\<lambda>element.
       let l' = (if lst_first l = lst_last l then l\<lparr>lst_first := None, lst_last := None\<rparr>
                 else l\<lparr>lst_first := le_next element\<rparr>)
       in Inr ((le_item element, Some (le_key element)),
               (h\<lparr>cells := (cells h)(the (lst_first l) := None)\<rparr>, l'))))"

definition List_Remove :: "'a lstate \<Rightarrow> ('a option \<times> 'a lstate) result" where
  "List_Remove hl = bind_r (List_SortedRemove hl) (\<lambda>((item, _), hl'). Inr (item, hl'))"

text \<open>\<^verbatim>\<open>Mapcar\<close>: run \<open>func\<close> on each item in turn, threading the state it changes.\<close>

fun mapcar_walk ::
  "nat \<Rightarrow> ('a option \<Rightarrow> 's \<Rightarrow> 's result) \<Rightarrow> nat option \<Rightarrow> 'a lheap \<Rightarrow> 's \<Rightarrow> 's result" where
  "mapcar_walk fuel func None h s = Inr s"
| "mapcar_walk 0 func (Some a) h s = Inl Diverges"
| "mapcar_walk (Suc fuel) func (Some a) h s =
     bind_r (deref h (Some a)) (\<lambda>e. bind_r (func (le_item e) s) (mapcar_walk fuel func (le_next e) h))"

definition List_Mapcar :: "('a option \<Rightarrow> 's \<Rightarrow> 's result) \<Rightarrow> 'a lstate \<Rightarrow> 's \<Rightarrow> 's result" where
  "List_Mapcar func hl s = (case hl of (h, l) \<Rightarrow> mapcar_walk (brk h) func (lst_first l) h s)"

text \<open>The destructor: remove items until a null one comes rear.\<close>

fun destroy_loop :: "nat \<Rightarrow> 'a lstate \<Rightarrow> 'a lstate result" where
  "destroy_loop 0 hl = Inl Diverges"
| "destroy_loop (Suc fuel) hl =
     bind_r (List_Remove hl) (\<lambda>(item, hl'). if item \<noteq> None then destroy_loop fuel hl' else Inr hl')"

definition List_delete :: "'a lstate \<Rightarrow> 'a lstate result" where
  "List_delete hl = destroy_loop (Suc (brk (fst hl))) hl"

section \<open>The contract\<close>

text \<open>A new element goes in front of the first one with a greater key.\<close>

definition ins_key :: "int \<Rightarrow> 'i \<Rightarrow> (int \<times> 'i) list \<Rightarrow> (int \<times> 'i) list" where
  "ins_key k x xs =
     takeWhile (\<lambda>y. fst y \<le> k) xs @ (k, x) # dropWhile (\<lambda>y. fst y \<le> k) xs"

fun run_inserts :: "('i \<Rightarrow> int \<Rightarrow> 's \<Rightarrow> 's result) \<Rightarrow> (int \<times> 'i) list \<Rightarrow> 's \<Rightarrow> 's result" where
  "run_inserts f [] s = Inr s"
| "run_inserts f (y # ys) s = bind_r (f (snd y) (fst y) s) (run_inserts f ys)"

fun run_removes ::
  "('s \<Rightarrow> (('a option \<times> int option) \<times> 's) result) \<Rightarrow> nat \<Rightarrow> 's \<Rightarrow>
   (('a option \<times> int option) list \<times> 's) result" where
  "run_removes f 0 s = Inr ([], s)"
| "run_removes f (Suc n) s =
     bind_r (f s) (\<lambda>(x, s1). bind_r (run_removes f n s1) (\<lambda>(xs, s2). Inr (x # xs, s2)))"

locale keyed_list =
  fixes rep :: "'s \<Rightarrow> (int \<times> 'a option) list \<Rightarrow> bool"
    and append :: "'a option \<Rightarrow> 's \<Rightarrow> 's result"
    and prepend :: "'a option \<Rightarrow> 's \<Rightarrow> 's result"
    and insert :: "'a option \<Rightarrow> int \<Rightarrow> 's \<Rightarrow> 's result"
    and remove :: "'s \<Rightarrow> (('a option \<times> int option) \<times> 's) result"
  assumes append: "rep s xs \<Longrightarrow> \<exists>s'. append x s = Inr s' \<and> rep s' (xs @ [(0, x)])"
    and prepend: "rep s xs \<Longrightarrow> \<exists>s'. prepend x s = Inr s' \<and> rep s' ((0, x) # xs)"
    and insert: "rep s xs \<Longrightarrow> \<exists>s'. insert x k s = Inr s' \<and> rep s' (ins_key k x xs)"
    and remove_empty: "rep s [] \<Longrightarrow> remove s = Inr ((None, None), s)"
    and remove_cons: "rep s ((k, x) # xs) \<Longrightarrow>
      \<exists>s'. remove s = Inr ((x, Some k), s') \<and> rep s' xs"
begin

text \<open>Removing as many elements as there are returns them all, front first.\<close>

lemma removes_all:
  "rep s xs \<Longrightarrow> \<exists>s'. run_removes remove (length xs) s =
     Inr (map (\<lambda>(k, x). (x, Some k)) xs, s') \<and> rep s' []"
proof (induction xs arbitrary: s)
  case Nil
  then show ?case by auto
next
  case (Cons y ys)
  obtain k x where y: "y = (k, x)" by (cases y)
  from Cons.prems remove_cons obtain s1 where
    s1: "remove s = Inr ((x, Some k), s1)" "rep s1 ys" unfolding y by blast
  from Cons.IH [OF s1(2)] s1(1) show ?case by (auto simp: y)
qed

text \<open>Sorted insertion of any sequence into an empty list.\<close>

lemma inserts:
  "rep s xs \<Longrightarrow> \<exists>s'. run_inserts insert ys s = Inr s' \<and>
     rep s' (fold (\<lambda>y. ins_key (fst y) (snd y)) ys xs)"
proof (induction ys arbitrary: s xs)
  case Nil
  then show ?case by auto
next
  case (Cons y ys)
  from insert [OF Cons.prems] obtain s1 where
    s1: "insert (snd y) (fst y) s = Inr s1" "rep s1 (ins_key (fst y) (snd y) xs)" by blast
  from Cons.IH [OF s1(2)] s1(1) show ?case by auto
qed

end

section \<open>Sorted insertion is a stable sort\<close>

lemma mset_ins_key [simp]: "mset (ins_key k x xs) = add_mset (k, x) (mset xs)"
proof -
  have "mset (takeWhile P xs) + mset (dropWhile P xs) = mset xs" for P
    by (metis mset_append takeWhile_dropWhile_id)
  then show ?thesis by (simp add: ins_key_def)
qed

lemma dropWhile_greater:
  assumes "sorted (map fst xs)" and "y \<in> set (dropWhile (\<lambda>y. fst y \<le> k) xs)"
  shows "(k::int) < fst y"
proof -
  let ?P = "\<lambda>y. fst y \<le> k"
  have "sorted (map fst (takeWhile ?P xs @ dropWhile ?P xs))" using assms(1) by simp
  then have s: "sorted (map fst (dropWhile ?P xs))" by (simp only: map_append sorted_append)
  from assms(2) obtain z zs where d: "dropWhile ?P xs = z # zs" by (cases "dropWhile ?P xs") auto
  then have "k < fst z" using hd_dropWhile [of ?P xs] by simp
  with s d assms(2) show ?thesis by fastforce
qed

lemma sorted_ins_key:
  assumes "sorted (map fst xs)"
  shows "sorted (map fst (ins_key k x xs))"
proof -
  let ?P = "\<lambda>y. fst y \<le> k"
  have "sorted (map fst (takeWhile ?P xs @ dropWhile ?P xs))" using assms by simp
  then have s: "sorted (map fst (takeWhile ?P xs))" "sorted (map fst (dropWhile ?P xs))"
    by (simp_all only: map_append sorted_append)
  have "\<forall>y \<in> set (dropWhile ?P xs). k < fst y" using dropWhile_greater [OF assms] by blast
  moreover have "\<forall>y \<in> set (takeWhile ?P xs). fst y \<le> k" by (auto dest: set_takeWhileD)
  ultimately show ?thesis using s by (fastforce simp: ins_key_def sorted_append)
qed

lemma filter_ins_key:
  assumes "sorted (map fst xs)"
  shows "filter (\<lambda>y. fst y = j) (ins_key k x xs) =
    filter (\<lambda>y. fst y = j) xs @ (if j = k then [(k, x)] else [])"
proof -
  let ?P = "\<lambda>y. fst y \<le> k" and ?Q = "\<lambda>y. fst y = j"
  have split: "filter ?Q xs = filter ?Q (takeWhile ?P xs) @ filter ?Q (dropWhile ?P xs)"
    by (metis filter_append takeWhile_dropWhile_id)
  have big: "k < fst y" if "y \<in> set (dropWhile ?P xs)" for y
    using dropWhile_greater [OF assms that] .
  show ?thesis
  proof (cases "j = k")
    case True
    have "filter ?Q (dropWhile ?P xs) = []" using big True by (force simp: filter_empty_conv)
    with split True show ?thesis by (simp add: ins_key_def)
  next
    case False
    with split show ?thesis by (simp add: ins_key_def)
  qed
qed

lemma fold_ins_key_sort:
  "fold (\<lambda>y. ins_key (fst y) (snd y)) ys [] = sort_key fst ys"
proof -
  let ?ins = "\<lambda>y. ins_key (fst y) (snd y)"
  have inv: "sorted (map fst (fold ?ins ys xs)) \<and> mset (fold ?ins ys xs) = mset ys + mset xs \<and>
      (\<forall>j. filter (\<lambda>y. fst y = j) (fold ?ins ys xs) =
        filter (\<lambda>y. fst y = j) xs @ filter (\<lambda>y. fst y = j) ys)"
    if "sorted (map fst xs)" for xs
    using that
  proof (induction ys arbitrary: xs)
    case Nil
    then show ?case by simp
  next
    case (Cons y ys)
    have "sorted (map fst (ins_key (fst y) (snd y) xs))" by (rule sorted_ins_key [OF Cons.prems])
    from Cons.IH [OF this] Cons.prems show ?case by (auto simp: filter_ins_key)
  qed
  from inv [of "[]"] show ?thesis
    by (intro properties_for_sort_key [symmetric]) (auto simp: eq_commute)
qed

section \<open>Plain sequences\<close>

text \<open>
  The operations on the sequence itself.  The kernel theories store their queues as such
  sequences; that the pointer structure does the same is the second instance of the contract.
\<close>

definition seq_append :: "'a option \<Rightarrow> (int \<times> 'a option) list \<Rightarrow> (int \<times> 'a option) list result" where
  "seq_append x xs = Inr (xs @ [(0, x)])"

definition seq_prepend :: "'a option \<Rightarrow> (int \<times> 'a option) list \<Rightarrow> (int \<times> 'a option) list result" where
  "seq_prepend x xs = Inr ((0, x) # xs)"

definition seq_insert ::
  "'a option \<Rightarrow> int \<Rightarrow> (int \<times> 'a option) list \<Rightarrow> (int \<times> 'a option) list result" where
  "seq_insert x k xs = Inr (ins_key k x xs)"

definition seq_remove ::
  "(int \<times> 'a option) list \<Rightarrow> (('a option \<times> int option) \<times> (int \<times> 'a option) list) result" where
  "seq_remove xs = (case xs of [] \<Rightarrow> Inr ((None, None), [])
     | (k, x) # ys \<Rightarrow> Inr ((x, Some k), ys))"

interpretation sq: keyed_list "(=)" seq_append seq_prepend seq_insert seq_remove
  by unfold_locales
    (auto simp: seq_append_def seq_prepend_def seq_insert_def seq_remove_def)

section \<open>The pointer structure\<close>

fun path :: "(nat \<Rightarrow> 'a ListElement option) \<Rightarrow> nat option \<Rightarrow> nat list \<Rightarrow> nat option \<Rightarrow> bool" where
  "path c p [] q = (p = q)"
| "path c p (a # as) q = (p = Some a \<and> (\<exists>e. c a = Some e \<and> path c (le_next e) as q))"

definition pair_at :: "(nat \<Rightarrow> 'a ListElement option) \<Rightarrow> nat \<Rightarrow> int \<times> 'a option" where
  "pair_at c a = (le_key (the (c a)), le_item (the (c a)))"

text \<open>\<open>list_at hl as\<close>: the list is the chain of the elements at the addresses \<open>as\<close>.\<close>

definition list_at :: "'a lstate \<Rightarrow> nat list \<Rightarrow> bool" where
  "list_at hl as = (case hl of (h, l) \<Rightarrow>
     path (cells h) (lst_first l) as None \<and> distinct as \<and> (\<forall>a \<in> set as. a < brk h) \<and>
     lst_last l = (if as = [] then None else Some (last as)))"

definition list_rep :: "'a lstate \<Rightarrow> (int \<times> 'a option) list \<Rightarrow> bool" where
  "list_rep hl xs = (\<exists>as. list_at hl as \<and> xs = map (pair_at (cells (fst hl))) as)"

lemma path_append: "path c p (as @ bs) q \<longleftrightarrow> (\<exists>r. path c p as r \<and> path c r bs q)"
  by (induction as arbitrary: p) auto

lemma path_frame:
  "a \<notin> set as \<Longrightarrow> path (c(a := x)) p as q = path c p as q"
  by (induction as arbitrary: p) auto

lemma pair_at_frame [simp]: "a \<noteq> b \<Longrightarrow> pair_at (c(b := x)) a = pair_at c a"
  by (simp add: pair_at_def)

lemma map_pair_at_frame [simp]:
  "b \<notin> set as \<Longrightarrow> map (pair_at (c(b := x))) as = map (pair_at c) as"
  by (induction as) auto

lemma pair_at_next [simp]: "pair_at (c(a \<mapsto> e\<lparr>le_next := q\<rparr>)) a = (le_key e, le_item e)"
  by (simp add: pair_at_def)

lemma path_first: "path c p as None \<Longrightarrow> p = (if as = [] then None else Some (hd as))"
  by (cases as) auto

lemma path_allocated: "path c p as q \<Longrightarrow> a \<in> set as \<Longrightarrow> \<exists>e. c a = Some e"
  by (induction as arbitrary: p) auto

lemma deref_Some [simp]: "cells h a = Some e \<Longrightarrow> deref h (Some a) = Inr e"
  by (simp add: deref_def)

lemma set_next_Some [simp]:
  "cells h a = Some e \<Longrightarrow>
   set_next (Some a) q h = Inr (h\<lparr>cells := (cells h)(a \<mapsto> e\<lparr>le_next := q\<rparr>)\<rparr>)"
  by (simp add: set_next_def)

text \<open>Hanging a new element behind the last one.\<close>

lemma path_snoc:
  assumes "path c p as None" "distinct as" "as \<noteq> []" "e \<notin> set as" "c (last as) = Some z"
    "c e = Some x" "le_next x = None"
  shows "path (c(last as \<mapsto> z\<lparr>le_next := Some e\<rparr>)) p (as @ [e]) None"
proof -
  obtain bs where as: "as = bs @ [last as]" using assms(3) by (metis append_butlast_last_id)
  with assms(2) have "last as \<notin> set bs" by (metis distinct_append disjoint_insert(2) list.simps(15))
  moreover from assms(1) as have "path c p bs (Some (last as))"
    by (metis path.simps(2) path_append)
  ultimately have "path (c(last as \<mapsto> z\<lparr>le_next := Some e\<rparr>)) p bs (Some (last as))"
    by (simp add: path_frame)
  moreover have "path (c(last as \<mapsto> z\<lparr>le_next := Some e\<rparr>)) (Some (last as)) [last as, e] None"
    using assms by auto
  ultimately have "path (c(last as \<mapsto> z\<lparr>le_next := Some e\<rparr>)) p (bs @ [last as, e]) None"
    using path_append by blast
  then show ?thesis by (subst as) simp
qed

lemma list_at_snoc:
  assumes "list_at (h, l) as" "as \<noteq> []"
  shows "\<exists>h2. set_next (lst_last l) (Some (brk h)) (snd (ListElement_new x k h)) = Inr h2 \<and>
    list_at (h2, l\<lparr>lst_last := Some (brk h)\<rparr>) (as @ [brk h]) \<and>
    map (pair_at (cells h2)) (as @ [brk h]) = map (pair_at (cells h)) as @ [(k, x)]"
proof -
  let ?E = "\<lparr>le_next = None, le_key = k, le_item = x\<rparr>" and ?e = "brk h"
  let ?c1 = "(cells h)(?e \<mapsto> ?E)"
  have p: "path (cells h) (lst_first l) as None" "distinct as" "\<forall>a \<in> set as. a < ?e"
    "lst_last l = Some (last as)" using assms by (auto simp: list_at_def)
  from p(3) have e: "?e \<notin> set as" by auto
  have lst: "last as \<in> set as" using assms(2) by simp
  with e have neq: "last as \<noteq> ?e" by metis
  obtain z where z: "cells h (last as) = Some z" using path_allocated [OF p(1) lst] by blast
  let ?c2 = "?c1(last as \<mapsto> z\<lparr>le_next := Some ?e\<rparr>)"
  have p1: "path ?c1 (lst_first l) as None" using p(1) e by (simp add: path_frame)
  have "path ?c2 (lst_first l) (as @ [?e]) None"
    by (rule path_snoc [OF p1 p(2) assms(2) e]) (use z neq in auto)
  moreover have "map (pair_at ?c2) as = map (pair_at (cells h)) as"
    using e z by (auto simp: pair_at_def)
  moreover have "pair_at ?c2 ?e = (k, x)" using neq by (simp add: pair_at_def)
  ultimately show ?thesis
    using p e z neq
    by (auto simp: ListElement_new_def list_at_def set_next_def deref_def less_Suc_eq)
qed

lemma List_Append_rep:
  assumes "list_rep hl xs"
  shows "\<exists>hl'. List_Append x hl = Inr hl' \<and> list_rep hl' (xs @ [(0, x)])"
proof -
  obtain h l where hl: "hl = (h, l)" by (cases hl)
  from assms obtain as where as: "list_at (h, l) as" "xs = map (pair_at (cells h)) as"
    by (auto simp: list_rep_def hl)
  show ?thesis
  proof (cases "as = []")
    case True
    with as show ?thesis
      by (intro exI [of _ "(snd (ListElement_new x 0 h),
            l\<lparr>lst_first := Some (brk h), lst_last := Some (brk h)\<rparr>)"])
        (auto simp: hl List_Append_def List_IsEmpty_def list_at_def ListElement_new_def
          list_rep_def pair_at_def intro!: exI [of _ "[brk h]"])
  next
    case False
    then have ne: "\<not> List_IsEmpty l" using as(1) by (auto simp: list_at_def List_IsEmpty_def neq_Nil_conv)
    from list_at_snoc [OF as(1) False, of x 0] obtain h2 where
      h2: "set_next (lst_last l) (Some (brk h)) (snd (ListElement_new x 0 h)) = Inr h2"
        "list_at (h2, l\<lparr>lst_last := Some (brk h)\<rparr>) (as @ [brk h])"
        "map (pair_at (cells h2)) (as @ [brk h]) = map (pair_at (cells h)) as @ [(0, x)]" by blast
    then show ?thesis using ne as(2)
      by (auto simp: hl List_Append_def list_rep_def ListElement_new_def
          intro!: exI [of _ "as @ [brk h]"])
  qed
qed

text \<open>Putting a new element in front.\<close>

lemma list_at_cons:
  assumes "list_at (h, l) as" "as \<noteq> []"
  shows "\<exists>h2. set_next (Some (brk h)) (lst_first l) (snd (ListElement_new x k h)) = Inr h2 \<and>
    list_at (h2, l\<lparr>lst_first := Some (brk h)\<rparr>) (brk h # as) \<and>
    map (pair_at (cells h2)) (brk h # as) = (k, x) # map (pair_at (cells h)) as"
proof -
  have p: "path (cells h) (lst_first l) as None" "distinct as" "\<forall>a \<in> set as. a < brk h"
    "lst_last l = Some (last as)" using assms by (auto simp: list_at_def)
  from p(3) have "brk h \<notin> set as" by auto
  with p show ?thesis using assms(2)
    by (auto simp: ListElement_new_def list_at_def set_next_def deref_def path_frame pair_at_def
        less_Suc_eq)
qed

lemma List_Prepend_rep:
  assumes "list_rep hl xs"
  shows "\<exists>hl'. List_Prepend x hl = Inr hl' \<and> list_rep hl' ((0, x) # xs)"
proof -
  obtain h l where hl: "hl = (h, l)" by (cases hl)
  from assms obtain as where as: "list_at (h, l) as" "xs = map (pair_at (cells h)) as"
    by (auto simp: list_rep_def hl)
  show ?thesis
  proof (cases "as = []")
    case True
    with as show ?thesis
      by (auto simp: hl List_Prepend_def List_IsEmpty_def list_at_def ListElement_new_def
          list_rep_def pair_at_def intro!: exI [of _ "[brk h]"])
  next
    case False
    then have ne: "\<not> List_IsEmpty l"
      using as(1) by (auto simp: list_at_def List_IsEmpty_def neq_Nil_conv)
    from list_at_cons [OF as(1) False, of x 0] obtain h2 where
      h2: "set_next (Some (brk h)) (lst_first l) (snd (ListElement_new x 0 h)) = Inr h2"
        "list_at (h2, l\<lparr>lst_first := Some (brk h)\<rparr>) (brk h # as)"
        "map (pair_at (cells h2)) (brk h # as) = (0, x) # map (pair_at (cells h)) as" by metis
    have "List_Prepend x hl = Inr (h2, l\<lparr>lst_first := Some (brk h)\<rparr>)"
      using ne h2(1) by (simp add: hl List_Prepend_def ListElement_new_def)
    moreover have "list_rep (h2, l\<lparr>lst_first := Some (brk h)\<rparr>) ((0, x) # xs)"
      unfolding list_rep_def using h2(2,3) as(2) by (metis fst_conv)
    ultimately show ?thesis by blast
  qed
qed

text \<open>
  The walk of \<^verbatim>\<open>SortedInsert\<close> from an element \<open>a\<close>: it passes all elements with keys up to the
  new one, or links the new element in front of the first greater one.
\<close>

lemma sorted_walk_end:
  assumes "path (cells h) (Some a) (a # as) None" "length as < fuel"
    "\<forall>b \<in> set as. fst (pair_at (cells h) b) \<le> k"
  shows "sorted_walk fuel k e (Some a) h = Inr None"
  using assms
proof (induction as arbitrary: a fuel)
  case Nil
  then show ?case by (cases fuel) auto
next
  case (Cons b bs)
  obtain n where n: "fuel = Suc n" using Cons.prems(2) by (cases fuel) auto
  have "sorted_walk n k e (Some b) h = Inr None"
    by (rule Cons.IH) (use Cons.prems n in auto)
  with Cons.prems n show ?case by (auto simp: pair_at_def)
qed

lemma sorted_walk_stop:
  assumes "path (cells h) (Some a) (a # as @ b # bs) None" "length as < fuel"
    "\<forall>d \<in> set as. fst (pair_at (cells h) d) \<le> k" "k < fst (pair_at (cells h) b)"
    "cells h e = Some E" "e \<notin> set (a # as @ b # bs)" "cells h (last (a # as)) = Some z"
  shows "sorted_walk fuel k e (Some a) h = Inr (Some (h\<lparr>cells := (cells h)
    (e \<mapsto> E\<lparr>le_next := Some b\<rparr>, last (a # as) \<mapsto> z\<lparr>le_next := Some e\<rparr>)\<rparr>))"
  using assms
proof (induction as arbitrary: a fuel)
  case Nil
  obtain n where n: "fuel = Suc n" using Nil.prems(2) by (cases fuel) auto
  with Nil show ?case by (auto simp: pair_at_def fun_upd_def)
next
  case (Cons d ds)
  obtain n where n: "fuel = Suc n" using Cons.prems(2) by (cases fuel) auto
  have "sorted_walk n k e (Some d) h = Inr (Some (h\<lparr>cells := (cells h)
      (e \<mapsto> E\<lparr>le_next := Some b\<rparr>, last (d # ds) \<mapsto> z\<lparr>le_next := Some e\<rparr>)\<rparr>))"
    by (rule Cons.IH) (use Cons.prems n in auto)
  with Cons.prems n show ?case by (auto simp: pair_at_def fun_upd_def)
qed

lemma path_link:
  assumes "path c p (as @ b # bs) None" "distinct (as @ b # bs)" "as \<noteq> []" "e \<notin> set (as @ b # bs)"
    "c (last as) = Some z"
  shows "path (c(e \<mapsto> E\<lparr>le_next := Some b\<rparr>, last as \<mapsto> z\<lparr>le_next := Some e\<rparr>)) p
    (as @ e # b # bs) None"
proof -
  let ?c = "c(e \<mapsto> E\<lparr>le_next := Some b\<rparr>, last as \<mapsto> z\<lparr>le_next := Some e\<rparr>)"
  obtain ds where ds: "as = ds @ [last as]" using assms(3) by (metis append_butlast_last_id)
  define m where "m = last as"
  from ds have as: "as = ds @ [m]" by (simp add: m_def)
  have fresh: "e \<notin> set ds" "m \<notin> set ds" "m \<noteq> e" "e \<notin> set (b # bs)" "m \<notin> set (b # bs)"
    using assms(2,4) unfolding as by auto
  have "path c p ds (Some m)" "path c (Some b) (b # bs) None"
    using assms(1) unfolding as by (auto simp: path_append)
  then have "path ?c p ds (Some m)" "path ?c (Some b) (b # bs) None"
    using fresh unfolding m_def [symmetric] by (simp_all add: path_frame del: path.simps)
  moreover have "path ?c (Some m) [m, e] (Some b)"
    using fresh assms(5) by (auto simp: m_def)
  ultimately have "path ?c p (ds @ [m, e] @ b # bs) None"
    unfolding path_append by blast
  then show ?thesis unfolding as by simp
qed

lemma ins_key_all_le: "\<forall>y \<in> set xs. fst y \<le> k \<Longrightarrow> ins_key k x xs = xs @ [(k, x)]"
  by (simp add: ins_key_def takeWhile_eq_all_conv [THEN iffD2] dropWhile_eq_Nil_conv [THEN iffD2])

lemma ins_key_split:
  assumes "\<forall>y \<in> set us. fst y \<le> k" "k < fst v"
  shows "ins_key k x (us @ v # vs) = us @ (k, x) # v # vs"
  using assms by (simp add: ins_key_def takeWhile_append dropWhile_append
      takeWhile_eq_all_conv [THEN iffD2] dropWhile_eq_Nil_conv [THEN iffD2])

lemma list_at_length:
  assumes "list_at (h, l) as"
  shows "length as \<le> brk h"
proof -
  have "card (set as) \<le> card {..<brk h}"
    using assms by (intro card_mono) (auto simp: list_at_def)
  with assms show ?thesis by (simp add: list_at_def distinct_card)
qed

lemma list_at_nonempty:
  assumes "list_at (h, l) (a # as)"
  shows "lst_first l = Some a" "\<not> List_IsEmpty l" "\<exists>e. cells h a = Some e"
  using assms by (auto simp: list_at_def List_IsEmpty_def)

text \<open>The element is linked in between \<open>last us\<close> and \<open>b\<close>.\<close>

lemma List_SortedInsert_mid:
  assumes at: "list_at (h, l) (a # us @ b # bs)"
    and le: "\<forall>d \<in> set (a # us). fst (pair_at (cells h) d) \<le> k" and gt: "k < fst (pair_at (cells h) b)"
  shows "\<exists>h2. List_SortedInsert x k (h, l) = Inr (h2, l) \<and> list_at (h2, l) (a # us @ brk h # b # bs) \<and>
    map (pair_at (cells h2)) (a # us @ brk h # b # bs) =
      map (pair_at (cells h)) (a # us) @ (k, x) # map (pair_at (cells h)) (b # bs)"
proof -
  let ?e = "brk h" and ?E = "\<lparr>le_next = None, le_key = k, le_item = x\<rparr>"
  define h1 where "h1 = snd (ListElement_new x k h)"
  define m where "m = last (a # us)"
  let ?as = "(a # us) @ b # bs"
  have p: "path (cells h) (lst_first l) ?as None" "distinct ?as" "\<forall>d \<in> set ?as. d < ?e"
    "lst_last l = Some (last ?as)" using at by (auto simp: list_at_def)
  from p(3) have e: "?e \<notin> set ?as" by auto
  have c1: "cells h1 = (cells h)(?e \<mapsto> ?E)" "brk h1 = Suc ?e"
    by (simp_all add: h1_def ListElement_new_def)
  have m: "m \<in> set (a # us)" by (simp add: m_def)
  with e have "m \<noteq> ?e" by auto
  moreover obtain z where z: "cells h m = Some z" using path_allocated [OF p(1)] m by auto
  ultimately have z1: "cells h1 (last (a # us)) = Some z" by (simp add: c1 m_def)
  have p1: "path (cells h1) (lst_first l) ?as None" using p(1) e by (simp add: c1 path_frame)
  have pr: "pair_at (cells h1) d = pair_at (cells h) d" if "d \<in> set ?as" for d
    using that e unfolding c1 by (intro pair_at_frame) auto
  let ?c2 = "(cells h1)(?e \<mapsto> ?E\<lparr>le_next := Some b\<rparr>, m \<mapsto> z\<lparr>le_next := Some ?e\<rparr>)"
  have "path ?c2 (lst_first l) ((a # us) @ ?e # b # bs) None"
    unfolding m_def by (rule path_link [OF p1 p(2) _ e z1]) simp
  moreover have "List_SortedInsert x k (h, l) = Inr (h1\<lparr>cells := ?c2\<rparr>, l)"
  proof -
    have "sorted_walk (brk h1) k ?e (Some a) h1 = Inr (Some (h1\<lparr>cells := ?c2\<rparr>))"
      unfolding m_def
    proof (rule sorted_walk_stop)
      show "path (cells h1) (Some a) (a # us @ b # bs) None" using p1 by simp
      show "length us < brk h1" using list_at_length [OF at] by (simp add: c1)
      show "\<forall>d \<in> set us. fst (pair_at (cells h1) d) \<le> k" using le pr by simp
      show "k < fst (pair_at (cells h1) b)" using gt pr by simp
    qed (use e z1 in \<open>simp_all add: c1\<close>)
    moreover have "cells h1 a = cells h a" using e by (simp add: c1)
    ultimately show ?thesis
      using list_at_nonempty [OF at] le
      by (auto simp: List_SortedInsert_def h1_def ListElement_new_def pair_at_def)
  qed
  moreover have "map (pair_at ?c2) ?as = map (pair_at (cells h)) ?as"
    using e z pr by (auto simp: pair_at_def c1)
  moreover have "pair_at ?c2 ?e = (k, x)" using \<open>m \<noteq> ?e\<close> by (simp add: pair_at_def)
  ultimately show ?thesis
    using p e c1(2)
    by (intro exI [of _ "h1\<lparr>cells := ?c2\<rparr>"]) (auto simp: list_at_def less_Suc_eq)
qed

lemma List_SortedInsert_end:
  assumes at: "list_at (h, l) (a # us)" and le: "\<forall>d \<in> set (a # us). fst (pair_at (cells h) d) \<le> k"
  shows "List_SortedInsert x k (h, l) =
    bind_r (set_next (lst_last l) (Some (brk h)) (snd (ListElement_new x k h)))
      (\<lambda>h2. Inr (h2, l\<lparr>lst_last := Some (brk h)\<rparr>))"
proof -
  define h1 where "h1 = snd (ListElement_new x k h)"
  have c1: "cells h1 = (cells h)(brk h \<mapsto> \<lparr>le_next = None, le_key = k, le_item = x\<rparr>)"
    "brk h1 = Suc (brk h)" by (simp_all add: h1_def ListElement_new_def)
  have e: "brk h \<notin> set (a # us)" using at by (auto simp: list_at_def)
  have pr: "pair_at (cells h1) d = pair_at (cells h) d" if "d \<in> set (a # us)" for d
    using that e unfolding c1 by (intro pair_at_frame) auto
  have "path (cells h) (Some a) (a # us) None"
    using at list_at_nonempty(1) [OF at] by (simp add: list_at_def)
  then have "path (cells h1) (Some a) (a # us) None"
    unfolding c1 using e by (simp add: path_frame del: path.simps)
  then have "sorted_walk (brk h1) k (brk h) (Some a) h1 = Inr None"
  proof (rule sorted_walk_end)
    show "length us < brk h1" using list_at_length [OF at] by (simp add: c1)
    show "\<forall>b \<in> set us. fst (pair_at (cells h1) b) \<le> k" using le pr by simp
  qed
  moreover have "cells h1 a = cells h a" using e by (simp add: c1)
  ultimately show ?thesis
    using list_at_nonempty [OF at] le
    by (auto simp: List_SortedInsert_def h1_def ListElement_new_def pair_at_def)
qed

lemma List_SortedInsert_front:
  assumes at: "list_at (h, l) (a # us)" and gt: "k < fst (pair_at (cells h) a)"
  shows "List_SortedInsert x k (h, l) =
    bind_r (set_next (Some (brk h)) (lst_first l) (snd (ListElement_new x k h)))
      (\<lambda>h2. Inr (h2, l\<lparr>lst_first := Some (brk h)\<rparr>))"
proof -
  have "a \<noteq> brk h" using at by (auto simp: list_at_def)
  then show ?thesis using list_at_nonempty [OF at] gt
    by (auto simp: List_SortedInsert_def ListElement_new_def pair_at_def)
qed

lemma list_repI: "list_at (h, l) as \<Longrightarrow> xs = map (pair_at (cells h)) as \<Longrightarrow> list_rep (h, l) xs"
  by (auto simp: list_rep_def)

lemma List_SortedInsert_rep:
  assumes "list_rep hl xs"
  shows "\<exists>hl'. List_SortedInsert x k hl = Inr hl' \<and> list_rep hl' (ins_key k x xs)"
proof -
  obtain h l where hl: "hl = (h, l)" by (cases hl)
  from assms obtain as where as: "list_at (h, l) as" "xs = map (pair_at (cells h)) as"
    by (auto simp: list_rep_def hl)
  let ?P = "\<lambda>d. fst (pair_at (cells h) d) \<le> k"
  consider (nil) "as = []"
    | (front) a us where "as = a # us" "\<not> ?P a"
    | (rear) a us where "as = a # us" "\<forall>d \<in> set (a # us). ?P d"
    | (mid) a us b bs where "as = a # us @ b # bs" "\<forall>d \<in> set (a # us). ?P d" "\<not> ?P b"
  proof (cases as)
    case (Cons a us)
    then show ?thesis
      using that split_list_first_prop [of us "\<lambda>d. \<not> ?P d"] by (cases "?P a") (fastforce+)
  qed (use that in auto)
  then show ?thesis
  proof cases
    case nil
    have "List_SortedInsert x k hl = Inr (snd (ListElement_new x k h),
        l\<lparr>lst_first := Some (brk h), lst_last := Some (brk h)\<rparr>)"
      using as(1) nil by (simp add: hl List_SortedInsert_def ListElement_new_def list_at_def List_IsEmpty_def)
    moreover have "list_rep (snd (ListElement_new x k h),
        l\<lparr>lst_first := Some (brk h), lst_last := Some (brk h)\<rparr>) [(k, x)]"
      by (rule list_repI [of _ _ "[brk h]"]) (simp_all add: list_at_def ListElement_new_def pair_at_def)
    ultimately show ?thesis using as(2) nil by (simp add: ins_key_def)
  next
    case front
    from list_at_cons [OF as(1), of x k] front(1) obtain h2 where h2:
      "set_next (Some (brk h)) (lst_first l) (snd (ListElement_new x k h)) = Inr h2"
      "list_at (h2, l\<lparr>lst_first := Some (brk h)\<rparr>) (brk h # as)"
      "map (pair_at (cells h2)) (brk h # as) = (k, x) # map (pair_at (cells h)) as" by auto
    have "ins_key k x xs = (k, x) # xs" using as(2) front by (simp add: ins_key_def)
    with h2 as front List_SortedInsert_front [of h l a us k x] show ?thesis
      by (auto simp: hl intro!: list_repI)
  next
    case rear
    from list_at_snoc [OF as(1), of x k] rear(1) obtain h2 where h2:
      "set_next (lst_last l) (Some (brk h)) (snd (ListElement_new x k h)) = Inr h2"
      "list_at (h2, l\<lparr>lst_last := Some (brk h)\<rparr>) (as @ [brk h])"
      "map (pair_at (cells h2)) (as @ [brk h]) = map (pair_at (cells h)) as @ [(k, x)]" by auto
    have "ins_key k x xs = xs @ [(k, x)]" using as(2) rear by (intro ins_key_all_le) auto
    with h2 as rear List_SortedInsert_end [of h l a us k x] show ?thesis
      by (auto simp: hl simp del: map_append intro!: list_repI)
  next
    case mid
    have "ins_key k x xs = map (pair_at (cells h)) (a # us) @ (k, x) # map (pair_at (cells h)) (b # bs)"
      using as(2) mid ins_key_split [of "map (pair_at (cells h)) (a # us)" k] by auto
    with List_SortedInsert_mid [of h l a us b bs k x] as mid show ?thesis
      by (auto simp: hl simp del: list.map(2) map_append intro!: list_repI)
  qed
qed

lemma List_SortedRemove_empty:
  assumes "list_rep hl []"
  shows "List_SortedRemove hl = Inr ((None, None), hl)"
  using assms by (auto simp: list_rep_def list_at_def List_SortedRemove_def List_IsEmpty_def split: prod.splits)

lemma List_SortedRemove_cons:
  assumes "list_rep hl ((k, x) # xs)"
  shows "\<exists>hl'. List_SortedRemove hl = Inr ((x, Some k), hl') \<and> list_rep hl' xs"
proof -
  obtain h l where hl: "hl = (h, l)" by (cases hl)
  from assms obtain a as where as: "list_at (h, l) (a # as)" "pair_at (cells h) a = (k, x)"
    "xs = map (pair_at (cells h)) as" by (auto simp: list_rep_def hl Cons_eq_map_conv)
  from list_at_nonempty [OF as(1)] obtain e where
    e: "lst_first l = Some a" "\<not> List_IsEmpty l" "cells h a = Some e" by blast
  have p: "path (cells h) (le_next e) as None" "distinct (a # as)" "\<forall>d \<in> set (a # as). d < brk h"
    "lst_last l = Some (last (a # as))" using as(1) e by (auto simp: list_at_def)
  let ?h = "h\<lparr>cells := (cells h)(a := None)\<rparr>"
  have frame: "path ((cells h)(a := None)) (le_next e) as None"
    using p(1,2) by (simp add: path_frame)
  have single: "lst_first l = lst_last l \<longleftrightarrow> as = []" using e(1) p(2,4) by auto
  let ?l = "if as = [] then l\<lparr>lst_first := None, lst_last := None\<rparr> else l\<lparr>lst_first := le_next e\<rparr>"
  have "List_SortedRemove hl = Inr ((x, Some k), (?h, ?l))"
    using e as(2) single by (simp add: hl List_SortedRemove_def pair_at_def)
  moreover have "list_rep (?h, ?l) xs"
    by (rule list_repI [of _ _ as]) (use p frame as(3) in \<open>auto simp: list_at_def\<close>)
  ultimately show ?thesis by blast
qed

interpretation hl: keyed_list list_rep List_Append List_Prepend List_SortedInsert List_SortedRemove
  by unfold_locales
    (rule List_Append_rep List_Prepend_rep List_SortedInsert_rep List_SortedRemove_empty
      List_SortedRemove_cons; assumption)+

lemma List_new_rep: "list_rep (h, List_new) []"
  by (rule list_repI [of _ _ "[]"]) (simp_all add: list_at_def List_new_def)

text \<open>\<^verbatim>\<open>Mapcar\<close> visits the items in order.\<close>

fun visit_items :: "('a option \<Rightarrow> 's \<Rightarrow> 's result) \<Rightarrow> 'a option list \<Rightarrow> 's \<Rightarrow> 's result" where
  "visit_items func [] s = Inr s"
| "visit_items func (x # xs) s = bind_r (func x s) (visit_items func xs)"

lemma mapcar_walk_path:
  "path (cells h) p as None \<Longrightarrow> length as \<le> fuel \<Longrightarrow>
   mapcar_walk fuel func p h s = visit_items func (map (snd \<circ> pair_at (cells h)) as) s"
proof (induction as arbitrary: p fuel s)
  case Nil
  then show ?case by simp
next
  case (Cons a as)
  then obtain n where n: "fuel = Suc n" by (cases fuel) auto
  from Cons show ?case by (auto simp: n pair_at_def intro!: bind_r_cong)
qed

lemma List_Mapcar_visits:
  assumes "list_rep hl xs"
  shows "List_Mapcar func hl s = visit_items func (map snd xs) s"
proof -
  obtain h l where hl: "hl = (h, l)" by (cases hl)
  from assms obtain as where as: "list_at (h, l) as" "xs = map (pair_at (cells h)) as"
    by (auto simp: list_rep_def hl)
  then show ?thesis
    using mapcar_walk_path [of h "lst_first l" as "brk h"] list_at_length [OF as(1)]
    by (simp add: hl List_Mapcar_def list_at_def)
qed

text \<open>The destructor empties a list of non-null items.\<close>

lemma List_Remove_rep:
  "list_rep hl [] \<Longrightarrow> List_Remove hl = Inr (None, hl)"
  "list_rep hl ((k, x) # xs) \<Longrightarrow> \<exists>hl'. List_Remove hl = Inr (x, hl') \<and> list_rep hl' xs"
  using List_SortedRemove_cons [of hl k x xs]
  by (auto simp: List_Remove_def List_SortedRemove_empty)

lemma destroy_loop_rep:
  "list_rep hl xs \<Longrightarrow> None \<notin> snd ` set xs \<Longrightarrow> length xs < fuel \<Longrightarrow>
   \<exists>hl'. destroy_loop fuel hl = Inr hl' \<and> list_rep hl' []"
proof (induction xs arbitrary: hl fuel)
  case Nil
  then show ?case by (cases fuel) (auto simp: List_Remove_rep(1))
next
  case (Cons y ys)
  obtain k x where y: "y = (k, x)" by (cases y)
  obtain n where n: "fuel = Suc n" using Cons.prems(3) by (cases fuel) auto
  from Cons.prems(1) obtain hl1 where hl1: "List_Remove hl = Inr (x, hl1)" "list_rep hl1 ys"
    unfolding y using List_Remove_rep(2) by blast
  have "\<exists>hl'. destroy_loop n hl1 = Inr hl' \<and> list_rep hl' []"
    by (rule Cons.IH [OF hl1(2)]) (use Cons.prems n in auto)
  then show ?case using hl1(1) Cons.prems(2) by (auto simp: n y)
qed

lemma List_delete_rep:
  assumes "list_rep hl xs" "None \<notin> snd ` set xs"
  shows "\<exists>hl'. List_delete hl = Inr hl' \<and> list_rep hl' []"
proof -
  obtain h l as where hl: "hl = (h, l)" "list_at (h, l) as" "xs = map (pair_at (cells h)) as"
    using assms(1) by (cases hl) (auto simp: list_rep_def)
  then have "length xs < Suc (brk h)" using list_at_length [OF hl(2)] by simp
  then show ?thesis unfolding List_delete_def using destroy_loop_rep [OF assms] hl(1)
    by (simp del: destroy_loop.simps)
qed

section \<open>Properties\<close>

text \<open>
  C12: sorted insertion and removal over the pointer structure are a stable sort.  Inserting any
  sequence of (key, item) pairs into a new list with \<^verbatim>\<open>List::SortedInsert\<close> and then calling
  \<^verbatim>\<open>List::SortedRemove\<close> as many times returns every pair exactly once, in ascending order of the
  keys and, among equal keys, in the order of insertion, and leaves an empty list.
\<close>

theorem sorted_list_is_stable_sort:
  "\<exists>hl hl'. run_inserts List_SortedInsert ys (h, List_new) = Inr hl \<and>
     run_removes List_SortedRemove (length ys) hl =
       Inr (map (\<lambda>(k, x). (x, Some k)) (sort_key fst ys), hl') \<and>
     list_rep hl' []"
proof -
  from hl.inserts [OF List_new_rep, of ys h] obtain hl where
    hl: "run_inserts List_SortedInsert ys (h, List_new) = Inr hl" "list_rep hl (sort_key fst ys)"
    unfolding fold_ins_key_sort by blast
  from hl.removes_all [OF hl(2)] hl(1) show ?thesis by simp
qed


end
