(* ===== verification/Hardware_State.thy ===== *)
theory Hardware_State
  imports Nachos_Prelude Linked_List
begin

text \<open>
  The state of the simulated workstation: the performance counters of \<^verbatim>\<open>machine/stats.h\<close>, the
  interrupt hardware of \<^verbatim>\<open>machine/interrupt.h\<close> and the CPU of \<^verbatim>\<open>machine/machine.h\<close>.  The C++
  program keeps each in a global object; here they are the fields of one record \<open>hw\<close>, which
  the kernel theories extend, and every routine is polymorphic in the extension.
\<close>

section \<open>Statistics\<close>

record Statistics =
  totalTicks :: int
  idleTicks :: int
  systemTicks :: int
  userTicks :: int
  numDiskReads :: int
  numDiskWrites :: int
  numConsoleCharsRead :: int
  numConsoleCharsWritten :: int
  numPageFaults :: int
  numPacketsSent :: int
  numPacketsRecvd :: int

definition UserTick :: int where "UserTick = 1"
definition SystemTick :: int where "SystemTick = 10"
definition RotationTime :: int where "RotationTime = 500"
definition SeekTime :: int where "SeekTime = 500"
definition ConsoleTime :: int where "ConsoleTime = 100"
definition NetworkTime :: int where "NetworkTime = 100"
definition TimerTicks :: int where "TimerTicks = 100"

declare UserTick_def [nachos_defs] SystemTick_def [nachos_defs] RotationTime_def [nachos_defs]
  SeekTime_def [nachos_defs] ConsoleTime_def [nachos_defs] NetworkTime_def [nachos_defs]
  TimerTicks_def [nachos_defs]

definition Statistics_new :: Statistics where
  "Statistics_new = \<lparr>totalTicks = 0, idleTicks = 0, systemTicks = 0, userTicks = 0,
     numDiskReads = 0, numDiskWrites = 0, numConsoleCharsRead = 0, numConsoleCharsWritten = 0,
     numPageFaults = 0, numPacketsSent = 0, numPacketsRecvd = 0\<rparr>"

section \<open>Interrupt hardware\<close>

datatype IntStatus = IntOff | IntOn

datatype MachineStatus = IdleMode | SystemMode | UserMode

datatype IntType = TimerInt | DiskInt | ConsoleWriteInt | ConsoleReadInt | NetworkSendInt
  | NetworkRecvInt

text \<open>
  The functions that the device simulations pass to \<^verbatim>\<open>Interrupt::Schedule\<close>; there is one device
  of each kind, so the function also determines the object its argument points to.
\<close>

datatype IntHandler = TimerHandler | DiskDone | ConsoleReadPoll | ConsoleWriteDone
  | NetworkReadPoll | NetworkSendDone

record PendingInterrupt =
  pi_handler :: IntHandler
  pi_when :: int
  pi_type :: IntType

definition PendingInterrupt_new :: "IntHandler \<Rightarrow> int \<Rightarrow> IntType \<Rightarrow> PendingInterrupt" where
  "PendingInterrupt_new func time kind = \<lparr>pi_handler = func, pi_when = time, pi_type = kind\<rparr>"

section \<open>CPU and memory\<close>

definition SectorSize :: nat where "SectorSize = 512"
definition PageSize :: nat where "PageSize = SectorSize"
definition NumPhysPages :: nat where "NumPhysPages = 128"
definition MemorySize :: nat where "MemorySize = NumPhysPages * PageSize"
definition TLBSize :: nat where "TLBSize = 4"

declare SectorSize_def [nachos_defs] PageSize_def [nachos_defs] NumPhysPages_def [nachos_defs]
  MemorySize_def [nachos_defs] TLBSize_def [nachos_defs]

datatype ExceptionType = NoException | SyscallException | PageFaultException | ReadOnlyException
  | BusErrorException | AddressErrorException | OverflowException | IllegalInstrException

definition StackReg :: nat where "StackReg = 29"
definition RetAddrReg :: nat where "RetAddrReg = 31"
definition NumGPRegs :: nat where "NumGPRegs = 32"
definition HiReg :: nat where "HiReg = 32"
definition LoReg :: nat where "LoReg = 33"
definition PCReg :: nat where "PCReg = 34"
definition NextPCReg :: nat where "NextPCReg = 35"
definition PrevPCReg :: nat where "PrevPCReg = 36"
definition LoadReg :: nat where "LoadReg = 37"
definition LoadValueReg :: nat where "LoadValueReg = 38"
definition BadVAddrReg :: nat where "BadVAddrReg = 39"
definition NumTotalRegs :: nat where "NumTotalRegs = 40"

lemmas reg_defs = StackReg_def RetAddrReg_def NumGPRegs_def HiReg_def LoReg_def PCReg_def
  NextPCReg_def PrevPCReg_def LoadReg_def LoadValueReg_def BadVAddrReg_def NumTotalRegs_def

declare reg_defs [nachos_defs]

record TranslationEntry =
  virtualPage :: "32 word"
  physicalPage :: "32 word"
  valid :: bool
  readOnly :: bool
  use :: bool
  dirty :: bool

text \<open>
  The record of the whole simulated workstation.  \<open>pending\<close> is the sorted list of the
  interrupts to come.  Page tables belong to address spaces and the CPU only points to one, so
  they live in the store \<open>pageTables\<close> and \<open>pageTable\<close> is the address of the current one (\<open>None\<close>
  for the null pointer).  \<open>randomize\<close> is the one field of the timer device that its routines
  read; \<open>rand_seq\<close> is the sequence of the numbers that the host's \<^verbatim>\<open>rand()\<close> returns and \<open>rand_pos\<close>
  counts its calls.
\<close>

record hw =
  stats :: Statistics
  level :: IntStatus
  pending :: "(int \<times> PendingInterrupt option) list"
  inHandler :: bool
  yieldOnReturn :: bool
  status :: MachineStatus
  registers :: "nat \<Rightarrow> 32 word"
  mainMemory :: "nat \<Rightarrow> 8 word"
  tlb :: "TranslationEntry list option"
  pageTable :: "nat option"
  pageTableSize :: "32 word"
  pageTables :: "nat \<Rightarrow> TranslationEntry list option"
  singleStep :: bool
  runUntilTime :: int
  randomize :: bool
  rand_seq :: "nat \<Rightarrow> int"
  rand_pos :: nat

end
