(* ===== verification/Machine.thy ===== *)
theory Machine
  imports Hardware_State
begin

text \<open>
  The user-program side of the workstation, \<^verbatim>\<open>machine/machine.cc\<close> and \<^verbatim>\<open>machine/translate.cc\<close>:
  registers, delayed loads, address translation through a linear page table or a TLB, memory
  access, traps, and the two routines that copy between user and kernel space.  The host is
  little-endian, so \<^verbatim>\<open>WordToHost\<close> and its three siblings are the identity.

  The kernel's trap entry \<^verbatim>\<open>ExceptionHandler\<close> is the argument \<open>eh\<close> of every routine that can
  trap.
\<close>

unbundle bit_operations_syntax

section \<open>Registers\<close>

definition Machine_ReadRegister :: "int \<Rightarrow> 'z hw_scheme \<Rightarrow> (32 word) result" where
  "Machine_ReadRegister num m =
     bind_r (ASSERT (0 \<le> num \<and> num < int NumTotalRegs)) (\<lambda>_. Inr (registers m (nat num)))"

definition Machine_WriteRegister :: "int \<Rightarrow> 32 word \<Rightarrow> 'z hw_scheme \<Rightarrow> 'z hw_scheme result" where
  "Machine_WriteRegister num value m =
     bind_r (ASSERT (0 \<le> num \<and> num < int NumTotalRegs)) (\<lambda>_.
       Inr (m\<lparr>registers := (registers m)(nat num := value)\<rparr>))"

text \<open>
  \<^verbatim>\<open>Machine::DelayedLoad\<close>: finish the load in progress, start the next one, keep R0 zero.
  The first assignment indexes the register file with the content of a register.
\<close>

definition Machine_DelayedLoad :: "32 word \<Rightarrow> 32 word \<Rightarrow> 'z hw_scheme \<Rightarrow> 'z hw_scheme result" where
  "Machine_DelayedLoad nextReg nextValue m = (
     let r = registers m; i = sint (r LoadReg) in
     if 0 \<le> i \<and> i < int NumTotalRegs
     then Inr (m\<lparr>registers :=
            ((r(nat i := r LoadValueReg))(LoadReg := nextReg, LoadValueReg := nextValue))(0 := 0)\<rparr>)
     else Inl OutOfBounds)"

section \<open>Traps\<close>

type_synonym 's handler = "ExceptionType \<Rightarrow> 's \<Rightarrow> 's result"

definition Machine_RaiseException ::
  "'z hw_scheme handler \<Rightarrow> ExceptionType \<Rightarrow> 32 word \<Rightarrow> 'z hw_scheme \<Rightarrow> 'z hw_scheme result" where
  "Machine_RaiseException eh which badVAddr m =
     bind_r (Machine_DelayedLoad 0 0 (m\<lparr>registers := (registers m)(BadVAddrReg := badVAddr)\<rparr>)) (\<lambda>m1.
     bind_r (eh which (m1\<lparr>status := SystemMode\<rparr>)) (\<lambda>m2. Inr (m2\<lparr>status := UserMode\<rparr>)))"

section \<open>Byte order\<close>

definition WordToHost :: "32 word \<Rightarrow> 32 word" where "WordToHost word = word"
definition ShortToHost :: "16 word \<Rightarrow> 16 word" where "ShortToHost shortword = shortword"
definition WordToMachine :: "32 word \<Rightarrow> 32 word" where "WordToMachine word = WordToHost word"
definition ShortToMachine :: "16 word \<Rightarrow> 16 word" where
  "ShortToMachine shortword = ShortToHost shortword"

lemmas byte_order_defs = WordToMachine_def ShortToMachine_def WordToHost_def ShortToHost_def

text \<open>The bytes of a \<^verbatim>\<open>short\<close> and of an \<^verbatim>\<open>int\<close> in the memory of a little-endian host.\<close>

definition load16 :: "(nat \<Rightarrow> 8 word) \<Rightarrow> nat \<Rightarrow> 16 word" where
  "load16 mem p = ucast (mem p) OR push_bit 8 (ucast (mem (p + 1)))"

definition load32 :: "(nat \<Rightarrow> 8 word) \<Rightarrow> nat \<Rightarrow> 32 word" where
  "load32 mem p = ucast (mem p) OR push_bit 8 (ucast (mem (p + 1)))
     OR push_bit 16 (ucast (mem (p + 2))) OR push_bit 24 (ucast (mem (p + 3)))"

definition store16 :: "nat \<Rightarrow> 16 word \<Rightarrow> (nat \<Rightarrow> 8 word) \<Rightarrow> nat \<Rightarrow> 8 word" where
  "store16 p v mem = mem(p := ucast v, p + 1 := ucast (drop_bit 8 v))"

definition store32 :: "nat \<Rightarrow> 32 word \<Rightarrow> (nat \<Rightarrow> 8 word) \<Rightarrow> nat \<Rightarrow> 8 word" where
  "store32 p v mem = mem(p := ucast v, p + 1 := ucast (drop_bit 8 v),
     p + 2 := ucast (drop_bit 16 v), p + 3 := ucast (drop_bit 24 v))"

section \<open>Start-up\<close>

text \<open>\<^verbatim>\<open>Machine::Machine\<close> and the check of the byte order it makes.\<close>

definition CheckEndian :: "unit result" where
  "CheckEndian = ASSERT (load32 ((\<lambda>_. 0)(0 := 1, 1 := 2, 2 := 3, 3 := 4)) 0 = 0x04030201)"

definition Machine_new :: "bool \<Rightarrow> 'z hw_scheme \<Rightarrow> 'z hw_scheme result" where
  "Machine_new debug m =
     bind_r CheckEndian (\<lambda>_.
       Inr (m\<lparr>registers := (\<lambda>_. 0), mainMemory := (\<lambda>_. 0), tlb := None, pageTable := None,
              singleStep := debug\<rparr>))"

section \<open>Address translation\<close>

text \<open>Where a translation entry is stored: an index of the TLB or of a page table.\<close>

datatype entry_ref = TLBEntry nat | PTEntry nat nat

definition set_entry :: "entry_ref \<Rightarrow> TranslationEntry \<Rightarrow> 'z hw_scheme \<Rightarrow> 'z hw_scheme" where
  "set_entry r e m = (case r of
     TLBEntry i \<Rightarrow> m\<lparr>tlb := map_option (\<lambda>t. t[i := e]) (tlb m)\<rparr>
   | PTEntry p i \<Rightarrow> m\<lparr>pageTables := (pageTables m)(p := map_option (\<lambda>t. t[i := e]) (pageTables m p))\<rparr>)"

text \<open>The scan of the TLB for a valid entry of the page.\<close>

fun tlb_scan :: "32 word \<Rightarrow> nat \<Rightarrow> nat \<Rightarrow> TranslationEntry list \<Rightarrow> nat option result" where
  "tlb_scan vpn i 0 t = Inr None"
| "tlb_scan vpn i (Suc k) t =
     bind_r (arr_get t (int i)) (\<lambda>e.
       if valid e \<and> virtualPage e = vpn then Inr (Some i) else tlb_scan vpn (Suc i) k t)"

text \<open>The part of \<^verbatim>\<open>Machine::Translate\<close> that finds the entry: an exception or the entry's place.\<close>

definition find_entry :: "32 word \<Rightarrow> 'z hw_scheme \<Rightarrow> (ExceptionType + entry_ref \<times> TranslationEntry) result" where
  "find_entry vpn m = (case tlb m of
     None \<Rightarrow>
       (case pageTable m of
          None \<Rightarrow> Inl BadPointer
        | Some p \<Rightarrow>
            if vpn \<ge> pageTableSize m then Inr (Inl AddressErrorException)
            else (case pageTables m p of
                None \<Rightarrow> Inl BadPointer
              | Some t \<Rightarrow> bind_r (arr_get t (int (unat vpn))) (\<lambda>e.
                  if \<not> valid e then Inr (Inl PageFaultException)
                  else Inr (Inr (PTEntry p (unat vpn), e)))))
   | Some t \<Rightarrow> bind_r (tlb_scan vpn 0 TLBSize t) (\<lambda>r. case r of
         None \<Rightarrow> Inr (Inl PageFaultException)
       | Some i \<Rightarrow> Inr (Inr (TLBEntry i, t ! i))))"

definition Machine_Translate ::
  "32 word \<Rightarrow> nat \<Rightarrow> bool \<Rightarrow> 'z hw_scheme \<Rightarrow> ((ExceptionType + nat) \<times> 'z hw_scheme) result" where
  "Machine_Translate virtAddr sz writing m =
     (if sz = 4 \<and> virtAddr AND 0x3 \<noteq> 0 \<or> sz = 2 \<and> virtAddr AND 0x1 \<noteq> 0
      then Inr (Inl AddressErrorException, m)
      else
        bind_r (ASSERT (tlb m = None \<or> pageTable m = None)) (\<lambda>_.
        bind_r (ASSERT (tlb m \<noteq> None \<or> pageTable m \<noteq> None)) (\<lambda>_.
        let vpn = virtAddr div of_nat PageSize; offset = virtAddr mod of_nat PageSize in
        bind_r (find_entry vpn m) (\<lambda>f. case f of
          Inl ex \<Rightarrow> Inr (Inl ex, m)
        | Inr (ref, entry) \<Rightarrow>
            if readOnly entry \<and> writing then Inr (Inl ReadOnlyException, m)
            else let pageFrame = physicalPage entry in
              if pageFrame \<ge> of_nat NumPhysPages then Inr (Inl BusErrorException, m)
              else let entry1 = entry\<lparr>use := True\<rparr>;
                       entry2 = (if writing then entry1\<lparr>dirty := True\<rparr> else entry1);
                       physAddr = sint (pageFrame * of_nat PageSize + offset) in
                bind_r (ASSERT (physAddr \<ge> 0 \<and> physAddr + int sz \<le> int MemorySize)) (\<lambda>_.
                Inr (Inr (nat physAddr), set_entry ref entry2 m))))))"

section \<open>Memory access\<close>

text \<open>\<open>Some v\<close>: the access succeeded and \<^verbatim>\<open>*value\<close> is \<open>v\<close>; \<open>None\<close>: it returned \<^verbatim>\<open>FALSE\<close>.\<close>

definition Machine_ReadMem :: "'z hw_scheme handler \<Rightarrow> 32 word \<Rightarrow> nat \<Rightarrow> 'z hw_scheme \<Rightarrow>
    ((32 word) option \<times> 'z hw_scheme) result" where
  "Machine_ReadMem eh addr sz m =
     bind_r (Machine_Translate addr sz False m) (\<lambda>(t, m1). case t of
       Inl exception \<Rightarrow> bind_r (Machine_RaiseException eh exception addr m1) (\<lambda>m2. Inr (None, m2))
     | Inr p \<Rightarrow>
         if sz = 1 then Inr (Some (scast (mainMemory m1 p)), m1)
         else if sz = 2 then Inr (Some (ucast (ShortToHost (load16 (mainMemory m1) p))), m1)
         else if sz = 4 then Inr (Some (WordToHost (load32 (mainMemory m1) p)), m1)
         else Inl AssertFail)"

definition Machine_WriteMem :: "'z hw_scheme handler \<Rightarrow> 32 word \<Rightarrow> nat \<Rightarrow> 32 word \<Rightarrow> 'z hw_scheme \<Rightarrow>
    (bool \<times> 'z hw_scheme) result" where
  "Machine_WriteMem eh addr sz value m =
     bind_r (Machine_Translate addr sz True m) (\<lambda>(t, m1). case t of
       Inl exception \<Rightarrow> bind_r (Machine_RaiseException eh exception addr m1) (\<lambda>m2. Inr (False, m2))
     | Inr p \<Rightarrow>
         if sz = 1
         then Inr (True, m1\<lparr>mainMemory := (mainMemory m1)(p := ucast (value AND 0xff))\<rparr>)
         else if sz = 2
         then Inr (True, m1\<lparr>mainMemory :=
                store16 p (ShortToMachine (ucast (value AND 0xffff))) (mainMemory m1)\<rparr>)
         else if sz = 4
         then Inr (True, m1\<lparr>mainMemory := store32 p (WordToMachine value) (mainMemory m1)\<rparr>)
         else Inl AssertFail)"

section \<open>Copying between user and kernel space\<close>

text \<open>
  \<^verbatim>\<open>Machine::User2System\<close>.  The result of \<^verbatim>\<open>ReadMem\<close> is ignored: after a failed access the
  variable \<^verbatim>\<open>oneChar\<close> still has its old value, at the start the uninitialised \<open>raw\<close>.
\<close>

fun u2s_loop :: "'z hw_scheme handler \<Rightarrow> 32 word \<Rightarrow> nat \<Rightarrow> nat \<Rightarrow> 32 word \<Rightarrow> 8 word list \<Rightarrow>
    'z hw_scheme \<Rightarrow> (8 word list \<times> 'z hw_scheme) result" where
  "u2s_loop eh virtAddr idx 0 oneChar buf m = Inr (buf, m)"
| "u2s_loop eh virtAddr idx (Suc k) oneChar buf m =
     bind_r (Machine_ReadMem eh (virtAddr + of_nat idx) 1 m) (\<lambda>(r, m1).
     let oneChar1 = (case r of Some v \<Rightarrow> v | None \<Rightarrow> oneChar) in
     bind_r (arr_set buf (int idx) (ucast oneChar1)) (\<lambda>buf1.
       if oneChar1 = 0 then Inr (buf1, m1)
       else u2s_loop eh virtAddr (Suc idx) k oneChar1 buf1 m1))"

definition Machine_User2System :: "'z hw_scheme handler \<Rightarrow> 32 word \<Rightarrow> 32 word \<Rightarrow> int \<Rightarrow> 'z hw_scheme \<Rightarrow>
    (8 word list \<times> 'z hw_scheme) result" where
  "Machine_User2System eh raw virtAddr limit m =
     (if limit + 1 < 0 then Inl OutOfBounds
      else u2s_loop eh virtAddr 0 (nat limit) raw (replicate (nat (limit + 1)) 0) m)"

text \<open>\<^verbatim>\<open>Machine::System2User\<close>: the number of characters written, and the machine after that.\<close>

fun s2u_loop :: "'z hw_scheme handler \<Rightarrow> 32 word \<Rightarrow> nat \<Rightarrow> nat \<Rightarrow> 8 word list \<Rightarrow> 'z hw_scheme \<Rightarrow>
    (int \<times> 'z hw_scheme) result" where
  "s2u_loop eh virtAddr i 0 buf m = Inr (int i, m)"
| "s2u_loop eh virtAddr i (Suc k) buf m =
     bind_r (arr_get buf (int i)) (\<lambda>b.
     let oneChar = scast b :: 32 word in
     bind_r (Machine_WriteMem eh (virtAddr + of_nat i) 1 oneChar m) (\<lambda>(_, m1).
       if oneChar \<noteq> 0 then s2u_loop eh virtAddr (Suc i) k buf m1 else Inr (int (Suc i), m1)))"

definition Machine_System2User :: "'z hw_scheme handler \<Rightarrow> 32 word \<Rightarrow> int \<Rightarrow> 8 word list \<Rightarrow>
    'z hw_scheme \<Rightarrow> (int \<times> 'z hw_scheme) result" where
  "Machine_System2User eh virtAddr len buf m =
     (if len < 0 then Inr (-1, m)
      else if len = 0 then Inr (len, m)
      else s2u_loop eh virtAddr 0 (nat len) buf m)"

section \<open>The register invariant\<close>

text \<open>Register 0 holds zero and the delayed load in progress targets a general register.\<close>

definition cpu_ok :: "'z hw_scheme \<Rightarrow> bool" where
  "cpu_ok m \<longleftrightarrow> registers m 0 = 0 \<and> uint (registers m LoadReg) < 32"

lemma cpu_ok_frame [simp]:
  "cpu_ok (m\<lparr>status := st\<rparr>) = cpu_ok m" "cpu_ok (m\<lparr>mainMemory := f\<rparr>) = cpu_ok m"
  "cpu_ok (m\<lparr>registers := (registers m)(BadVAddrReg := v)\<rparr>) = cpu_ok m"
  by (simp_all add: cpu_ok_def reg_defs)

lemma DelayedLoad_ok:
  assumes "uint (registers m LoadReg) < 32"
  shows "Machine_DelayedLoad nr nv m = Inr (m\<lparr>registers :=
    (((registers m)(unat (registers m LoadReg) := registers m LoadValueReg))(LoadReg := nr, LoadValueReg := nv))
      (0 := 0)\<rparr>)"
proof -
  have "unat (registers m LoadReg) < 2 ^ 31" using assms by (simp add: unat_eq_nat_uint nat_less_iff del: nat_uint_eq)
  from sint_small [OF this] have s: "sint (registers m LoadReg) = uint (registers m LoadReg)" by simp
  show ?thesis using assms unfolding Machine_DelayedLoad_def Let_def s by (simp add: reg_defs)
qed

lemma DelayedLoad_cpu_ok:
  assumes "uint (registers m LoadReg) < 32" "uint nr < 32"
  shows "\<exists>m'. Machine_DelayedLoad nr nv m = Inr m' \<and> cpu_ok m'"
  using assms(2) by (simp add: DelayedLoad_ok [OF assms(1)] cpu_ok_def reg_defs)

section \<open>Bytes and words\<close>

lemma CheckEndian_ok [simp]: "CheckEndian = Inr ()"
  by (simp add: CheckEndian_def load32_def)

lemma bit_simps32 [simp]:
  "bit (ucast (b :: 8 word) :: 32 word) n \<longleftrightarrow> n < 8 \<and> bit b n"
  "bit (ucast (b :: 8 word) :: 16 word) n \<longleftrightarrow> n < 8 \<and> bit b n"
  by (auto simp: bit_ucast_iff possible_bit_def dest: bit_imp_le_length)

lemma load16_store16: "load16 (store16 p v mem) p = v"
  by (rule bit_word_eqI)
    (auto simp: load16_def store16_def bit_or_iff bit_push_bit_iff bit_ucast_iff bit_drop_bit_eq
      possible_bit_def)

lemma load32_store32: "load32 (store32 p v mem) p = v"
proof (rule bit_word_eqI)
  fix n assume "n < LENGTH(32)"
  then consider "n < 8" | "8 \<le> n" "n < 16" | "16 \<le> n" "n < 24" | "24 \<le> n" "n < 32" by fastforce
  then show "bit (load32 (store32 p v mem) p) n = bit v n"
    by cases (auto simp: load32_def store32_def bit_or_iff bit_push_bit_iff bit_ucast_iff
      bit_drop_bit_eq possible_bit_def)
qed

lemma store32_other: "q < p \<or> p + 4 \<le> q \<Longrightarrow> store32 p v mem q = mem q"
  and store16_other: "q < p \<or> p + 2 \<le> q \<Longrightarrow> store16 p w mem q = mem q"
  by (auto simp: store32_def store16_def)

section \<open>What a translation computes\<close>

text \<open>
  The contract of the translation hardware over natural numbers: the virtual page number is the
  quotient of the address by the page size and indexes the page table.
\<close>

definition misaligned :: "32 word \<Rightarrow> nat \<Rightarrow> bool" where
  "misaligned a sz \<longleftrightarrow> sz = 4 \<and> unat a mod 4 \<noteq> 0 \<or> sz = 2 \<and> unat a mod 2 \<noteq> 0"

definition xlate :: "TranslationEntry list \<Rightarrow> 32 word \<Rightarrow> nat \<Rightarrow> bool \<Rightarrow> ExceptionType + nat" where
  "xlate t a sz writing =
     (let vpn = unat a div PageSize in
      if misaligned a sz then Inl AddressErrorException
      else if vpn \<ge> length t then Inl AddressErrorException
      else if \<not> valid (t ! vpn) then Inl PageFaultException
      else if readOnly (t ! vpn) \<and> writing then Inl ReadOnlyException
      else if unat (physicalPage (t ! vpn)) \<ge> NumPhysPages then Inl BusErrorException
      else Inr (unat (physicalPage (t ! vpn)) * PageSize + unat a mod PageSize))"

definition touch :: "bool \<Rightarrow> TranslationEntry \<Rightarrow> TranslationEntry" where
  "touch writing e = (if writing then e\<lparr>use := True, dirty := True\<rparr> else e\<lparr>use := True\<rparr>)"

text \<open>The CPU uses the page table at address \<open>p\<close>, which is \<open>t\<close>.\<close>

definition pt_mode :: "nat \<Rightarrow> TranslationEntry list \<Rightarrow> 'z hw_scheme \<Rightarrow> bool" where
  "pt_mode p t m \<longleftrightarrow> tlb m = None \<and> pageTable m = Some p \<and> pageTables m p = Some t \<and>
     length t = unat (pageTableSize m)"

lemma misaligned_word:
  "(sz = 4 \<and> a AND 0x3 \<noteq> 0 \<or> sz = 2 \<and> a AND 0x1 \<noteq> 0) = misaligned a sz"
proof -
  have "a AND 0x3 = a mod 4" using take_bit_eq_mod [of 2 a] take_bit_eq_mask [of 2 a]
    by (simp add: mask_eq_exp_minus_1)
  moreover have "a AND 0x1 = a mod 2" using take_bit_eq_mod [of 1 a] take_bit_eq_mask [of 1 a]
    by (simp add: mask_eq_exp_minus_1)
  ultimately show ?thesis
    unfolding misaligned_def by (simp add: word_unat_eq_iff unat_mod)
qed

lemma in_page:
  assumes "sz \<in> {1, 2, 4}" "\<not> misaligned a sz"
  shows "unat a mod PageSize + sz \<le> PageSize"
proof -
  have "sz dvd unat a" using assms by (auto simp: misaligned_def dvd_eq_mod_eq_0)
  moreover have "sz dvd 512" using assms(1) by auto
  ultimately have "sz dvd unat a mod 512" by (simp add: dvd_mod)
  moreover have "unat a mod 512 < 512" by simp
  ultimately obtain k where k: "unat a mod 512 = sz * k" "sz * k < 512" by (metis dvd_def)
  with assms(1) show ?thesis by (auto simp: nachos_defs)
qed

lemma frame_addr:
  fixes f a :: "32 word"
  assumes "unat f < NumPhysPages" "sz \<in> {1, 2, 4}" "\<not> misaligned a sz"
  shows "sint (f * of_nat PageSize + a mod of_nat PageSize) =
      int (unat f * PageSize + unat a mod PageSize)"
    and "unat f * PageSize + unat a mod PageSize + sz \<le> MemorySize"
proof -
  have o: "unat (a mod 512) = unat a mod 512" by (simp add: unat_mod)
  then have o': "unat (a mod 512) < 512" by simp
  have f: "unat f < 128" using assms(1) by (simp add: nachos_defs)
  have fm: "unat (f * 512) = unat f * 512" using f by (subst unat_mult_lem [THEN iffD1]) simp_all
  have fa: "unat (f * 512 + a mod 512) = unat f * 512 + unat a mod 512"
    using f o o' fm by (subst unat_add_lem [THEN iffD1]) simp_all
  then have "unat (f * 512 + a mod 512) < 2 ^ 31" using f o' o by simp
  then have "sint (f * 512 + a mod 512) = int (unat (f * 512 + a mod 512))" by (rule sint_small)
  with fa show "sint (f * of_nat PageSize + a mod of_nat PageSize) =
      int (unat f * PageSize + unat a mod PageSize)" by (simp add: nachos_defs)
  show "unat f * PageSize + unat a mod PageSize + sz \<le> MemorySize"
    using in_page [OF assms(2,3)] f by (simp add: nachos_defs)
qed

lemma unat_page [simp]: "unat (a div of_nat PageSize :: 32 word) = unat a div PageSize"
  by (simp add: nachos_defs unat_div)

lemma frame_le [simp]: "of_nat NumPhysPages \<le> (f :: 32 word) \<longleftrightarrow> NumPhysPages \<le> unat f"
  by (simp add: nachos_defs word_le_nat_alt)

text \<open>In page-table mode \<^verbatim>\<open>Machine::Translate\<close> computes \<^const>\<open>xlate\<close>; no assertion fails.\<close>

lemma find_entry_pt:
  assumes "pt_mode p t m"
  shows "find_entry vpn m =
    Inr (if unat vpn \<ge> length t then Inl AddressErrorException
         else if \<not> valid (t ! unat vpn) then Inl PageFaultException
         else Inr (PTEntry p (unat vpn), t ! unat vpn))"
  using assms by (auto simp: find_entry_def pt_mode_def word_le_nat_alt)

lemma Machine_Translate_pt:
  assumes "pt_mode p t m" "sz \<in> {1, 2, 4}"
  shows "Machine_Translate a sz writing m =
    Inr (xlate t a sz writing,
      if isl (xlate t a sz writing) then m
      else set_entry (PTEntry p (unat a div PageSize)) (touch writing (t ! (unat a div PageSize))) m)"
proof (cases "misaligned a sz \<or> unat (physicalPage (t ! (unat a div PageSize))) \<ge> NumPhysPages")
  case True
  moreover have "tlb m = None" "pageTable m = Some p" using assms(1) by (simp_all add: pt_mode_def)
  ultimately show ?thesis
    unfolding Machine_Translate_def misaligned_word
    by (auto simp: find_entry_pt [OF assms(1)] xlate_def Let_def)
next
  case False
  define f where "f = physicalPage (t ! (unat a div PageSize))"
  define q where "q = unat f * PageSize + unat a mod PageSize"
  have "sint (f * of_nat PageSize + a mod of_nat PageSize) = int q" "q + sz \<le> MemorySize"
    unfolding q_def f_def using frame_addr [OF _ assms(2)] False by auto
  moreover have "int q + int sz \<le> int MemorySize \<longleftrightarrow> q + sz \<le> MemorySize" by linarith
  moreover have "tlb m = None" "pageTable m = Some p" using assms(1) by (simp_all add: pt_mode_def)
  moreover have "\<not> misaligned a sz" "\<not> NumPhysPages \<le> unat f" using False by (simp_all add: f_def)
  ultimately show ?thesis
    unfolding Machine_Translate_def misaligned_word
    by (simp add: find_entry_pt [OF assms(1)] xlate_def Let_def
        touch_def f_def [symmetric] q_def [symmetric])
qed

section \<open>Memory access through a page table\<close>

text \<open>Page tables that differ in use and dirty bits only translate alike.\<close>

definition same_map :: "TranslationEntry list \<Rightarrow> TranslationEntry list \<Rightarrow> bool" where
  "same_map t t' \<longleftrightarrow> length t = length t' \<and> (\<forall>i < length t.
     physicalPage (t ! i) = physicalPage (t' ! i) \<and> valid (t ! i) = valid (t' ! i) \<and>
     readOnly (t ! i) = readOnly (t' ! i))"

lemma same_map_refl [simp]: "same_map t t"
  by (simp add: same_map_def)

lemma same_map_trans: "same_map t u \<Longrightarrow> same_map u v \<Longrightarrow> same_map t v"
  by (simp add: same_map_def)

lemma same_map_touch [simp]: "same_map t (t[i := touch w (t ! i)])"
  by (cases "i < length t") (auto simp: same_map_def nth_list_update touch_def)

lemma same_map_xlate: "same_map t t' \<Longrightarrow> xlate t' = xlate t"
  by (intro ext) (auto simp: same_map_def xlate_def Let_def)

lemma set_entry_mem [simp]:
  "mainMemory (set_entry r e m) = mainMemory m" "registers (set_entry r e m) = registers m"
  "status (set_entry r e m) = status m"
  by (simp_all add: set_entry_def split: entry_ref.splits)

lemma pt_mode_set_entry: "pt_mode p t m \<Longrightarrow> pt_mode p (t[i := e]) (set_entry (PTEntry p i) e m)"
  by (simp add: pt_mode_def set_entry_def)

lemma pt_mode_mainMemory [simp]: "pt_mode p t (m\<lparr>mainMemory := f\<rparr>) = pt_mode p t m"
  by (simp add: pt_mode_def)

definition get_mem :: "nat \<Rightarrow> nat \<Rightarrow> (nat \<Rightarrow> 8 word) \<Rightarrow> 32 word" where
  "get_mem sz q mem = (if sz = 1 then scast (mem q) else if sz = 2 then ucast (load16 mem q)
     else load32 mem q)"

definition put_mem :: "nat \<Rightarrow> nat \<Rightarrow> 32 word \<Rightarrow> (nat \<Rightarrow> 8 word) \<Rightarrow> nat \<Rightarrow> 8 word" where
  "put_mem sz q v mem = (if sz = 1 then mem(q := ucast v) else if sz = 2 then store16 q (ucast v) mem
     else store32 q v mem)"

text \<open>The value that comes back: bytes are signed, half words are not.\<close>

definition extend :: "nat \<Rightarrow> 32 word \<Rightarrow> 32 word" where
  "extend sz v = (if sz = 1 then scast (ucast v :: 8 word) else if sz = 2 then ucast (ucast v :: 16 word)
     else v)"

lemma get_put_mem: "get_mem sz q (put_mem sz q v mem) = extend sz v"
  by (simp add: get_mem_def put_mem_def extend_def load16_store16 load32_store32)

lemma put_mem_other: "sz \<in> {1, 2, 4} \<Longrightarrow> x < q \<or> q + sz \<le> x \<Longrightarrow> put_mem sz q v mem x = mem x"
  by (auto simp: put_mem_def store16_other store32_other)

lemma ucast_mask [simp]:
  "ucast (v AND 0xff :: 32 word) = (ucast v :: 8 word)"
  "ucast (v AND 0xffff :: 32 word) = (ucast v :: 16 word)"
proof -
  have m: "(0xff :: 32 word) = mask 8" "(0xffff :: 32 word) = mask 16"
    by (simp_all add: mask_eq_exp_minus_1)
  show "ucast (v AND 0xff :: 32 word) = (ucast v :: 8 word)"
    "ucast (v AND 0xffff :: 32 word) = (ucast v :: 16 word)"
    unfolding m by (auto intro!: bit_word_eqI simp: bit_ucast_iff bit_and_iff bit_mask_iff possible_bit_def)
qed

lemma Machine_ReadMem_ok:
  assumes "pt_mode p t m" "sz \<in> {1, 2, 4}" "xlate t a sz False = Inr q"
  shows "\<exists>t' m'. Machine_ReadMem eh a sz m = Inr (Some (get_mem sz q (mainMemory m)), m') \<and>
    pt_mode p t' m' \<and> same_map t t' \<and> mainMemory m' = mainMemory m \<and> registers m' = registers m"
proof -
  let ?v = "unat a div PageSize"
  let ?m = "set_entry (PTEntry p ?v) (touch False (t ! ?v)) m"
  have "Machine_ReadMem eh a sz m = Inr (Some (get_mem sz q (mainMemory m)), ?m)"
    using assms(2,3) by (auto simp: Machine_ReadMem_def Machine_Translate_pt [OF assms(1,2)] get_mem_def
        byte_order_defs)
  with pt_mode_set_entry [OF assms(1)] show ?thesis
    by (intro exI [of _ "t[?v := touch False (t ! ?v)]"]) auto
qed

lemma Machine_WriteMem_ok:
  assumes "pt_mode p t m" "sz \<in> {1, 2, 4}" "xlate t a sz True = Inr q"
  shows "\<exists>t' m'. Machine_WriteMem eh a sz v m = Inr (True, m') \<and>
    pt_mode p t' m' \<and> same_map t t' \<and> mainMemory m' = put_mem sz q v (mainMemory m) \<and>
    registers m' = registers m"
proof -
  let ?v = "unat a div PageSize"
  let ?m = "(set_entry (PTEntry p ?v) (touch True (t ! ?v)) m)\<lparr>mainMemory := put_mem sz q v (mainMemory m)\<rparr>"
  have "Machine_WriteMem eh a sz v m = Inr (True, ?m)"
    using assms(2,3) by (auto simp: Machine_WriteMem_def Machine_Translate_pt [OF assms(1,2)] put_mem_def
        byte_order_defs)
  with pt_mode_set_entry [OF assms(1)] show ?thesis
    by (intro exI [of _ "t[?v := touch True (t ! ?v)]"]) auto
qed

lemma Machine_mem_fault:
  assumes "pt_mode p t m" "sz \<in> {1, 2, 4}"
  shows "xlate t a sz False = Inl ex \<Longrightarrow> Machine_ReadMem eh a sz m =
      bind_r (Machine_RaiseException eh ex a m) (\<lambda>m'. Inr (None, m'))"
    and "xlate t a sz True = Inl ex \<Longrightarrow> Machine_WriteMem eh a sz v m =
      bind_r (Machine_RaiseException eh ex a m) (\<lambda>m'. Inr (False, m'))"
  by (simp_all add: Machine_ReadMem_def Machine_WriteMem_def Machine_Translate_pt [OF assms])

lemma xlate_read: "xlate t a sz True = Inr q \<Longrightarrow> xlate t a sz False = Inr q"
  by (auto simp: xlate_def Let_def split: if_splits)

lemma xlate_bound:
  assumes "xlate t a sz w = Inr q" "sz \<in> {1, 2, 4}"
  shows "q div PageSize = unat (physicalPage (t ! (unat a div PageSize)))"
    and "q mod PageSize = unat a mod PageSize" and "q mod PageSize + sz \<le> PageSize"
    and "q + sz \<le> MemorySize"
proof -
  let ?f = "physicalPage (t ! (unat a div PageSize))"
  have q: "q = unat ?f * PageSize + unat a mod PageSize" "unat ?f < NumPhysPages" "\<not> misaligned a sz"
    using assms(1) by (auto simp: xlate_def Let_def split: if_splits)
  have "0 < PageSize" by (simp add: nachos_defs)
  with q(1) show "q div PageSize = unat ?f" "q mod PageSize = unat a mod PageSize" by simp_all
  with in_page [OF assms(2) q(3)] show "q mod PageSize + sz \<le> PageSize" by simp
  show "q + sz \<le> MemorySize" using frame_addr(2) [OF q(2) assms(2) q(3)] q(1) by simp
qed

section \<open>Copying strings\<close>

text \<open>
  The bytes at the virtual addresses \<open>va, ..., va + n - 1\<close> can be written, and no two of the
  pages share a frame.
\<close>

definition writable_range :: "TranslationEntry list \<Rightarrow> 32 word \<Rightarrow> nat \<Rightarrow> bool" where
  "writable_range t va n \<longleftrightarrow> unat va + n \<le> 2 ^ 32 \<and>
     (\<forall>i < n. \<not> isl (xlate t (va + of_nat i) 1 True)) \<and>
     (\<forall>i < length t. \<forall>j < length t. physicalPage (t ! i) = physicalPage (t ! j) \<longrightarrow> i = j)"

definition pa :: "TranslationEntry list \<Rightarrow> 32 word \<Rightarrow> nat" where
  "pa t a = unat (physicalPage (t ! (unat a div PageSize))) * PageSize + unat a mod PageSize"

lemma xlate_pa: "\<not> isl (xlate t a sz w) \<Longrightarrow> xlate t a sz w = Inr (pa t a)"
  by (auto simp: xlate_def Let_def pa_def split: if_splits)

lemma xlate_vpn: "xlate t a sz w = Inr q \<Longrightarrow> unat a div PageSize < length t"
  by (auto simp: xlate_def Let_def split: if_splits)

lemma unat_offset: "unat (va :: 32 word) + n \<le> 2 ^ 32 \<Longrightarrow> i < n \<Longrightarrow> unat (va + of_nat i) = unat va + i"
  by (subst unat_add_lem [THEN iffD1]) (auto simp: unat_of_nat take_bit_eq_mod)

lemma wr_xlate: "writable_range t va n \<Longrightarrow> i < n \<Longrightarrow> xlate t (va + of_nat i) 1 True = Inr (pa t (va + of_nat i))"
  using xlate_pa by (auto simp: writable_range_def)

lemma pa_inj:
  assumes "writable_range t va n" "i < n" "j < n" "pa t (va + of_nat i) = pa t (va + of_nat j)"
  shows "i = j"
proof -
  let ?a = "\<lambda>i. va + of_nat i :: 32 word"
  note x = wr_xlate [OF assms(1)]
  from xlate_bound(1,2) [OF x [OF assms(2)]] xlate_bound(1,2) [OF x [OF assms(3)]] assms(4)
  have "physicalPage (t ! (unat (?a i) div PageSize)) = physicalPage (t ! (unat (?a j) div PageSize))"
    and m: "unat (?a i) mod PageSize = unat (?a j) mod PageSize"
    by (simp_all add: word_unat_eq_iff)
  then have "unat (?a i) div PageSize = unat (?a j) div PageSize"
    using assms(1) xlate_vpn [OF x] assms(2,3) by (auto simp: writable_range_def)
  with m have "unat (?a i) = unat (?a j)" by (metis div_mult_mod_eq)
  then show ?thesis using assms(1-3) unat_offset [of va n] by (simp add: writable_range_def)
qed

lemma same_map_pa: "same_map t t' \<Longrightarrow> unat a div PageSize < length t \<Longrightarrow> pa t' a = pa t a"
  by (simp add: same_map_def pa_def)

fun put_bytes :: "TranslationEntry list \<Rightarrow> 32 word \<Rightarrow> nat \<Rightarrow> 8 word list \<Rightarrow> (nat \<Rightarrow> 8 word) \<Rightarrow> nat \<Rightarrow> 8 word" where
  "put_bytes t va i [] mem = mem"
| "put_bytes t va i (b # bs) mem = put_bytes t va (Suc i) bs (mem(pa t (va + of_nat i) := b))"

lemma put_bytes_other:
  "(\<forall>j < length bs. x \<noteq> pa t (va + of_nat (i + j))) \<Longrightarrow> put_bytes t va i bs mem x = mem x"
proof (induction bs arbitrary: i mem)
  case (Cons b bs)
  from Cons.prems have "x \<noteq> pa t (va + of_nat i)" by force
  moreover have "\<forall>j < length bs. x \<noteq> pa t (va + of_nat (Suc i + j))"
    using Cons.prems by (metis Suc_less_eq add_Suc_shift length_Cons)
  ultimately show ?case using Cons.IH [of "Suc i"] by simp
qed simp

lemma put_bytes_at:
  assumes "writable_range t va n" "i + length bs \<le> n" "j < length bs"
  shows "put_bytes t va i bs mem (pa t (va + of_nat (i + j))) = bs ! j"
  using assms
proof (induction bs arbitrary: i j mem)
  case (Cons b bs)
  show ?case
  proof (cases j)
    case 0
    have "\<forall>l < length bs. pa t (va + of_nat i) \<noteq> pa t (va + of_nat (Suc i + l))"
    proof (intro allI impI notI)
      fix l assume "l < length bs" "pa t (va + of_nat i) = pa t (va + of_nat (Suc i + l))"
      with pa_inj [OF Cons.prems(1), of i "Suc i + l"] Cons.prems(2) show False by simp
    qed
    then show ?thesis using 0 put_bytes_other [of bs _ t va "Suc i"] by simp
  next
    case (Suc l)
    then show ?thesis using Cons.IH [of "Suc i" l] Cons.prems by simp
  qed
qed simp

lemma same_map_put_bytes:
  assumes "writable_range t va n" "i + length bs \<le> n" "same_map t t'"
  shows "put_bytes t' va i bs mem = put_bytes t va i bs mem"
  using assms
proof (induction bs arbitrary: i mem)
  case (Cons b bs)
  then have "i < n" by simp
  from xlate_vpn [OF wr_xlate [OF Cons.prems(1) this]] have "pa t' (va + of_nat i) = pa t (va + of_nat i)"
    by (rule same_map_pa [OF Cons.prems(3)])
  then show ?case using Cons by simp
qed simp

lemma writable_range_same: "same_map t t' \<Longrightarrow> writable_range t' va n = writable_range t va n"
  using same_map_xlate [of t t'] by (simp add: writable_range_def same_map_def)

text \<open>One byte of kernel memory written to user space, one byte read back.\<close>

lemma ucast_scast_byte [simp]: "ucast (scast (c :: 8 word) :: 32 word) = c"
  by (rule bit_word_eqI) (simp add: bit_ucast_iff bit_signed_iff possible_bit_def)

lemma scast_byte_0 [simp]: "(scast (c :: 8 word) :: 32 word) = 0 \<longleftrightarrow> c = 0"
  using ucast_scast_byte [of c] by (metis scast_0 ucast_0)

lemma write_byte:
  assumes "pt_mode p t m" "writable_range t va n" "i < n"
  obtains t' m' where "Machine_WriteMem eh (va + of_nat i) 1 (scast c) m = Inr (True, m')"
    "pt_mode p t' m'" "same_map t t'"
    "mainMemory m' = (mainMemory m)(pa t (va + of_nat i) := c)" "registers m' = registers m"
proof -
  from Machine_WriteMem_ok [OF assms(1) _ wr_xlate [OF assms(2,3)], of eh "scast c"] that show ?thesis
    by (simp add: put_mem_def) blast
qed

lemma read_byte:
  assumes "pt_mode p t m" "writable_range t va n" "i < n"
  obtains t' m' where
    "Machine_ReadMem eh (va + of_nat i) 1 m = Inr (Some (scast (mainMemory m (pa t (va + of_nat i)))), m')"
    "pt_mode p t' m'" "same_map t t'" "mainMemory m' = mainMemory m" "registers m' = registers m"
proof -
  have "xlate t (va + of_nat i) 1 False = Inr (pa t (va + of_nat i))"
    by (rule xlate_read [OF wr_xlate [OF assms(2,3)]])
  from Machine_ReadMem_ok [OF assms(1) _ this, of eh] that show ?thesis
    by (simp add: get_mem_def) blast
qed

text \<open>Writing a string that ends with its first zero byte.\<close>

lemma s2u_loop_string:
  assumes "pt_mode p t m" "writable_range t va n" "i + length bs < n" "0 \<notin> set bs"
    "drop i buf = bs @ 0 # rest" "length bs < k"
  shows "\<exists>t' m'. s2u_loop eh va i k buf m = Inr (int (i + length bs + 1), m') \<and> pt_mode p t' m' \<and>
    same_map t t' \<and> registers m' = registers m \<and>
    mainMemory m' = put_bytes t va i (bs @ [0]) (mainMemory m)"
  using assms
proof (induction bs arbitrary: i k m t)
  case Nil
  then obtain k' where k: "k = Suc k'" by (cases k) auto
  have b: "arr_get buf (int i) = Inr 0"
    using Nil.prems(5) by (simp add: arr_get_def nth_via_drop) (metis drop_all list.distinct(1) not_le)
  have "i < n" using Nil.prems(3) by simp
  from write_byte [OF Nil.prems(1,2) this, of eh 0] obtain t1 m1 where
    "Machine_WriteMem eh (va + of_nat i) 1 0 m = Inr (True, m1)" "pt_mode p t1 m1" "same_map t t1"
    "mainMemory m1 = (mainMemory m)(pa t (va + of_nat i) := 0)" "registers m1 = registers m"
    by (metis scast_byte_0)
  then show ?case by (intro exI [of _ t1] exI [of _ m1]) (simp add: k b)
next
  case (Cons c cs)
  obtain k' where k: "k = Suc k'" using Cons.prems(6) by (cases k) auto
  have b: "arr_get buf (int i) = Inr c"
    using Cons.prems(5) by (simp add: arr_get_def nth_via_drop) (metis drop_all list.distinct(1) not_le)
  have "i < n" using Cons.prems(3) by simp
  from write_byte [OF Cons.prems(1,2) this, of eh c] obtain t1 m1 where
    m1: "Machine_WriteMem eh (va + of_nat i) 1 (scast c) m = Inr (True, m1)" "pt_mode p t1 m1"
    "same_map t t1" "mainMemory m1 = (mainMemory m)(pa t (va + of_nat i) := c)"
    "registers m1 = registers m" by blast
  have dr: "drop (Suc i) buf = cs @ 0 # rest"
    using Cons.prems(5) by (metis append_Cons drop_Suc list.sel(3) tl_drop)
  have wr: "writable_range t1 va n" using Cons.prems(2) writable_range_same [OF m1(3)] by simp
  from Cons.IH [OF m1(2) wr _ _ dr, of k'] Cons.prems k obtain t2 m2 where
    m2: "s2u_loop eh va (Suc i) k' buf m1 = Inr (int (Suc i + length cs + 1), m2)" "pt_mode p t2 m2"
      "same_map t1 t2" "registers m2 = registers m1"
      "mainMemory m2 = put_bytes t1 va (Suc i) (cs @ [0]) (mainMemory m1)" by auto
  have "s2u_loop eh va i k buf m = Inr (int (i + length (c # cs) + 1), m2)"
    using m1(1) m2(1) Cons.prems(4) by (simp add: k b)
  moreover have "mainMemory m2 = put_bytes t va i ((c # cs) @ [0]) (mainMemory m)"
    using m2(5) m1(4) same_map_put_bytes [OF Cons.prems(2) _ m1(3), of "Suc i" "cs @ [0]"] Cons.prems(3)
    by simp
  moreover have "same_map t t2" by (rule same_map_trans [OF m1(3) m2(3)])
  ultimately show ?case using m2(2,4) m1(5) by (intro exI [of _ t2] exI [of _ m2]) simp
qed

text \<open>Reading it back.\<close>

lemma u2s_loop_string:
  assumes "pt_mode p t m" "writable_range t va n" "i + length bs < n" "0 \<notin> set bs" "length bs < k"
    "\<forall>j \<le> length bs. mainMemory m (pa t (va + of_nat (i + j))) = (bs @ [0]) ! j"
    "length buf = i + k + l"
  shows "\<exists>t' m'. u2s_loop eh va i k oneChar buf m =
      Inr (take i buf @ bs @ 0 # drop (i + length bs + 1) buf, m') \<and> pt_mode p t' m' \<and>
    same_map t t' \<and> registers m' = registers m \<and> mainMemory m' = mainMemory m"
  using assms
proof (induction bs arbitrary: i k m t buf oneChar)
  case Nil
  then obtain k' where k: "k = Suc k'" by (cases k) auto
  have "i < n" using Nil.prems(3) by simp
  from read_byte [OF Nil.prems(1,2) this, of eh] Nil.prems(6) obtain t1 m1 where
    "Machine_ReadMem eh (va + of_nat i) 1 m = Inr (Some 0, m1)" "pt_mode p t1 m1" "same_map t t1"
    "mainMemory m1 = mainMemory m" "registers m1 = registers m" by (auto; metis scast_byte_0)
  then show ?case using Nil.prems(7)
    by (intro exI [of _ t1] exI [of _ m1]) (simp add: k upd_conv_take_nth_drop)
next
  case (Cons c cs)
  obtain k' where k: "k = Suc k'" using Cons.prems(5) by (cases k) auto
  have i: "i < n" using Cons.prems(3) by simp
  have c: "mainMemory m (pa t (va + of_nat i)) = c" using Cons.prems(6) by force
  from read_byte [OF Cons.prems(1,2) i, of eh] obtain t1 m1 where
    m1: "Machine_ReadMem eh (va + of_nat i) 1 m = Inr (Some (scast c), m1)" "pt_mode p t1 m1"
    "same_map t t1" "mainMemory m1 = mainMemory m" "registers m1 = registers m" unfolding c by blast
  have wr: "writable_range t1 va n" using Cons.prems(2) writable_range_same [OF m1(3)] by simp
  have mem: "\<forall>j \<le> length cs. mainMemory m1 (pa t1 (va + of_nat (Suc i + j))) = (cs @ [0]) ! j"
  proof (intro allI impI)
    fix j assume j: "j \<le> length cs"
    then have "Suc i + j < n" using Cons.prems(3) by simp
    from xlate_vpn [OF wr_xlate [OF Cons.prems(2) this]]
    have "pa t1 (va + of_nat (Suc i + j)) = pa t (va + of_nat (Suc i + j))" by (rule same_map_pa [OF m1(3)])
    moreover have "mainMemory m (pa t (va + of_nat (i + Suc j))) = ((c # cs) @ [0]) ! Suc j"
      using Cons.prems(6) j by (metis Suc_le_mono length_Cons)
    ultimately show "mainMemory m1 (pa t1 (va + of_nat (Suc i + j))) = (cs @ [0]) ! j"
      using m1(4) by simp
  qed
  from Cons.IH [OF m1(2) wr _ _ _ mem, of k' "buf[i := c]" "scast c"] Cons.prems k obtain t2 m2 where
    m2: "u2s_loop eh va (Suc i) k' (scast c) (buf[i := c]) m1 =
        Inr (take (Suc i) (buf[i := c]) @ cs @ 0 # drop (Suc i + length cs + 1) (buf[i := c]), m2)"
      "pt_mode p t2 m2" "same_map t1 t2" "registers m2 = registers m1" "mainMemory m2 = mainMemory m1"
    by auto
  have "u2s_loop eh va i k oneChar buf m = Inr (take i buf @ (c # cs) @ 0 # drop (i + length (c # cs) + 1) buf, m2)"
    using m1(1) m2(1) Cons.prems(4,7) by (simp add: k take_Suc_conv_app_nth)
  moreover have "same_map t t2" by (rule same_map_trans [OF m1(3) m2(3)])
  ultimately show ?case using m2(2,4,5) m1(4,5) by (intro exI [of _ t2] exI [of _ m2]) simp
qed

section \<open>A sample machine\<close>

text \<open>A machine with a page table of two pages, the first in frame 3 and the second read-only.\<close>

definition demo_pt :: "TranslationEntry list" where
  "demo_pt = [\<lparr>virtualPage = 0, physicalPage = 3, valid = True, readOnly = False, use = False, dirty = False\<rparr>,
     \<lparr>virtualPage = 1, physicalPage = 5, valid = True, readOnly = True, use = False, dirty = False\<rparr>]"

definition demo_hw :: hw where
  "demo_hw = \<lparr>stats = Statistics_new, level = IntOn, pending = [], inHandler = False,
     yieldOnReturn = False, status = UserMode, registers = (\<lambda>_. 0), mainMemory = (\<lambda>_. 0), tlb = None,
     pageTable = Some 0, pageTableSize = 2, pageTables = [0 \<mapsto> demo_pt], singleStep = False,
     runUntilTime = 0, randomize = False, rand_seq = (\<lambda>_. 0), rand_pos = 0\<rparr>"

lemma demo_pt_mode: "pt_mode 0 demo_pt demo_hw"
  by (simp add: pt_mode_def demo_hw_def demo_pt_def)

lemma demo_xlate:
  "xlate demo_pt 4 4 True = Inr 1540" "xlate demo_pt 0x204 4 True = Inl ReadOnlyException"
  by (simp_all add: xlate_def misaligned_def demo_pt_def nachos_defs Let_def)

lemma demo_writable: "writable_range demo_pt 8 3"
proof -
  have "\<forall>i < 3. \<not> isl (xlate demo_pt (8 + of_nat i) 1 True)"
  proof (intro allI impI)
    fix i :: nat assume "i < 3"
    then have "i = 0 \<or> i = 1 \<or> i = 2" by auto
    then show "\<not> isl (xlate demo_pt (8 + of_nat i) 1 True)"
      by (auto simp: xlate_def misaligned_def demo_pt_def nachos_defs Let_def)
  qed
  then show ?thesis by (auto simp: writable_range_def demo_pt_def less_Suc_eq)
qed

section \<open>Properties\<close>

text \<open>
  C3: address translation.  With a page table installed, \<^verbatim>\<open>Machine::Translate\<close> implements the
  page-table lookup \<^const>\<open>xlate\<close> for every address and every access size the hardware supports:
  a misaligned address or one beyond the table is an address error, then come an invalid page, a
  write to a read-only page and a frame outside physical memory, and otherwise the physical
  address is frame times page size plus offset.  An exception leaves the machine unchanged, a
  success only sets the entry's use bit and, on a write, its dirty bit; no assertion fails.
\<close>

theorem Translate_refines_xlate:
  assumes "pt_mode p t m" "sz \<in> {1, 2, 4}"
  shows "Machine_Translate a sz writing m =
    Inr (xlate t a sz writing,
      if isl (xlate t a sz writing) then m
      else m\<lparr>pageTables := (pageTables m)(p \<mapsto>
        t[unat a div PageSize := touch writing (t ! (unat a div PageSize))])\<rparr>)"
  using assms Machine_Translate_pt [OF assms] by (simp add: set_entry_def pt_mode_def)

theorem Translate_refines_xlate_witness:
  "pt_mode 0 demo_pt demo_hw \<and> (4::nat) \<in> {1, 2, 4} \<and>
   Machine_Translate 4 4 True demo_hw =
     Inr (Inr 1540, demo_hw\<lparr>pageTables := (pageTables demo_hw)(0 \<mapsto> demo_pt[0 := touch True (demo_pt ! 0)])\<rparr>) \<and>
   Machine_Translate 0x204 4 True demo_hw = Inr (Inl ReadOnlyException, demo_hw)"
  using Translate_refines_xlate [OF demo_pt_mode, where sz = 4 and a = 4 and writing = True]
    Translate_refines_xlate [OF demo_pt_mode, where sz = 4 and a = "0x204" and writing = True]
  by (simp add: demo_pt_mode demo_xlate nachos_defs)

text \<open>
  C23: what is written is read back.  A successful \<^verbatim>\<open>Machine::WriteMem\<close> of 1, 2 or 4 bytes changes
  only the bytes of physical memory it addresses, which lie inside one page frame, changes no
  register, and a following \<^verbatim>\<open>Machine::ReadMem\<close> of the same address and size succeeds and returns
  the value: sign-extended from a byte, zero-extended from a half word, the whole word.
\<close>

theorem WriteMem_ReadMem:
  assumes "pt_mode p t m" "sz \<in> {1, 2, 4}" "xlate t a sz True = Inr q"
  shows "\<exists>m1 m2. Machine_WriteMem eh a sz v m = Inr (True, m1) \<and>
    Machine_ReadMem eh a sz m1 = Inr (Some (extend sz v), m2) \<and>
    registers m1 = registers m \<and> q mod PageSize + sz \<le> PageSize \<and> q + sz \<le> MemorySize \<and>
    (\<forall>x. x \<notin> {q..<q + sz} \<longrightarrow> mainMemory m1 x = mainMemory m x)"
proof -
  from Machine_WriteMem_ok [OF assms, of eh v] obtain t' m1 where
    m1: "Machine_WriteMem eh a sz v m = Inr (True, m1)" "pt_mode p t' m1" "same_map t t'"
    "mainMemory m1 = put_mem sz q v (mainMemory m)" "registers m1 = registers m" by blast
  have "xlate t' a sz False = Inr q" using xlate_read [OF assms(3)] same_map_xlate [OF m1(3)] by simp
  from Machine_ReadMem_ok [OF m1(2) assms(2) this, of eh] obtain m2 where
    "Machine_ReadMem eh a sz m1 = Inr (Some (get_mem sz q (mainMemory m1)), m2)" by blast
  with m1 xlate_bound [OF assms(3,2)] put_mem_other [OF assms(2)] show ?thesis
    by (auto simp: get_put_mem not_less)
qed

theorem WriteMem_ReadMem_witness:
  "pt_mode 0 demo_pt demo_hw \<and> xlate demo_pt 4 4 True = Inr 1540 \<and>
   (\<exists>m1 m2. Machine_WriteMem (\<lambda>_. Inr) 4 4 0xdeadbeef demo_hw = Inr (True, m1) \<and>
     Machine_ReadMem (\<lambda>_. Inr) 4 4 m1 = Inr (Some 0xdeadbeef, m2))"
  using WriteMem_ReadMem [OF demo_pt_mode _ demo_xlate(1), of "\<lambda>_. Inr" "0xdeadbeef"]
  by (auto simp: demo_pt_mode demo_xlate extend_def)

text \<open>
  C24: strings survive the trip through user space.  A zero-terminated string copied out by
  \<^verbatim>\<open>Machine::System2User\<close> into pages that are mapped, writable and do not share frames is
  returned unchanged, padded with zeros, by \<^verbatim>\<open>Machine::User2System\<close> with any limit above its
  length; no byte of physical memory outside the pages' image of the range changes.
\<close>

theorem System2User_User2System:
  assumes "pt_mode p t m" "writable_range t va (length bs + 1)" "0 \<notin> set bs"
    "length bs < limit" "length bs < len"
  shows "\<exists>m1 m2. Machine_System2User eh va (int len) (bs @ 0 # rest) m = Inr (int (length bs + 1), m1) \<and>
    Machine_User2System eh raw va (int limit) m1 = Inr (bs @ replicate (limit + 1 - length bs) 0, m2) \<and>
    (\<forall>x. (\<forall>j \<le> length bs. x \<noteq> pa t (va + of_nat j)) \<longrightarrow> mainMemory m2 x = mainMemory m x)"
proof -
  let ?n = "length bs + 1"
  from s2u_loop_string [OF assms(1,2), of 0 bs "bs @ 0 # rest" rest len eh] assms(3,5) obtain t1 m1 where
    m1: "s2u_loop eh va 0 len (bs @ 0 # rest) m = Inr (int ?n, m1)" "pt_mode p t1 m1" "same_map t t1"
      "mainMemory m1 = put_bytes t va 0 (bs @ [0]) (mainMemory m)" by auto
  have wr: "writable_range t1 va ?n" using assms(2) writable_range_same [OF m1(3)] by simp
  have "\<forall>j \<le> length bs. mainMemory m1 (pa t1 (va + of_nat (0 + j))) = (bs @ [0]) ! j"
    unfolding m1(4) same_map_put_bytes [OF assms(2) _ m1(3), of 0 "bs @ [0]", simplified, symmetric]
    using put_bytes_at [OF wr, of 0 "bs @ [0]"] by simp
  from u2s_loop_string [OF m1(2) wr _ assms(3,4) this, of "replicate (limit + 1) 0" 1 eh raw] obtain m2 where
    m2: "u2s_loop eh va 0 limit raw (replicate (limit + 1) 0) m1 =
        Inr (bs @ 0 # drop ?n (replicate (limit + 1) 0), m2)" "mainMemory m2 = mainMemory m1" by auto
  have "0 # drop ?n (replicate (limit + 1) 0) = replicate (limit + 1 - length bs) (0 :: 8 word)"
    using assms(4) by (simp add: replicate_Suc [symmetric] Suc_diff_le del: replicate_Suc)
  with m2 have "Machine_User2System eh raw va (int limit) m1 =
      Inr (bs @ replicate (limit + 1 - length bs) 0, m2)"
    by (simp add: Machine_User2System_def nat_add_distrib)
  moreover have "Machine_System2User eh va (int len) (bs @ 0 # rest) m = Inr (int ?n, m1)"
    using m1(1) assms(5) by (simp add: Machine_System2User_def)
  ultimately show ?thesis using m1(4) m2(2) put_bytes_other [of "bs @ [0]" _ t va 0] by auto
qed

theorem System2User_User2System_witness:
  "pt_mode 0 demo_pt demo_hw \<and> writable_range demo_pt 8 3 \<and>
   (\<exists>m1 m2. Machine_System2User (\<lambda>_. Inr) 8 3 [104, 105, 0] demo_hw = Inr (3, m1) \<and>
     Machine_User2System (\<lambda>_. Inr) 7 8 4 m1 = Inr ([104, 105, 0, 0, 0], m2))"
proof -
  have "writable_range demo_pt 8 (length [104, 105 :: 8 word] + 1)"
    using demo_writable by (simp add: numeral_3_eq_3)
  moreover have "replicate (4 + 1 - length [104, 105 :: 8 word]) 0 = [0, 0, 0 :: 8 word]"
    by (simp add: numeral_3_eq_3)
  ultimately show ?thesis
    using System2User_User2System [OF demo_pt_mode, of 8 "[104, 105]" 4 3 "\<lambda>_. Inr" "[]" 7]
    by (auto simp: demo_pt_mode demo_writable)
qed

end
