(* ===== verification/Mips_Decode.thy ===== *)
theory Mips_Decode
  imports Machine
begin

text \<open>
  The instruction decoder of the CPU simulator: the operation codes, the decoding tables and
  \<^verbatim>\<open>Instruction::Decode\<close> of \<^verbatim>\<open>machine/mipssim.h\<close> and \<^verbatim>\<open>machine/mipssim.cc\<close>.  Decoding is total:
  every 32-bit word decodes to register numbers below 32 and to an operation that the main switch
  of the simulator has a case for.
\<close>

unbundle bit_operations_syntax

section \<open>Operation codes\<close>

definition OP_ADD :: nat where "OP_ADD = 1"
definition OP_ADDI :: nat where "OP_ADDI = 2"
definition OP_ADDIU :: nat where "OP_ADDIU = 3"
definition OP_ADDU :: nat where "OP_ADDU = 4"
definition OP_AND :: nat where "OP_AND = 5"
definition OP_ANDI :: nat where "OP_ANDI = 6"
definition OP_BEQ :: nat where "OP_BEQ = 7"
definition OP_BGEZ :: nat where "OP_BGEZ = 8"
definition OP_BGEZAL :: nat where "OP_BGEZAL = 9"
definition OP_BGTZ :: nat where "OP_BGTZ = 10"
definition OP_BLEZ :: nat where "OP_BLEZ = 11"
definition OP_BLTZ :: nat where "OP_BLTZ = 12"
definition OP_BLTZAL :: nat where "OP_BLTZAL = 13"
definition OP_BNE :: nat where "OP_BNE = 14"
definition OP_DIV :: nat where "OP_DIV = 16"
definition OP_DIVU :: nat where "OP_DIVU = 17"
definition OP_J :: nat where "OP_J = 18"
definition OP_JAL :: nat where "OP_JAL = 19"
definition OP_JALR :: nat where "OP_JALR = 20"
definition OP_JR :: nat where "OP_JR = 21"
definition OP_LB :: nat where "OP_LB = 22"
definition OP_LBU :: nat where "OP_LBU = 23"
definition OP_LH :: nat where "OP_LH = 24"
definition OP_LHU :: nat where "OP_LHU = 25"
definition OP_LUI :: nat where "OP_LUI = 26"
definition OP_LW :: nat where "OP_LW = 27"
definition OP_LWL :: nat where "OP_LWL = 28"
definition OP_LWR :: nat where "OP_LWR = 29"
definition OP_MFHI :: nat where "OP_MFHI = 31"
definition OP_MFLO :: nat where "OP_MFLO = 32"
definition OP_MTHI :: nat where "OP_MTHI = 34"
definition OP_MTLO :: nat where "OP_MTLO = 35"
definition OP_MULT :: nat where "OP_MULT = 36"
definition OP_MULTU :: nat where "OP_MULTU = 37"
definition OP_NOR :: nat where "OP_NOR = 38"
definition OP_OR :: nat where "OP_OR = 39"
definition OP_ORI :: nat where "OP_ORI = 40"
definition OP_RFE :: nat where "OP_RFE = 41"
definition OP_SB :: nat where "OP_SB = 42"
definition OP_SH :: nat where "OP_SH = 43"
definition OP_SLL :: nat where "OP_SLL = 44"
definition OP_SLLV :: nat where "OP_SLLV = 45"
definition OP_SLT :: nat where "OP_SLT = 46"
definition OP_SLTI :: nat where "OP_SLTI = 47"
definition OP_SLTIU :: nat where "OP_SLTIU = 48"
definition OP_SLTU :: nat where "OP_SLTU = 49"
definition OP_SRA :: nat where "OP_SRA = 50"
definition OP_SRAV :: nat where "OP_SRAV = 51"
definition OP_SRL :: nat where "OP_SRL = 52"
definition OP_SRLV :: nat where "OP_SRLV = 53"
definition OP_SUB :: nat where "OP_SUB = 54"
definition OP_SUBU :: nat where "OP_SUBU = 55"
definition OP_SW :: nat where "OP_SW = 56"
definition OP_SWL :: nat where "OP_SWL = 57"
definition OP_SWR :: nat where "OP_SWR = 58"
definition OP_XOR :: nat where "OP_XOR = 59"
definition OP_XORI :: nat where "OP_XORI = 60"
definition OP_SYSCALL :: nat where "OP_SYSCALL = 61"
definition OP_UNIMP :: nat where "OP_UNIMP = 62"
definition OP_RES :: nat where "OP_RES = 63"
definition SPECIAL :: nat where "SPECIAL = 100"
definition BCOND :: nat where "BCOND = 101"

lemmas op_defs = OP_ADD_def OP_ADDI_def OP_ADDIU_def OP_ADDU_def OP_AND_def OP_ANDI_def OP_BEQ_def
  OP_BGEZ_def OP_BGEZAL_def OP_BGTZ_def OP_BLEZ_def OP_BLTZ_def OP_BLTZAL_def OP_BNE_def
  OP_DIV_def OP_DIVU_def OP_J_def OP_JAL_def OP_JALR_def OP_JR_def OP_LB_def OP_LBU_def OP_LH_def
  OP_LHU_def OP_LUI_def OP_LW_def OP_LWL_def OP_LWR_def OP_MFHI_def OP_MFLO_def OP_MTHI_def
  OP_MTLO_def OP_MULT_def OP_MULTU_def OP_NOR_def OP_OR_def OP_ORI_def OP_RFE_def OP_SB_def
  OP_SH_def OP_SLL_def OP_SLLV_def OP_SLT_def OP_SLTI_def OP_SLTIU_def OP_SLTU_def OP_SRA_def
  OP_SRAV_def OP_SRL_def OP_SRLV_def OP_SUB_def OP_SUBU_def OP_SW_def OP_SWL_def OP_SWR_def
  OP_XOR_def OP_XORI_def OP_SYSCALL_def OP_UNIMP_def OP_RES_def SPECIAL_def BCOND_def

datatype format = IFMT | JFMT | RFMT

definition SIGN_BIT :: "32 word" where "SIGN_BIT = 0x80000000"

definition IndexToAddr :: "32 word \<Rightarrow> 32 word" where "IndexToAddr x = push_bit 2 x"

section \<open>Decoding tables\<close>

definition opTable :: "(nat \<times> format) list" where
  "opTable = [
     (SPECIAL, RFMT), (BCOND, IFMT), (OP_J, JFMT), (OP_JAL, JFMT),
     (OP_BEQ, IFMT), (OP_BNE, IFMT), (OP_BLEZ, IFMT), (OP_BGTZ, IFMT),
     (OP_ADDI, IFMT), (OP_ADDIU, IFMT), (OP_SLTI, IFMT), (OP_SLTIU, IFMT),
     (OP_ANDI, IFMT), (OP_ORI, IFMT), (OP_XORI, IFMT), (OP_LUI, IFMT),
     (OP_UNIMP, IFMT), (OP_UNIMP, IFMT), (OP_UNIMP, IFMT), (OP_UNIMP, IFMT),
     (OP_RES, IFMT), (OP_RES, IFMT), (OP_RES, IFMT), (OP_RES, IFMT),
     (OP_RES, IFMT), (OP_RES, IFMT), (OP_RES, IFMT), (OP_RES, IFMT),
     (OP_RES, IFMT), (OP_RES, IFMT), (OP_RES, IFMT), (OP_RES, IFMT),
     (OP_LB, IFMT), (OP_LH, IFMT), (OP_LWL, IFMT), (OP_LW, IFMT),
     (OP_LBU, IFMT), (OP_LHU, IFMT), (OP_LWR, IFMT), (OP_RES, IFMT),
     (OP_SB, IFMT), (OP_SH, IFMT), (OP_SWL, IFMT), (OP_SW, IFMT),
     (OP_RES, IFMT), (OP_RES, IFMT), (OP_SWR, IFMT), (OP_RES, IFMT),
     (OP_UNIMP, IFMT), (OP_UNIMP, IFMT), (OP_UNIMP, IFMT), (OP_UNIMP, IFMT),
     (OP_RES, IFMT), (OP_RES, IFMT), (OP_RES, IFMT), (OP_RES, IFMT),
     (OP_UNIMP, IFMT), (OP_UNIMP, IFMT), (OP_UNIMP, IFMT), (OP_UNIMP, IFMT),
     (OP_RES, IFMT), (OP_RES, IFMT), (OP_RES, IFMT), (OP_RES, IFMT)]"

definition specialTable :: "nat list" where
  "specialTable = [
     OP_SLL, OP_RES, OP_SRL, OP_SRA, OP_SLLV, OP_RES, OP_SRLV, OP_SRAV,
     OP_JR, OP_JALR, OP_RES, OP_RES, OP_SYSCALL, OP_UNIMP, OP_RES, OP_RES,
     OP_MFHI, OP_MTHI, OP_MFLO, OP_MTLO, OP_RES, OP_RES, OP_RES, OP_RES,
     OP_MULT, OP_MULTU, OP_DIV, OP_DIVU, OP_RES, OP_RES, OP_RES, OP_RES,
     OP_ADD, OP_ADDU, OP_SUB, OP_SUBU, OP_AND, OP_OR, OP_XOR, OP_NOR,
     OP_RES, OP_RES, OP_SLT, OP_SLTU, OP_RES, OP_RES, OP_RES, OP_RES,
     OP_RES, OP_RES, OP_RES, OP_RES, OP_RES, OP_RES, OP_RES, OP_RES,
     OP_RES, OP_RES, OP_RES, OP_RES, OP_RES, OP_RES, OP_RES, OP_RES]"

section \<open>Decoding\<close>

record Instruction =
  ivalue :: "32 word"
  opCode :: nat
  rs :: nat
  rt :: nat
  rd :: nat
  extra :: "32 word"

definition field :: "32 word \<Rightarrow> nat \<Rightarrow> 32 word \<Rightarrow> nat" where
  "field v n msk = unat (drop_bit n v AND msk)"

text \<open>The refinement of the pseudo operations \<^verbatim>\<open>SPECIAL\<close> and \<^verbatim>\<open>BCOND\<close>.\<close>

definition refine_op :: "nat \<Rightarrow> 32 word \<Rightarrow> nat" where
  "refine_op opc v =
     (if opc = SPECIAL then specialTable ! field v 0 0x3f
      else if opc = BCOND then
        (let i = v AND 0x1f0000 in
         if i = 0 then OP_BLTZ
         else if i = 0x10000 then OP_BGEZ
         else if i = 0x100000 then OP_BLTZAL
         else if i = 0x110000 then OP_BGEZAL
         else OP_UNIMP)
      else opc)"

definition Instruction_Decode :: "32 word \<Rightarrow> Instruction" where
  "Instruction_Decode v =
     (let opPtr = opTable ! field v 26 0x3f;
          ex = (case snd opPtr of
                  IFMT \<Rightarrow> (let e = v AND 0xffff in if e AND 0x8000 \<noteq> 0 then e OR 0xffff0000 else e)
                | RFMT \<Rightarrow> drop_bit 6 v AND 0x1f
                | JFMT \<Rightarrow> v AND 0x3ffffff)
      in \<lparr>ivalue = v, opCode = refine_op (fst opPtr) v, rs = field v 21 0x1f, rt = field v 16 0x1f,
          rd = field v 11 0x1f, extra = ex\<rparr>)"

section \<open>Decoding is total\<close>

lemma field_bound:
  assumes "msk = mask k"
  shows "field v n msk < 2 ^ k"
proof -
  have "field v n msk = take_bit k (unat (drop_bit n v))"
    by (simp add: field_def assms take_bit_eq_mask [symmetric] unsigned_take_bit_eq)
  then show ?thesis by simp
qed

lemma field_bounds [simp]: "field v n 0x1f < 32" "field v n 0x3f < 64"
  using field_bound [of "0x1f" 5 v n] field_bound [of "0x3f" 6 v n]
  by (simp_all add: mask_eq_exp_minus_1)

text \<open>The operations the switch of \<^verbatim>\<open>Machine::OneInstruction\<close> has a case for.\<close>

definition switch_cases :: "nat set" where
  "switch_cases = {
     OP_ADD, OP_ADDI, OP_ADDIU, OP_ADDU, OP_AND, OP_ANDI, OP_BEQ, OP_BGEZAL,
     OP_BGEZ, OP_BGTZ, OP_BLEZ, OP_BLTZAL, OP_BLTZ, OP_BNE, OP_DIV, OP_DIVU,
     OP_JAL, OP_J, OP_JALR, OP_JR, OP_LB, OP_LBU, OP_LH, OP_LHU,
     OP_LUI, OP_LW, OP_LWL, OP_LWR, OP_MFHI, OP_MFLO, OP_MTHI, OP_MTLO,
     OP_MULT, OP_MULTU, OP_NOR, OP_OR, OP_ORI, OP_SB, OP_SH, OP_SLL,
     OP_SLLV, OP_SLT, OP_SLTI, OP_SLTIU, OP_SLTU, OP_SRA, OP_SRAV, OP_SRL,
     OP_SRLV, OP_SUB, OP_SUBU, OP_SW, OP_SWL, OP_SWR, OP_SYSCALL, OP_XOR,
     OP_XORI, OP_RES, OP_UNIMP}"

lemma opTable_cases: "n < 64 \<Longrightarrow> fst (opTable ! n) \<in> insert SPECIAL (insert BCOND switch_cases)"
proof -
  have "\<forall>e \<in> set opTable. fst e \<in> insert SPECIAL (insert BCOND switch_cases)"
    by (simp add: opTable_def op_defs switch_cases_def)
  moreover have "length opTable = 64" by (simp add: opTable_def)
  ultimately show "n < 64 \<Longrightarrow> fst (opTable ! n) \<in> insert SPECIAL (insert BCOND switch_cases)"
    by (metis nth_mem)
qed

lemma specialTable_cases: "n < 64 \<Longrightarrow> specialTable ! n \<in> switch_cases"
proof -
  have "\<forall>e \<in> set specialTable. e \<in> switch_cases"
    by (simp add: specialTable_def op_defs switch_cases_def)
  moreover have "length specialTable = 64" by (simp add: specialTable_def)
  ultimately show "n < 64 \<Longrightarrow> specialTable ! n \<in> switch_cases" by (metis nth_mem)
qed

lemma Decode_regs [simp]:
  "rs (Instruction_Decode v) < 32" "rt (Instruction_Decode v) < 32" "rd (Instruction_Decode v) < 32"
  by (simp_all add: Instruction_Decode_def Let_def)

lemma Decode_opCode: "opCode (Instruction_Decode v) \<in> switch_cases"
proof -
  let ?o = "fst (opTable ! field v 26 0x3f)"
  have "?o \<in> insert SPECIAL (insert BCOND switch_cases)" by (rule opTable_cases) simp
  moreover have bcond: "OP_BLTZ \<in> switch_cases" "OP_BGEZ \<in> switch_cases" "OP_BLTZAL \<in> switch_cases"
    "OP_BGEZAL \<in> switch_cases" "OP_UNIMP \<in> switch_cases" by (simp_all add: switch_cases_def)
  ultimately have "refine_op ?o v \<in> switch_cases"
    using specialTable_cases [OF field_bounds(2), of v 0]
    bcond by (auto simp: refine_op_def Let_def)
  then show ?thesis by (simp add: Instruction_Decode_def Let_def)
qed

end
