(* ===== verification/Mips_Sim.thy ===== *)
theory Mips_Sim
  imports Mips_Decode
begin

text \<open>
  The instruction interpreter of \<^verbatim>\<open>machine/mipssim.cc\<close>: \<^verbatim>\<open>Mult\<close>, the switch of
  \<^verbatim>\<open>Machine::OneInstruction\<close> and the fetch/execute cycle around it.  The switch is cut at its case
  labels into consecutive parts; a part answers \<open>None\<close> for the operations it has no label for.
  Registers are 32-bit words: C's signed comparisons are \<open><s\<close> and \<open>\<le>s\<close>, its right shift of an
  \<^verbatim>\<open>int\<close> is arithmetic, and signed sums wrap around.
\<close>

unbundle bit_operations_syntax

section \<open>Multiplication\<close>

text \<open>One iteration per bit of \<open>a\<close>; the \<^verbatim>\<open>break\<close> leaves as soon as no further bit is set.\<close>

fun mult_loop :: "nat \<Rightarrow> 32 word \<Rightarrow> 32 word \<Rightarrow> 32 word \<Rightarrow> 32 word \<Rightarrow> 32 word \<Rightarrow> 32 word \<times> 32 word" where
  "mult_loop 0 a bHi bLo hi lo = (hi, lo)"
| "mult_loop (Suc k) a bHi bLo hi lo =
     (let next = (\<lambda>hi lo.
        mult_loop k (signed_drop_bit 1 a)
          (push_bit 1 bHi OR (if bLo AND 0x80000000 \<noteq> 0 then 1 else 0)) (push_bit 1 bLo) hi lo)
      in if a AND 1 \<noteq> 0
         then (let lo1 = lo + bLo; hi1 = (if lo1 < bLo then hi + 1 else hi) + bHi in
               if a AND 0xfffffffe = 0 then (hi1, lo1) else next hi1 lo1)
         else next hi lo)"

definition Mult :: "32 word \<Rightarrow> 32 word \<Rightarrow> bool \<Rightarrow> 32 word \<times> 32 word" where
  "Mult a b signedArith =
     (if a = 0 \<or> b = 0 then (0, 0)
      else
        let neg1 = (signedArith \<and> a <s 0); a1 = (if neg1 then - a else a);
            neg2 = (if signedArith \<and> b <s 0 then \<not> neg1 else neg1);
            b1 = (if signedArith \<and> b <s 0 then - b else b);
            (hi, lo) = mult_loop 32 a1 0 b1 0 0
        in if neg2 then (let hi1 = NOT hi; lo1 = NOT lo + 1 in (if lo1 = 0 then hi1 + 1 else hi1, lo1))
           else (hi, lo))"

section \<open>The switch\<close>

text \<open>
  How a case of the switch ends: \<open>Next m pc reg val\<close> breaks out of the switch, with \<^verbatim>\<open>pcAfter\<close>,
  \<^verbatim>\<open>nextLoadReg\<close> and \<^verbatim>\<open>nextLoadValue\<close>; \<open>Return m\<close> returns from \<^verbatim>\<open>OneInstruction\<close>.
\<close>

datatype 's outcome = Next 's "32 word" nat "32 word" | Return 's

definition trap :: "'z hw_scheme handler \<Rightarrow> ExceptionType \<Rightarrow> 32 word \<Rightarrow> 'z hw_scheme \<Rightarrow>
    'z hw_scheme outcome result" where
  "trap eh which badVAddr m =
     bind_r (Machine_RaiseException eh which badVAddr m) (\<lambda>m'. Inr (Return m'))"

definition set_reg :: "nat \<Rightarrow> 32 word \<Rightarrow> 'z hw_scheme \<Rightarrow> 'z hw_scheme" where
  "set_reg n v m = m\<lparr>registers := (registers m)(n := v)\<rparr>"

abbreviation cont :: "'z hw_scheme \<Rightarrow> 32 word \<Rightarrow> 'z hw_scheme outcome result option" where
  "cont m pcAfter \<equiv> Some (Inr (Next m pcAfter 0 0))"

type_synonym 'z part = "'z hw_scheme handler \<Rightarrow> Instruction \<Rightarrow> 32 word \<Rightarrow> 'z hw_scheme \<Rightarrow>
  'z hw_scheme outcome result option"

definition ops_add_and :: "'z part" where
  "ops_add_and eh i pcAfter m = (let r = registers m in
     if opCode i = OP_ADD then
       (let sum = r (rs i) + r (rt i) in
        if (r (rs i) XOR r (rt i)) AND SIGN_BIT = 0 \<and> (r (rs i) XOR sum) AND SIGN_BIT \<noteq> 0
        then Some (trap eh OverflowException 0 m)
        else cont (set_reg (rd i) sum m) pcAfter)
     else if opCode i = OP_ADDI then
       (let sum = r (rs i) + extra i in
        if (r (rs i) XOR extra i) AND SIGN_BIT = 0 \<and> (extra i XOR sum) AND SIGN_BIT \<noteq> 0
        then Some (trap eh OverflowException 0 m)
        else cont (set_reg (rt i) sum m) pcAfter)
     else if opCode i = OP_ADDIU then cont (set_reg (rt i) (r (rs i) + extra i) m) pcAfter
     else if opCode i = OP_ADDU then cont (set_reg (rd i) (r (rs i) + r (rt i)) m) pcAfter
     else if opCode i = OP_AND then cont (set_reg (rd i) (r (rs i) AND r (rt i)) m) pcAfter
     else if opCode i = OP_ANDI
     then cont (set_reg (rt i) (r (rs i) AND (extra i AND 0xffff)) m) pcAfter
     else None)"

definition ops_branch :: "'z part" where
  "ops_branch eh i pcAfter m = (let r = registers m;
       target = r NextPCReg + IndexToAddr (extra i);
       branch = (\<lambda>c m. cont m (if c then target else pcAfter));
       link = set_reg 31 (r NextPCReg + 4) m in
     if opCode i = OP_BEQ then branch (r (rs i) = r (rt i)) m
     else if opCode i = OP_BGEZAL then branch (registers link (rs i) AND SIGN_BIT = 0) link
     else if opCode i = OP_BGEZ then branch (r (rs i) AND SIGN_BIT = 0) m
     else if opCode i = OP_BGTZ then branch (0 <s r (rs i)) m
     else if opCode i = OP_BLEZ then branch (r (rs i) \<le>s 0) m
     else if opCode i = OP_BLTZAL then branch (registers link (rs i) AND SIGN_BIT \<noteq> 0) link
     else if opCode i = OP_BLTZ then branch (r (rs i) AND SIGN_BIT \<noteq> 0) m
     else if opCode i = OP_BNE then branch (r (rs i) \<noteq> r (rt i)) m
     else None)"

text \<open>
  The quotient of the smallest \<^verbatim>\<open>int\<close> by -1 is not an \<^verbatim>\<open>int\<close>; the host's division instruction
  traps on it.
\<close>

definition ops_div :: "'z part" where
  "ops_div eh i pcAfter m = (let r = registers m in
     if opCode i = OP_DIV then
       (if r (rt i) = 0 then cont (set_reg HiReg 0 (set_reg LoReg 0 m)) pcAfter
        else if r (rs i) = SIGN_BIT \<and> r (rt i) = -1 then Some (Inl HostTrap)
        else
          let m1 = set_reg LoReg (word_of_int (c_div (sint (r (rs i))) (sint (r (rt i))))) m in
          cont (set_reg HiReg (word_of_int (c_mod (sint (registers m1 (rs i))) (sint (registers m1 (rt i))))) m1)
            pcAfter)
     else if opCode i = OP_DIVU then
       (if r (rt i) = 0 then cont (set_reg HiReg 0 (set_reg LoReg 0 m)) pcAfter
        else cont (set_reg HiReg (r (rs i) mod r (rt i)) (set_reg LoReg (r (rs i) div r (rt i)) m)) pcAfter)
     else None)"

definition ops_jump :: "'z part" where
  "ops_jump eh i pcAfter m = (let r = registers m;
       jump = (pcAfter AND 0xf0000000) OR IndexToAddr (extra i) in
     if opCode i = OP_JAL then cont (set_reg 31 (r NextPCReg + 4) m) jump
     else if opCode i = OP_J then cont m jump
     else if opCode i = OP_JALR then
       (let m1 = set_reg (rd i) (r NextPCReg + 4) m in cont m1 (registers m1 (rs i)))
     else if opCode i = OP_JR then cont m (r (rs i))
     else None)"

text \<open>Continue with the value read, return when the access failed.\<close>

definition with_read :: "'z hw_scheme handler \<Rightarrow> 32 word \<Rightarrow> nat \<Rightarrow> 'z hw_scheme \<Rightarrow>
    (32 word \<Rightarrow> 'z hw_scheme \<Rightarrow> 'z hw_scheme outcome result) \<Rightarrow> 'z hw_scheme outcome result" where
  "with_read eh a sz m k = bind_r (Machine_ReadMem eh a sz m) (\<lambda>(r, m1).
     case r of None \<Rightarrow> Inr (Return m1) | Some v \<Rightarrow> k v m1)"

definition with_write :: "'z hw_scheme handler \<Rightarrow> 32 word \<Rightarrow> nat \<Rightarrow> 32 word \<Rightarrow> 'z hw_scheme \<Rightarrow> 32 word \<Rightarrow>
    'z hw_scheme outcome result" where
  "with_write eh a sz v m pcAfter = bind_r (Machine_WriteMem eh a sz v m) (\<lambda>(ok, m1).
     if ok then Inr (Next m1 pcAfter 0 0) else Inr (Return m1))"

definition ops_load :: "'z part" where
  "ops_load eh i pcAfter m = (let r = registers m; tmp = r (rs i) + extra i in
     if opCode i = OP_LB \<or> opCode i = OP_LBU then
       Some (with_read eh tmp 1 m (\<lambda>value m1.
         let value1 = (if value AND 0x80 \<noteq> 0 \<and> opCode i = OP_LB then value OR 0xffffff00
                       else value AND 0xff)
         in Inr (Next m1 pcAfter (rt i) value1)))
     else if opCode i = OP_LH \<or> opCode i = OP_LHU then
       Some (if tmp AND 0x1 \<noteq> 0 then trap eh AddressErrorException tmp m
         else with_read eh tmp 2 m (\<lambda>value m1.
           let value1 = (if value AND 0x8000 \<noteq> 0 \<and> opCode i = OP_LH then value OR 0xffff0000
                         else value AND 0xffff)
           in Inr (Next m1 pcAfter (rt i) value1)))
     else if opCode i = OP_LUI then cont (set_reg (rt i) (push_bit 16 (extra i)) m) pcAfter
     else if opCode i = OP_LW then
       Some (if tmp AND 0x3 \<noteq> 0 then trap eh AddressErrorException tmp m
         else with_read eh tmp 4 m (\<lambda>value m1. Inr (Next m1 pcAfter (rt i) value)))
     else None)"

text \<open>The pending value of a register: that of the load in progress if it is its target.\<close>

definition pending_value :: "nat \<Rightarrow> 'z hw_scheme \<Rightarrow> 32 word" where
  "pending_value n m = (if registers m LoadReg = of_nat n then registers m LoadValueReg else registers m n)"

definition ops_load_part :: "'z part" where
  "ops_load_part eh i pcAfter m = (let r = registers m; tmp = r (rs i) + extra i in
     if opCode i = OP_LWL then
       Some (bind_r (ASSERT (tmp AND 0x3 = 0)) (\<lambda>_. with_read eh tmp 4 m (\<lambda>value m1.
         let old = pending_value (rt i) m1; k = tmp AND 0x3;
             new = (if k = 0 then value
                    else if k = 1 then (old AND 0xff) OR push_bit 8 value
                    else if k = 2 then (old AND 0xffff) OR push_bit 16 value
                    else (old AND 0xffffff) OR push_bit 24 value)
         in Inr (Next m1 pcAfter (rt i) new))))
     else if opCode i = OP_LWR then
       Some (bind_r (ASSERT (tmp AND 0x3 = 0)) (\<lambda>_. with_read eh tmp 4 m (\<lambda>value m1.
         let old = pending_value (rt i) m1; k = tmp AND 0x3;
             new = (if k = 0 then (old AND 0xffffff00) OR (signed_drop_bit 24 value AND 0xff)
                    else if k = 1 then (old AND 0xffff0000) OR (signed_drop_bit 16 value AND 0xffff)
                    else if k = 2 then (old AND 0xff000000) OR (signed_drop_bit 8 value AND 0xffffff)
                    else value)
         in Inr (Next m1 pcAfter (rt i) new))))
     else None)"

definition ops_hilo :: "'z part" where
  "ops_hilo eh i pcAfter m = (let r = registers m in
     if opCode i = OP_MFHI then cont (set_reg (rd i) (r HiReg) m) pcAfter
     else if opCode i = OP_MFLO then cont (set_reg (rd i) (r LoReg) m) pcAfter
     else if opCode i = OP_MTHI then cont (set_reg HiReg (r (rs i)) m) pcAfter
     else if opCode i = OP_MTLO then cont (set_reg LoReg (r (rs i)) m) pcAfter
     else if opCode i = OP_MULT then
       (let (hi, lo) = Mult (r (rs i)) (r (rt i)) True in
        cont (set_reg LoReg lo (set_reg HiReg hi m)) pcAfter)
     else if opCode i = OP_MULTU then
       (let (hi, lo) = Mult (r (rs i)) (r (rt i)) False in
        cont (set_reg LoReg lo (set_reg HiReg hi m)) pcAfter)
     else None)"

text \<open>The case of \<^verbatim>\<open>OP_OR\<close> combines the register \<^verbatim>\<open>rs\<close> with itself.\<close>

definition ops_or_store :: "'z part" where
  "ops_or_store eh i pcAfter m = (let r = registers m in
     if opCode i = OP_NOR then cont (set_reg (rd i) (NOT (r (rs i) OR r (rt i))) m) pcAfter
     else if opCode i = OP_OR then cont (set_reg (rd i) (r (rs i) OR r (rs i)) m) pcAfter
     else if opCode i = OP_ORI
     then cont (set_reg (rt i) (r (rs i) OR (extra i AND 0xffff)) m) pcAfter
     else if opCode i = OP_SB then Some (with_write eh (r (rs i) + extra i) 1 (r (rt i)) m pcAfter)
     else if opCode i = OP_SH then Some (with_write eh (r (rs i) + extra i) 2 (r (rt i)) m pcAfter)
     else None)"

text \<open>
  Shifts.  The right shifts, \<^verbatim>\<open>OP_SRL\<close> and \<^verbatim>\<open>OP_SRLV\<close> included, are applied to an \<^verbatim>\<open>int\<close>.
\<close>

definition ops_shift :: "'z part" where
  "ops_shift eh i pcAfter m = (let r = registers m; amount = unat (extra i);
       amountv = unat (r (rs i) AND 0x1f) in
     if opCode i = OP_SLL then cont (set_reg (rd i) (push_bit amount (r (rt i))) m) pcAfter
     else if opCode i = OP_SLLV then cont (set_reg (rd i) (push_bit amountv (r (rt i))) m) pcAfter
     else if opCode i = OP_SRA then cont (set_reg (rd i) (signed_drop_bit amount (r (rt i))) m) pcAfter
     else if opCode i = OP_SRAV then cont (set_reg (rd i) (signed_drop_bit amountv (r (rt i))) m) pcAfter
     else if opCode i = OP_SRL then cont (set_reg (rd i) (signed_drop_bit amount (r (rt i))) m) pcAfter
     else if opCode i = OP_SRLV then cont (set_reg (rd i) (signed_drop_bit amountv (r (rt i))) m) pcAfter
     else None)"

definition ops_compare :: "'z part" where
  "ops_compare eh i pcAfter m = (let r = registers m; flag = (\<lambda>c. if c then 1 else 0) in
     if opCode i = OP_SLT then cont (set_reg (rd i) (flag (r (rs i) <s r (rt i))) m) pcAfter
     else if opCode i = OP_SLTI then cont (set_reg (rt i) (flag (r (rs i) <s extra i)) m) pcAfter
     else if opCode i = OP_SLTIU then cont (set_reg (rt i) (flag (r (rs i) < extra i)) m) pcAfter
     else if opCode i = OP_SLTU then cont (set_reg (rd i) (flag (r (rs i) < r (rt i))) m) pcAfter
     else None)"

definition ops_sub_store :: "'z part" where
  "ops_sub_store eh i pcAfter m = (let r = registers m in
     if opCode i = OP_SUB then
       (let diff = r (rs i) - r (rt i) in
        if (r (rs i) XOR r (rt i)) AND SIGN_BIT \<noteq> 0 \<and> (r (rs i) XOR diff) AND SIGN_BIT \<noteq> 0
        then Some (trap eh OverflowException 0 m)
        else cont (set_reg (rd i) diff m) pcAfter)
     else if opCode i = OP_SUBU then cont (set_reg (rd i) (r (rs i) - r (rt i)) m) pcAfter
     else if opCode i = OP_SW then Some (with_write eh (r (rs i) + extra i) 4 (r (rt i)) m pcAfter)
     else None)"

definition ops_store_part :: "'z part" where
  "ops_store_part eh i pcAfter m = (let r = registers m; tmp = r (rs i) + extra i; k = tmp AND 0x3 in
     if opCode i = OP_SWL then
       Some (bind_r (ASSERT (k = 0)) (\<lambda>_. with_read eh (tmp AND NOT 0x3) 4 m (\<lambda>value m1.
         let v = registers m1 (rt i);
             new = (if k = 0 then v
                    else if k = 1 then (value AND 0xff000000) OR (signed_drop_bit 8 v AND 0xffffff)
                    else if k = 2 then (value AND 0xffff0000) OR (signed_drop_bit 16 v AND 0xffff)
                    else (value AND 0xffffff00) OR (signed_drop_bit 24 v AND 0xff))
         in with_write eh (tmp AND NOT 0x3) 4 new m1 pcAfter)))
     else if opCode i = OP_SWR then
       Some (bind_r (ASSERT (k = 0)) (\<lambda>_. with_read eh (tmp AND NOT 0x3) 4 m (\<lambda>value m1.
         let v = registers m1 (rt i);
             new = (if k = 0 then (value AND 0xffffff) OR push_bit 24 v
                    else if k = 1 then (value AND 0xffff) OR push_bit 16 v
                    else if k = 2 then (value AND 0xff) OR push_bit 8 v
                    else v)
         in with_write eh (tmp AND NOT 0x3) 4 new m1 pcAfter)))
     else None)"

definition ops_system :: "'z part" where
  "ops_system eh i pcAfter m = (let r = registers m in
     if opCode i = OP_SYSCALL then Some (trap eh SyscallException 0 m)
     else if opCode i = OP_XOR then cont (set_reg (rd i) (r (rs i) XOR r (rt i)) m) pcAfter
     else if opCode i = OP_XORI
     then cont (set_reg (rt i) (r (rs i) XOR (extra i AND 0xffff)) m) pcAfter
     else if opCode i = OP_RES \<or> opCode i = OP_UNIMP then Some (trap eh IllegalInstrException 0 m)
     else None)"

section \<open>One instruction\<close>

text \<open>The parts in the order of the source; the default case is \<^verbatim>\<open>ASSERT(FALSE)\<close>.\<close>

fun first_part :: "('a \<Rightarrow> 'b option) list \<Rightarrow> 'a \<Rightarrow> 'b option" where
  "first_part [] x = None"
| "first_part (f # fs) x = (case f x of Some y \<Rightarrow> Some y | None \<Rightarrow> first_part fs x)"

definition switch_parts :: "'z part list" where
  "switch_parts = [ops_add_and, ops_branch, ops_div, ops_jump, ops_load, ops_load_part, ops_hilo,
     ops_or_store, ops_shift, ops_compare, ops_sub_store, ops_store_part, ops_system]"

definition execute :: "'z hw_scheme handler \<Rightarrow> Instruction \<Rightarrow> 32 word \<Rightarrow> 'z hw_scheme \<Rightarrow>
    'z hw_scheme outcome result" where
  "execute eh i pcAfter m =
     (case first_part (map (\<lambda>f m. f eh i pcAfter m) switch_parts) m of
        Some r \<Rightarrow> r | None \<Rightarrow> Inl AssertFail)"

text \<open>After the switch: apply the delayed load and advance the program counters.\<close>

definition commit :: "'z hw_scheme outcome \<Rightarrow> 'z hw_scheme result" where
  "commit out = (case out of
     Return m \<Rightarrow> Inr m
   | Next m pcAfter nextLoadReg nextLoadValue \<Rightarrow>
       bind_r (Machine_DelayedLoad (of_nat nextLoadReg) nextLoadValue m) (\<lambda>m1.
       Inr (let m2 = set_reg PrevPCReg (registers m1 PCReg) m1;
                m3 = set_reg PCReg (registers m2 NextPCReg) m2
            in set_reg NextPCReg pcAfter m3)))"

definition Machine_OneInstruction :: "'z hw_scheme handler \<Rightarrow> 'z hw_scheme \<Rightarrow> 'z hw_scheme result" where
  "Machine_OneInstruction eh m =
     bind_r (Machine_ReadMem eh (registers m PCReg) 4 m) (\<lambda>(raw, m1).
       case raw of None \<Rightarrow> Inr m1
       | Some v \<Rightarrow>
           bind_r (execute eh (Instruction_Decode v) (registers m1 NextPCReg + 4) m1) commit)"

section \<open>\<^verbatim>\<open>Mult\<close> computes the double-length product\<close>

text \<open>The double word with the given halves; sums of halves carry over.\<close>

definition dword :: "32 word \<Rightarrow> 32 word \<Rightarrow> 64 word" where
  "dword hi lo = word_of_int (uint hi * 2 ^ 32 + uint lo)"

lemma word64_eqI:
  assumes "a = b + 2 ^ 64 * d"
  shows "(word_of_int a :: 64 word) = word_of_int b"
proof -
  have "a mod 2 ^ 64 = b mod 2 ^ 64" unfolding assms by presburger
  then show ?thesis unfolding word_of_int_eq_iff take_bit_eq_mod by simp
qed

lemma uint_add32: "\<exists>d. uint (x + y :: 32 word) = uint x + uint y - 2 ^ 32 * d"
  by (intro exI [of _ "(uint x + uint y) div 2 ^ 32"]) (simp add: uint_word_ariths minus_mult_div_eq_mod)

lemma uint32_bounds: "0 \<le> uint (x :: 32 word)" "uint x < 2 ^ 32"
  using uint_lt2p [of x] by simp_all

lemma uint_add_carry:
  "uint (x + y :: 32 word) = uint x + uint y - 2 ^ 32 * (if x + y < y then 1 else 0)"
  using uint32_bounds [of x] uint32_bounds [of y]
  by (simp add: word_less_def uint_plus_if')

lemma dword_add:
  "dword ((if lo + b < b then hi + 1 else hi) + h) (lo + b) = dword hi lo + dword h b"
proof -
  define c where "c = (if lo + b < b then 1 else 0 :: int)"
  define H where "H = (if lo + b < b then hi + 1 else hi)"
  obtain d1 where d1: "uint H = uint hi + c - 2 ^ 32 * d1"
  proof (cases "lo + b < b")
    case True
    with that uint_add32 [of hi 1] show ?thesis by (auto simp: H_def c_def)
  next
    case False
    with that [of 0] show ?thesis by (simp add: H_def c_def)
  qed
  obtain d2 where d2: "uint (H + h) = uint H + uint h - 2 ^ 32 * d2" using uint_add32 by blast
  have l: "uint (lo + b) = uint lo + uint b - 2 ^ 32 * c" unfolding c_def by (rule uint_add_carry)
  have "uint (H + h) * 2 ^ 32 + uint (lo + b) =
      uint hi * 2 ^ 32 + uint lo + (uint h * 2 ^ 32 + uint b) + 2 ^ 64 * (- d1 - d2)"
    unfolding d2 d1 l by simp
  from word64_eqI [OF this] show ?thesis
    unfolding dword_def wi_hom_add [symmetric] H_def [symmetric] by simp
qed

lemma bit31: "bit (x :: 32 word) 31 \<longleftrightarrow> 2 ^ 31 \<le> uint x"
proof -
  have "bit x 31 \<longleftrightarrow> bit (uint x) 31" by (simp add: bit_uint_iff)
  also have "\<dots> \<longleftrightarrow> odd (uint x div 2 ^ 31)" by (simp only: bit_iff_odd)
  also have "uint x div 2 ^ 31 = (if 2 ^ 31 \<le> uint x then 1 else 0)"
    using uint32_bounds [of x] by (auto simp: div_pos_pos_trivial intro: int_div_pos_eq)
  finally show ?thesis by simp
qed

lemma top_bit: "(x :: 32 word) AND 0x80000000 \<noteq> 0 \<longleftrightarrow> x + x < x"
proof -
  have two: "(2 :: int) ^ 32 = 2 * 2 ^ 31" by simp
  have "(0x80000000 :: 32 word) = push_bit 31 1" by simp
  then have "x AND 0x80000000 \<noteq> 0 \<longleftrightarrow> bit x 31" by (metis bit_iff_and_push_bit_not_eq_0)
  also have "\<dots> \<longleftrightarrow> x + x < x"
  proof (cases "x + x < x")
    case True
    with uint_add_carry [of x x] have "uint (x + x) = uint x + uint x - 2 ^ 32" by (simp only: if_True)
    with uint32_bounds(1) [of "x + x"] two have "2 ^ 31 \<le> uint x" by linarith
    with True show ?thesis unfolding bit31 by blast
  next
    case False
    with uint_add_carry [of x x] have "uint (x + x) = uint x + uint x" by simp
    with uint32_bounds(2) [of "x + x"] two have "\<not> 2 ^ 31 \<le> uint x" by linarith
    with False show ?thesis unfolding bit31 by blast
  qed
  finally show ?thesis .
qed

lemma dword_double:
  "dword (push_bit 1 bHi OR (if bLo AND 0x80000000 \<noteq> 0 then 1 else 0)) (push_bit 1 bLo) =
   2 * dword bHi bLo"
proof -
  have "push_bit 1 bHi OR (if bLo AND 0x80000000 \<noteq> 0 then 1 else 0) =
      (if bLo + bLo < bLo then bHi + 1 else bHi) + bHi"
  proof -
    have "push_bit 1 bHi OR 1 = push_bit 1 bHi + 1"
      by (simp add: or_one_eq push_bit_eq_mult)
    then show ?thesis unfolding top_bit by (simp add: push_bit_eq_mult)
  qed
  moreover have "push_bit 1 bLo = bLo + bLo" by (simp add: push_bit_eq_mult)
  ultimately show ?thesis using dword_add [of bLo bLo bHi bHi] by (simp only: mult_2)
qed

text \<open>The bits of \<open>a\<close> that are still to be looked at.\<close>

lemma take_bit_sdrop:
  assumes "k < 32"
  shows "uint (take_bit (Suc k) (a :: 32 word)) =
    (if a AND 1 \<noteq> 0 then 1 else 0) + 2 * uint (take_bit k (signed_drop_bit 1 a))"
proof -
  have "take_bit k (signed_drop_bit 1 a) = take_bit k (drop_bit 1 a)"
    using assms by (intro bit_word_eqI) (auto simp: bit_take_bit_iff bit_signed_drop_bit_iff bit_drop_bit_eq)
  moreover have "odd (uint a) \<longleftrightarrow> odd a" using bit_uint_iff [of a 0] by (simp add: bit_0)
  then have "take_bit (Suc k) (uint a) = of_bool (odd a) + 2 * take_bit k (uint a div 2)"
    by (simp add: take_bit_Suc mod2_eq_if)
  moreover have "uint (take_bit k (drop_bit 1 a)) = take_bit k (uint a div 2)"
    by (simp add: unsigned_take_bit_eq unsigned_drop_bit_eq drop_bit_Suc uint_div)
  ultimately show ?thesis by (simp add: unsigned_take_bit_eq and_one_eq mod2_eq_if)
qed

lemma mult_loop_correct:
  assumes "k \<le> 32" and "mult_loop k a bHi bLo hi lo = (hi', lo')"
  shows "dword hi' lo' = dword hi lo + dword bHi bLo * word_of_int (uint (take_bit k a))"
  using assms
proof (induction k arbitrary: a bHi bLo hi lo)
  case 0
  then show ?case by simp
next
  case (Suc k)
  let ?a = "signed_drop_bit 1 a" and ?h = "push_bit 1 bHi OR (if bLo AND 0x80000000 \<noteq> 0 then 1 else 0)"
    and ?l = "push_bit 1 bLo"
  define hi1 lo1 where "hi1 = (if lo + bLo < bLo then hi + 1 else hi) + bHi" and "lo1 = lo + bLo"
  have sum: "dword hi1 lo1 = dword hi lo + dword bHi bLo" unfolding hi1_def lo1_def by (rule dword_add)
  have bits: "(word_of_int (uint (take_bit (Suc k) a)) :: 64 word) =
      (if a AND 1 \<noteq> 0 then 1 else 0) + 2 * word_of_int (uint (take_bit k ?a))"
    using Suc.prems(1) by (subst take_bit_sdrop) (simp_all add: wi_hom_syms)
  have IH: "dword hi' lo' = dword g l + 2 * dword bHi bLo * word_of_int (uint (take_bit k ?a))"
    if "mult_loop k ?a ?h ?l g l = (hi', lo')" for g l
    using Suc.IH [OF _ that] Suc.prems(1) unfolding dword_double by simp
  consider (zero) "a AND 1 = 0" | (last) "a AND 1 \<noteq> 0" "a AND 0xfffffffe = 0"
    | (more) "a AND 1 \<noteq> 0" "a AND 0xfffffffe \<noteq> 0" by blast
  then show ?case
  proof cases
    case zero
    then have "mult_loop k ?a ?h ?l hi lo = (hi', lo')" using Suc.prems(2) by (simp add: Let_def)
    from IH [OF this] show ?thesis unfolding bits using zero by (simp add: algebra_simps)
  next
    case last
    then have r: "hi' = hi1" "lo' = lo1" using Suc.prems(2) by (auto simp: Let_def hi1_def lo1_def)
    have "a = 1"
    proof -
      have "a = (a AND 1) OR (a AND 0xfffffffe)"
      proof -
        have m: "(0xfffffffe :: 32 word) = NOT 1" by simp
        show ?thesis unfolding m by (rule bit_word_eqI) (auto simp: bit_or_iff bit_and_iff bit_not_iff bit_1_iff)
      qed
      then show ?thesis using last by (simp add: and_one_eq mod2_eq_if split: if_splits)
    qed
    then show ?thesis unfolding r sum by simp
  next
    case more
    then have "mult_loop k ?a ?h ?l hi1 lo1 = (hi', lo')"
      using Suc.prems(2) by (simp add: Let_def hi1_def lo1_def)
    from IH [OF this] show ?thesis unfolding bits sum using more by (simp add: algebra_simps)
  qed
qed

lemma dword_neg:
  "dword (if NOT lo + 1 = 0 then NOT hi + 1 else NOT hi) (NOT lo + 1) = - dword hi lo"
proof -
  have n: "dword (NOT hi) (NOT lo) = - 1 - dword hi lo"
  proof -
    have u: "uint (NOT x) = 2 ^ 32 - 1 - uint x" for x :: "32 word"
    proof -
      have "uint (NOT x) = take_bit 32 (NOT (uint x))" using unsigned_not_eq [of x] by simp
      also have "\<dots> = (- uint x - 1) mod 2 ^ 32" by (simp add: take_bit_eq_mod not_eq_complement)
      also have "\<dots> = (2 ^ 32 - 1 - uint x) mod 2 ^ 32" using mod_add_self2 [of "- uint x - 1" "2 ^ 32"] by simp
      also have "\<dots> = 2 ^ 32 - 1 - uint x" using uint32_bounds [of x] by (intro mod_pos_pos_trivial) linarith+
      finally show ?thesis .
    qed
    have "uint (NOT hi) * 2 ^ 32 + uint (NOT lo) = (- 1 - (uint hi * 2 ^ 32 + uint lo)) + 2 ^ 64 * 1"
      unfolding u by simp
    from word64_eqI [OF this] show ?thesis unfolding dword_def by (simp add: wi_hom_syms)
  qed
  have "NOT lo + 1 < 1 \<longleftrightarrow> NOT lo + 1 = 0" by (metis word_less_1)
  then have "dword (if NOT lo + 1 = 0 then NOT hi + 1 else NOT hi) (NOT lo + 1) =
      dword (NOT hi) (NOT lo) + dword 0 1"
    using dword_add [of "NOT lo" 1 "NOT hi" 0] by simp
  also have "dword 0 1 = 1" by (simp add: dword_def)
  finally show ?thesis unfolding n by simp
qed

lemma sint_uint32: "sint (x :: 32 word) = uint x - 2 ^ 32 * of_bool (2 ^ 31 \<le> uint x)"
proof -
  have "sint x = take_bit 32 (uint x) - 2 ^ 32 * of_bool (bit (uint x) 31)"
    by (simp add: sint_uint signed_take_bit_eq_take_bit_minus)
  moreover have "bit (uint x) 31 \<longleftrightarrow> 2 ^ 31 \<le> uint x" using bit31 [of x] by (simp add: bit_uint_iff)
  moreover have "take_bit 32 (uint x) = uint x" using uint32_bounds [of x] by (intro take_bit_int_eq_self) auto
  ultimately show ?thesis by simp
qed

lemma sless_0: "x <s (0 :: 32 word) \<longleftrightarrow> 2 ^ 31 \<le> uint x"
  using uint32_bounds [of x] by (simp add: word_sless_alt sint_uint32)

lemma uint_eq_sint: "\<not> x <s 0 \<Longrightarrow> uint (x :: 32 word) = sint x"
  by (simp add: sless_0 sint_uint32)

lemma uint_neg_sint:
  assumes "x <s 0"
  shows "uint (- x :: 32 word) = - sint x"
proof -
  have "uint (- x) = (- uint x) mod 2 ^ 32" by (simp add: uint_word_ariths)
  also have "\<dots> = (2 ^ 32 - uint x) mod 2 ^ 32" using mod_add_self2 [of "- uint x" "2 ^ 32"] by simp
  also have "\<dots> = 2 ^ 32 - uint x"
    using assms uint32_bounds [of x] by (intro mod_pos_pos_trivial) (auto simp: sless_0)
  finally show ?thesis using assms by (simp add: sint_uint32 sless_0)
qed

lemma Mult_dword:
  assumes "Mult a b sg = (hi, lo)"
  shows "dword hi lo = (if sg then word_of_int (sint a * sint b) else word_of_int (uint a * uint b))"
proof (cases "a = 0 \<or> b = 0")
  case True
  with assms show ?thesis by (auto simp: Mult_def dword_def)
next
  case False
  define na where "na = (sg \<and> a <s 0)"
  define nb where "nb = (sg \<and> b <s 0)"
  let ?a = "if na then - a else a" and ?b = "if nb then - b else b"
  obtain h l where hl: "mult_loop 32 ?a 0 ?b 0 0 = (h, l)" by (cases "mult_loop 32 ?a 0 ?b 0 0")
  have "take_bit 32 ?a = ?a" by (simp add: take_bit_word_eq_self)
  with mult_loop_correct [OF _ hl]
  have p: "dword h l = word_of_int (uint ?a * uint ?b)"
    by (simp add: dword_def wi_hom_syms mult.commute)
  have "(hi, lo) = (if na \<noteq> nb then (if NOT l + 1 = 0 then NOT h + 1 else NOT h, NOT l + 1) else (h, l))"
    using assms False hl by (auto simp: Mult_def Let_def na_def nb_def split: if_splits)
  then have r: "dword hi lo = (if na \<noteq> nb then - dword h l else dword h l)"
    using dword_neg [of l h] by (auto split: if_splits)
  have "(if na \<noteq> nb then - (uint ?a * uint ?b) else uint ?a * uint ?b) =
      (if sg then sint a * sint b else uint a * uint b)"
    using uint_eq_sint [of a] uint_eq_sint [of b] uint_neg_sint [of a] uint_neg_sint [of b]
    by (auto simp: na_def nb_def)
  moreover have "dword hi lo = word_of_int (if na \<noteq> nb then - (uint ?a * uint ?b) else uint ?a * uint ?b)"
    unfolding r p wi_hom_neg by (simp only: if_distrib [of word_of_int])
  ultimately show ?thesis by (simp only: if_distrib [of word_of_int])
qed

section \<open>Sign bits and signed overflow\<close>

lemma sint32_bounds: "- (2 ^ 31) \<le> sint (x :: 32 word)" "sint x < 2 ^ 31"
  using sint_range_size [of x] by (simp_all add: word_size)

lemma sign_bit: "(x :: 32 word) AND SIGN_BIT \<noteq> 0 \<longleftrightarrow> sint x < 0"
proof -
  have "SIGN_BIT = push_bit 31 1" by (simp add: SIGN_BIT_def)
  then have "x AND SIGN_BIT \<noteq> 0 \<longleftrightarrow> bit x 31" by (metis bit_iff_and_push_bit_not_eq_0)
  then show ?thesis using bit31 [of x] sless_0 [of x] by (simp add: word_sless_alt)
qed

lemma sign_bit_xor: "(x XOR y :: 32 word) AND SIGN_BIT \<noteq> 0 \<longleftrightarrow> (sint x < 0) \<noteq> (sint y < 0)"
proof -
  have "SIGN_BIT = push_bit 31 1" by (simp add: SIGN_BIT_def)
  then have b: "z AND SIGN_BIT \<noteq> 0 \<longleftrightarrow> bit z 31" for z :: "32 word"
    by (metis bit_iff_and_push_bit_not_eq_0)
  have "bit (x XOR y) 31 \<longleftrightarrow> bit x 31 \<noteq> bit y 31" by (simp add: bit_xor_iff)
  then show ?thesis unfolding b using sign_bit [of x] sign_bit [of y] unfolding b by simp
qed

lemma sint_wrap32:
  fixes x :: "32 word"
  assumes "x = word_of_int n" "- (2 ^ 32) \<le> n" "n < 2 ^ 32"
  shows "sint x = (if n < - (2 ^ 31) then n + 2 ^ 32 else if n < 2 ^ 31 then n else n - 2 ^ 32)"
proof -
  have s: "sint x = (n + 2 ^ 31) mod 2 ^ 32 - 2 ^ 31" unfolding assms(1) by (simp add: int_word_sint)
  have m: "(n + 2 ^ 31) mod 2 ^ 32 = n + 2 ^ 31 + 2 ^ 32 * d"
    if "0 \<le> n + 2 ^ 31 + 2 ^ 32 * d" "n + 2 ^ 31 + 2 ^ 32 * d < 2 ^ 32" for d
  proof -
    have "(n + 2 ^ 31) mod 2 ^ 32 = (n + 2 ^ 31 + 2 ^ 32 * d) mod 2 ^ 32" by simp
    also have "\<dots> = n + 2 ^ 31 + 2 ^ 32 * d" using that by (rule mod_pos_pos_trivial)
    finally show ?thesis .
  qed
  have "n < - (2 ^ 31) \<Longrightarrow> sint x = n + 2 ^ 32" "- (2 ^ 31) \<le> n \<Longrightarrow> n < 2 ^ 31 \<Longrightarrow> sint x = n"
    "2 ^ 31 \<le> n \<Longrightarrow> sint x = n - 2 ^ 32"
    using m [of 1] m [of 0] m [of "- 1"] assms(2,3) unfolding s by simp_all
  then show ?thesis by simp
qed

end
