(* ===== verification/Mips_Correct.thy ===== *)
theory Mips_Correct
  imports Mips_Sim
begin

text \<open>
  Properties of the CPU simulator.  \<open>cpu_ok\<close> is the invariant of the register file: register 0
  holds zero and a delayed load targets a general register.  The CPU relies on the kernel's trap
  handler to keep it; that contract is the locale \<open>trap_handler\<close>.
\<close>

unbundle bit_operations_syntax

section \<open>The register invariant is kept\<close>

lemma Translate_registers:
  "Machine_Translate a sz w m = Inr (t, m') \<Longrightarrow> registers m' = registers m"
  by (auto simp: Machine_Translate_def Let_def elim!: bind_r_InrE split: if_split_asm sum.split_asm)

lemma Translate_cpu_ok: "Machine_Translate a sz w m = Inr (t, m') \<Longrightarrow> cpu_ok m \<Longrightarrow> cpu_ok m'"
  using Translate_registers [of a sz w m t m'] by (simp add: cpu_ok_def)

definition outcome_ok :: "'z hw_scheme outcome \<Rightarrow> bool" where
  "outcome_ok out = (case out of
     Next m _ reg _ \<Rightarrow> uint (registers m LoadReg) < 32 \<and> reg < 32 | Return m \<Rightarrow> cpu_ok m)"

lemma outcome_ok_simps [simp]:
  "outcome_ok (Next m pc reg v) \<longleftrightarrow> uint (registers m LoadReg) < 32 \<and> reg < 32"
  "outcome_ok (Return m) \<longleftrightarrow> cpu_ok m"
  by (simp_all add: outcome_ok_def)

lemma set_reg_load [simp]:
  "n \<noteq> LoadReg \<Longrightarrow> registers (set_reg n v m) LoadReg = registers m LoadReg"
  by (simp add: set_reg_def)

definition part_ok :: "'z hw_scheme handler \<Rightarrow> 'z part \<Rightarrow> bool" where
  "part_ok eh f \<longleftrightarrow> (\<forall>i pc m out. cpu_ok m \<longrightarrow> rs i < 32 \<longrightarrow> rt i < 32 \<longrightarrow> rd i < 32 \<longrightarrow>
     f eh i pc m = Some (Inr out) \<longrightarrow> outcome_ok out)"

lemma not_LoadReg [simp]: "n < 32 \<Longrightarrow> n \<noteq> LoadReg" "HiReg \<noteq> LoadReg" "LoReg \<noteq> LoadReg" "31 \<noteq> LoadReg"
  by (simp_all add: reg_defs)

lemma cpu_ok_load [simp]: "cpu_ok m \<Longrightarrow> uint (registers m LoadReg) < 32"
  by (simp add: cpu_ok_def)

lemma first_part_Some:
  "first_part fs x = Some y \<Longrightarrow> \<exists>f \<in> set fs. f x = Some y"
  by (induction fs) (auto split: option.split_asm)

lemma commit_cpu_ok:
  assumes "outcome_ok out"
  shows "\<exists>m'. commit out = Inr m' \<and> cpu_ok m'"
proof (cases out)
  case (Next m pcAfter reg val)
  with assms have "reg < 32" and l: "uint (registers m LoadReg) < 32" by simp_all
  then have "unat (of_nat reg :: 32 word) = reg" by (intro unat_of_nat_small) simp
  then have "int (unat (of_nat reg :: 32 word)) < 32" using \<open>reg < 32\<close> by linarith
  then have "uint (of_nat reg :: 32 word) < 32" by simp
  from DelayedLoad_cpu_ok [OF l this, of val] Next show ?thesis
    by (auto simp: commit_def cpu_ok_def set_reg_def Let_def reg_defs)
qed (use assms in \<open>simp add: commit_def\<close>)

locale trap_handler =
  fixes eh :: "'z hw_scheme handler"
  assumes eh_cpu_ok: "cpu_ok m \<Longrightarrow> eh which m = Inr m' \<Longrightarrow> cpu_ok m'"
begin

lemma RaiseException_cpu_ok:
  assumes "cpu_ok m" "Machine_RaiseException eh which a m = Inr m'"
  shows "cpu_ok m'"
proof -
  let ?m = "m\<lparr>registers := (registers m)(BadVAddrReg := a)\<rparr>"
  have "cpu_ok ?m" using assms(1) by simp
  then have "\<exists>m1. Machine_DelayedLoad 0 0 ?m = Inr m1 \<and> cpu_ok m1"
    by (intro DelayedLoad_cpu_ok) (simp_all add: cpu_ok_def)
  then show ?thesis
    using assms(2) by (auto simp: Machine_RaiseException_def elim!: bind_r_InrE dest: eh_cpu_ok [rotated])
qed

lemma trap_ok: "cpu_ok m \<Longrightarrow> trap eh which a m = Inr out \<Longrightarrow> outcome_ok out"
  by (auto simp: trap_def bind_r_Inr_iff dest: RaiseException_cpu_ok)

lemma ReadMem_cpu_ok:
  assumes "cpu_ok m" "Machine_ReadMem eh a sz m = Inr (r, m')"
  shows "cpu_ok m'"
  using assms(2)
  by (auto simp: Machine_ReadMem_def elim!: bind_r_InrE split: sum.split_asm if_split_asm
      dest!: Translate_cpu_ok [OF _ assms(1)] RaiseException_cpu_ok [rotated])

lemma WriteMem_cpu_ok:
  assumes "cpu_ok m" "Machine_WriteMem eh a sz v m = Inr (r, m')"
  shows "cpu_ok m'"
  using assms(2)
  by (auto simp: Machine_WriteMem_def elim!: bind_r_InrE split: sum.split_asm if_split_asm
      dest!: Translate_cpu_ok [OF _ assms(1)] RaiseException_cpu_ok [rotated])

lemma with_read_ok:
  assumes "cpu_ok m" "with_read eh a sz m k = Inr out"
    and "\<And>v m1. cpu_ok m1 \<Longrightarrow> k v m1 = Inr out \<Longrightarrow> outcome_ok out"
  shows "outcome_ok out"
  using assms by (auto simp: with_read_def bind_r_Inr_iff split: option.splits dest: ReadMem_cpu_ok)

lemma with_write_ok:
  assumes "cpu_ok m" "with_write eh a sz v m pc = Inr out"
  shows "outcome_ok out"
  using assms WriteMem_cpu_ok [OF assms(1)]
  by (fastforce simp: with_write_def bind_r_Inr_iff cpu_ok_def split: if_splits)

lemma parts_ok:
  "part_ok eh ops_add_and" "part_ok eh ops_branch" "part_ok eh ops_div" "part_ok eh ops_jump"
  "part_ok eh ops_hilo" "part_ok eh ops_or_store" "part_ok eh ops_shift" "part_ok eh ops_compare"
  "part_ok eh ops_sub_store" "part_ok eh ops_system"
  by (auto simp: part_ok_def ops_add_and_def ops_branch_def ops_div_def ops_jump_def ops_hilo_def
      ops_or_store_def ops_shift_def ops_compare_def ops_sub_store_def ops_system_def Let_def
      trap_ok with_write_ok split: if_split_asm prod.split_asm)

lemma load_parts_ok:
  "part_ok eh ops_load" "part_ok eh ops_load_part" "part_ok eh ops_store_part"
  by (auto simp: part_ok_def ops_load_def ops_load_part_def ops_store_part_def Let_def trap_ok
      with_write_ok split: if_split_asm elim!: bind_r_InrE with_read_ok [rotated])

lemma execute_ok:
  assumes "cpu_ok m" "rs i < 32" "rt i < 32" "rd i < 32" "execute eh i pc m = Inr out"
  shows "outcome_ok out"
proof -
  obtain f where f: "f \<in> set switch_parts" "f eh i pc m = Some (Inr out)"
    using assms(5) by (auto simp: execute_def split: option.split_asm dest!: first_part_Some)
  have "\<forall>f \<in> set switch_parts. part_ok eh f"
    unfolding switch_parts_def using parts_ok load_parts_ok by simp
  with f assms(1-4) show ?thesis unfolding part_ok_def by blast
qed

lemma OneInstruction_cpu_ok:
  assumes "cpu_ok m" "Machine_OneInstruction eh m = Inr m'"
  shows "cpu_ok m'"
proof -
  obtain raw m1 where m1: "Machine_ReadMem eh (registers m PCReg) 4 m = Inr (raw, m1)"
    using assms(2) by (auto simp: Machine_OneInstruction_def elim!: bind_r_InrE)
  have ok: "cpu_ok m1" by (rule ReadMem_cpu_ok [OF assms(1) m1])
  show ?thesis
  proof (cases raw)
    case None
    with assms(2) m1 ok show ?thesis by (simp add: Machine_OneInstruction_def)
  next
    case (Some v)
    with assms(2) m1 obtain out where
      out: "execute eh (Instruction_Decode v) (registers m1 NextPCReg + 4) m1 = Inr out"
      and fin: "commit out = Inr m'"
      by (auto simp: Machine_OneInstruction_def elim!: bind_r_InrE)
    have "outcome_ok out" by (rule execute_ok [OF ok _ _ _ out]) simp_all
    from commit_cpu_ok [OF this] fin show ?thesis by simp
  qed
qed

end

section \<open>Single instructions\<close>

lemmas switch_defs = execute_def switch_parts_def ops_add_and_def ops_branch_def ops_div_def
  ops_jump_def ops_load_def ops_load_part_def ops_hilo_def ops_or_store_def ops_shift_def
  ops_compare_def ops_sub_store_def ops_store_part_def ops_system_def

lemma execute_cases:
  assumes "opCode i \<in> switch_cases"
  shows "first_part (map (\<lambda>f m. f eh i pc m) switch_parts) m \<noteq> None"
  using assms unfolding switch_cases_def
  by (elim insertE emptyE) (simp_all add: switch_defs op_defs Let_def split: prod.splits)

lemma execute_LW:
  assumes "opCode i = OP_LW" "(registers m (rs i) + extra i) AND 0x3 = 0"
  shows "execute eh i pc m = with_read eh (registers m (rs i) + extra i) 4 m
    (\<lambda>value m1. Inr (Next m1 pc (rt i) value))"
  using assms by (simp add: switch_defs op_defs Let_def)

lemma add_overflow_sign:
  fixes x y :: "32 word"
  shows "((x XOR y) AND SIGN_BIT = 0 \<and> (x XOR (x + y)) AND SIGN_BIT \<noteq> 0) \<longleftrightarrow>
      \<not> (- (2 ^ 31) \<le> sint x + sint y \<and> sint x + sint y < 2 ^ 31)"
    and "((x XOR y) AND SIGN_BIT = 0 \<and> (y XOR (x + y)) AND SIGN_BIT \<noteq> 0) \<longleftrightarrow>
      \<not> (- (2 ^ 31) \<le> sint x + sint y \<and> sint x + sint y < 2 ^ 31)"
    and "((x XOR y) AND SIGN_BIT \<noteq> 0 \<and> (x XOR (x - y)) AND SIGN_BIT \<noteq> 0) \<longleftrightarrow>
      \<not> (- (2 ^ 31) \<le> sint x - sint y \<and> sint x - sint y < 2 ^ 31)"
proof -
  have a: "x + y = word_of_int (sint x + sint y)" "x - y = word_of_int (sint x - sint y)"
    by (simp_all add: wi_hom_syms)
  note b = sint32_bounds [of x] sint32_bounds [of y]
  have s: "sint (x + y) = (if sint x + sint y < - (2 ^ 31) then sint x + sint y + 2 ^ 32
      else if sint x + sint y < 2 ^ 31 then sint x + sint y else sint x + sint y - 2 ^ 32)"
    by (rule sint_wrap32 [OF a(1)]) (use b in auto)
  have d: "sint (x - y) = (if sint x - sint y < - (2 ^ 31) then sint x - sint y + 2 ^ 32
      else if sint x - sint y < 2 ^ 31 then sint x - sint y else sint x - sint y - 2 ^ 32)"
    by (rule sint_wrap32 [OF a(2)]) (use b in auto)
  have z: "(x XOR y) AND SIGN_BIT = 0 \<longleftrightarrow> (sint x < 0) = (sint y < 0)" using sign_bit_xor [of x y] by blast
  show "((x XOR y) AND SIGN_BIT = 0 \<and> (x XOR (x + y)) AND SIGN_BIT \<noteq> 0) \<longleftrightarrow>
      \<not> (- (2 ^ 31) \<le> sint x + sint y \<and> sint x + sint y < 2 ^ 31)"
    "((x XOR y) AND SIGN_BIT = 0 \<and> (y XOR (x + y)) AND SIGN_BIT \<noteq> 0) \<longleftrightarrow>
      \<not> (- (2 ^ 31) \<le> sint x + sint y \<and> sint x + sint y < 2 ^ 31)"
    "((x XOR y) AND SIGN_BIT \<noteq> 0 \<and> (x XOR (x - y)) AND SIGN_BIT \<noteq> 0) \<longleftrightarrow>
      \<not> (- (2 ^ 31) \<le> sint x - sint y \<and> sint x - sint y < 2 ^ 31)"
    unfolding z sign_bit_xor s d using b by auto
qed

definition fits32 :: "int \<Rightarrow> bool" where
  "fits32 n \<longleftrightarrow> - (2 ^ 31) \<le> n \<and> n < 2 ^ 31"

lemma word_cat_dword: "word_cat hi lo = dword hi lo"
  by (simp add: word_cat_eq dword_def push_bit_eq_mult wi_hom_syms)

lemma sint64_small: "- (2 ^ 63) \<le> n \<Longrightarrow> n < 2 ^ 63 \<Longrightarrow> sint (word_of_int n :: 64 word) = n"
  by (simp add: sint_sbintrunc' signed_take_bit_int_eq_self)

lemma sint_product_bounds:
  "- (2 ^ 63) \<le> sint (a :: 32 word) * sint (b :: 32 word)" "sint a * sint b < 2 ^ 63"
proof -
  have ab: "\<bar>sint a\<bar> \<le> 2 ^ 31" "\<bar>sint b\<bar> \<le> 2 ^ 31" using sint32_bounds [of a] sint32_bounds [of b] by auto
  have "\<bar>sint a * sint b\<bar> \<le> 2 ^ 31 * 2 ^ 31" unfolding abs_mult by (intro mult_mono ab) auto
  then show "- (2 ^ 63) \<le> sint a * sint b" "sint a * sint b < 2 ^ 63" by auto
qed

lemma uint_product_bound: "uint (a :: 32 word) * uint (b :: 32 word) < 2 ^ 64"
proof -
  have "uint a * uint b \<le> (2 ^ 32 - 1) * (2 ^ 32 - 1)"
    using uint32_bounds [of a] uint32_bounds [of b] by (intro mult_mono) auto
  then show ?thesis by simp
qed

text \<open>The sample machine with \<^verbatim>\<open>lw $2, 8($1)\<close> at virtual address 0 and the word 42 at address 8.\<close>

definition demo_lw :: hw where
  "demo_lw = demo_hw\<lparr>mainMemory := (\<lambda>_. 0)(1536 := 0x08, 1538 := 0x22, 1539 := 0x8c, 1544 := 42),
     registers := (\<lambda>_. 0)(NextPCReg := 4)\<rparr>"

section \<open>Properties\<close>

text \<open>
  C19: multiplication.  The bit-by-bit routine \<^verbatim>\<open>Mult\<close> leaves in the pair (Hi, Lo) the exact 64-bit
  product of its arguments: of their signed values when called for \<^verbatim>\<open>OP_MULT\<close>, of their unsigned
  values when called for \<^verbatim>\<open>OP_MULTU\<close>, for all 2^64 pairs of operands.
\<close>

theorem Mult_is_product:
  "(case Mult a b True of (hi, lo) \<Rightarrow> sint (word_cat hi lo :: 64 word) = sint a * sint b) \<and>
   (case Mult a b False of (hi, lo) \<Rightarrow> uint (word_cat hi lo :: 64 word) = uint a * uint b)"
proof -
  have "sint (word_cat hi lo :: 64 word) = sint a * sint b" if "Mult a b True = (hi, lo)" for hi lo
    using Mult_dword [OF that] sint64_small [OF sint_product_bounds]
    unfolding word_cat_dword by (simp only: if_True)
  moreover have "uint (word_cat hi lo :: 64 word) = uint a * uint b" if "Mult a b False = (hi, lo)" for hi lo
  proof -
    have "uint (word_cat hi lo :: 64 word) = take_bit 64 (uint a * uint b)"
      using Mult_dword [OF that] unfolding word_cat_dword by (simp only: if_False uint_word_of_int_eq) simp
    also have "\<dots> = uint a * uint b"
      using uint_product_bound [of a b] by (intro take_bit_int_eq_self) auto
    finally show ?thesis .
  qed
  ultimately show ?thesis by (simp split: prod.split)
qed

text \<open>
  C20: decoding is total.  For every 32-bit word, \<^verbatim>\<open>Instruction::Decode\<close> yields register numbers
  below 32 and an operation that some case of the switch in \<^verbatim>\<open>Machine::OneInstruction\<close> handles: the
  default case, \<^verbatim>\<open>ASSERT(FALSE)\<close>, is unreachable, whatever a user program executes.
\<close>

theorem Decode_total:
  "rs (Instruction_Decode v) < NumGPRegs \<and> rt (Instruction_Decode v) < NumGPRegs \<and>
   rd (Instruction_Decode v) < NumGPRegs \<and>
   first_part (map (\<lambda>f m. f eh (Instruction_Decode v) pc m) switch_parts) m \<noteq> None"
  using Decode_regs [of v] execute_cases [OF Decode_opCode, of eh v pc m] by (simp add: NumGPRegs_def)

text \<open>
  C21: overflow detection.  \<^verbatim>\<open>OP_ADD\<close>, \<^verbatim>\<open>OP_ADDI\<close> and \<^verbatim>\<open>OP_SUB\<close> raise \<^verbatim>\<open>OverflowException\<close> exactly when the
  true signed sum or difference does not fit into 32 bits, and otherwise store it in the
  destination register and continue at \<^verbatim>\<open>pcAfter\<close>: the sign-bit tests of the code are right.
\<close>

theorem signed_overflow_traps:
  fixes m :: "'z hw_scheme" and i :: Instruction
  defines "x \<equiv> sint (registers m (rs i))" and "y \<equiv> sint (registers m (rt i))"
  shows "(opCode i = OP_ADD \<longrightarrow> execute eh i pcAfter m =
      (if fits32 (x + y) then Inr (Next (set_reg (rd i) (word_of_int (x + y)) m) pcAfter 0 0)
       else trap eh OverflowException 0 m)) \<and>
    (opCode i = OP_ADDI \<longrightarrow> execute eh i pcAfter m =
      (if fits32 (x + sint (extra i)) then Inr (Next (set_reg (rt i) (word_of_int (x + sint (extra i))) m) pcAfter 0 0)
       else trap eh OverflowException 0 m)) \<and>
    (opCode i = OP_SUB \<longrightarrow> execute eh i pcAfter m =
      (if fits32 (x - y) then Inr (Next (set_reg (rd i) (word_of_int (x - y)) m) pcAfter 0 0)
       else trap eh OverflowException 0 m))"
proof -
  let ?x = "registers m (rs i)" and ?y = "registers m (rt i)"
  have w: "word_of_int (x + y) = ?x + ?y" "word_of_int (x + sint (extra i)) = ?x + extra i"
    "word_of_int (x - y) = ?x - ?y" by (simp_all add: x_def y_def wi_hom_syms)
  note o = add_overflow_sign [of ?x ?y, folded fits32_def x_def y_def]
    add_overflow_sign [of ?x "extra i", folded fits32_def x_def]
  have "execute eh i pcAfter m = (if \<not> fits32 (x + y) then trap eh OverflowException 0 m
      else Inr (Next (set_reg (rd i) (?x + ?y) m) pcAfter 0 0))" if "opCode i = OP_ADD"
    unfolding o(1) [symmetric] using that by (simp add: switch_defs op_defs Let_def)
  moreover have "execute eh i pcAfter m = (if \<not> fits32 (x + sint (extra i)) then trap eh OverflowException 0 m
      else Inr (Next (set_reg (rt i) (?x + extra i) m) pcAfter 0 0))" if "opCode i = OP_ADDI"
    unfolding o(5) [symmetric] using that by (simp add: switch_defs op_defs Let_def)
  moreover have "execute eh i pcAfter m = (if \<not> fits32 (x - y) then trap eh OverflowException 0 m
      else Inr (Next (set_reg (rd i) (?x - ?y) m) pcAfter 0 0))" if "opCode i = OP_SUB"
    unfolding o(3) [symmetric] using that by (simp add: switch_defs op_defs Let_def)
  ultimately show ?thesis unfolding w by simp
qed

theorem signed_overflow_traps_witness:
  "execute (\<lambda>_. Inr) \<lparr>ivalue = 0, opCode = OP_ADDI, rs = 1, rt = 2, rd = 0, extra = 5\<rparr> 8 demo_hw =
     Inr (Next (set_reg 2 5 demo_hw) 8 0 0)"
  using signed_overflow_traps [of "\<lparr>ivalue = 0, opCode = OP_ADDI, rs = 1, rt = 2, rd = 0, extra = 5\<rparr>"
      "\<lambda>_. Inr" 8 demo_hw]
  by (simp add: fits32_def demo_hw_def)

text \<open>
  C22: the load delay slot.  A successful \<^verbatim>\<open>OP_LW\<close> does not change its target register yet: after the
  instruction the general registers are those before it, with the load that was in progress
  completed; the loaded word and its target wait in \<^verbatim>\<open>LoadValueReg\<close> and \<^verbatim>\<open>LoadReg\<close>, and the
  program counters have advanced by one instruction.
\<close>

theorem LW_delayed:
  assumes "pt_mode p t m" "cpu_ok m" "xlate t (registers m PCReg) 4 False = Inr pc"
    "i = Instruction_Decode (load32 (mainMemory m) pc)" "opCode i = OP_LW"
    "xlate t (registers m (rs i) + extra i) 4 False = Inr q"
  shows "\<exists>m'. Machine_OneInstruction eh m = Inr m' \<and>
    (\<forall>n < NumGPRegs. registers m' n = (if n = 0 then 0
       else if n = unat (registers m LoadReg) then registers m LoadValueReg else registers m n)) \<and>
    registers m' LoadReg = of_nat (rt i) \<and> registers m' LoadValueReg = load32 (mainMemory m) q \<and>
    registers m' PCReg = registers m NextPCReg \<and> registers m' NextPCReg = registers m NextPCReg + 4 \<and>
    mainMemory m' = mainMemory m"
proof -
  let ?a = "registers m (rs i) + extra i"
  from Machine_ReadMem_ok [OF assms(1) _ assms(3), of eh] obtain t1 m1 where
    m1: "Machine_ReadMem eh (registers m PCReg) 4 m = Inr (Some (load32 (mainMemory m) pc), m1)"
    "pt_mode p t1 m1" "same_map t t1" "mainMemory m1 = mainMemory m" "registers m1 = registers m"
    by (auto simp: get_mem_def)
  have x: "xlate t1 ?a 4 False = Inr q" using assms(6) same_map_xlate [OF m1(3)] by simp
  from Machine_ReadMem_ok [OF m1(2) _ x, of eh] obtain m2 where
    m2: "Machine_ReadMem eh ?a 4 m1 = Inr (Some (load32 (mainMemory m) q), m2)"
      "mainMemory m2 = mainMemory m" "registers m2 = registers m"
    by (auto simp: get_mem_def m1)
  have "\<not> misaligned ?a 4" using assms(6) by (auto simp: xlate_def Let_def split: if_splits)
  then have al: "?a AND 0x3 = 0" using misaligned_word [of 4 ?a] by simp
  have "execute eh i (registers m NextPCReg + 4) m1 =
      Inr (Next m2 (registers m NextPCReg + 4) (rt i) (load32 (mainMemory m) q))"
    using execute_LW [OF assms(5), of m1] al m2(1) by (simp add: with_read_def m1(5))
  moreover have "uint (registers m2 LoadReg) < 32" using assms(2) m2(3) by (simp add: cpu_ok_def)
  from DelayedLoad_ok [OF this] have "Machine_DelayedLoad nr nv m2 = Inr (m2\<lparr>registers :=
      (((registers m)(unat (registers m LoadReg) := registers m LoadValueReg))
        (LoadReg := nr, LoadValueReg := nv))(0 := 0)\<rparr>)" for nr nv by (simp only: m2(3))
  moreover have "unat (registers m LoadReg) < 32"
    using assms(2) by (simp add: cpu_ok_def unat_eq_nat_uint nat_less_iff del: nat_uint_eq)
  ultimately show ?thesis
    using m1(1,5) m2(2) assms(4)
    by (auto simp: Machine_OneInstruction_def commit_def set_reg_def reg_defs Let_def)
qed

theorem LW_delayed_witness:
  "pt_mode 0 demo_pt demo_lw \<and> cpu_ok demo_lw \<and>
   (\<exists>m'. Machine_OneInstruction (\<lambda>_. Inr) demo_lw = Inr m' \<and> registers m' 2 = 0 \<and>
     registers m' LoadReg = 2 \<and> registers m' LoadValueReg = 42 \<and> registers m' PCReg = 4)"
proof -
  have pt: "pt_mode 0 demo_pt demo_lw" using demo_pt_mode by (simp add: pt_mode_def demo_lw_def)
  have ok: "cpu_ok demo_lw" by (simp add: cpu_ok_def demo_lw_def demo_hw_def reg_defs)
  have x1: "xlate demo_pt (registers demo_lw PCReg) 4 False = Inr 1536"
    by (simp add: demo_lw_def demo_hw_def xlate_def misaligned_def demo_pt_def nachos_defs Let_def)
  have w: "load32 (mainMemory demo_lw) 1536 = 0x8C220008" by (simp add: demo_lw_def load32_def)
  have f: "rs (Instruction_Decode 0x8C220008) = 1" "extra (Instruction_Decode 0x8C220008) = 8"
    "rt (Instruction_Decode 0x8C220008) = 2" "opCode (Instruction_Decode 0x8C220008) = OP_LW"
    by code_simp+
  have x2: "xlate demo_pt (registers demo_lw (rs (Instruction_Decode 0x8C220008)) +
      extra (Instruction_Decode 0x8C220008)) 4 False = Inr 1544"
    unfolding f
    by (simp add: demo_lw_def demo_hw_def xlate_def misaligned_def demo_pt_def nachos_defs Let_def)
  have l: "load32 (mainMemory demo_lw) 1544 = 42" by (simp add: demo_lw_def load32_def)
  from LW_delayed [OF pt ok x1 refl, unfolded w, OF f(4) x2, of "\<lambda>_. Inr"] pt ok show ?thesis
    unfolding f l by (auto simp: reg_defs demo_lw_def demo_hw_def)
qed

section \<open>Two operations that differ from the architecture\<close>

text \<open>\<^verbatim>\<open>OP_OR\<close> copies \<^verbatim>\<open>rs\<close> and ignores \<^verbatim>\<open>rt\<close>.\<close>

lemma OR_ignores_rt:
  "opCode i = OP_OR \<Longrightarrow>
   execute eh i pcAfter m = Inr (Next (set_reg (rd i) (registers m (rs i)) m) pcAfter 0 0)"
  by (simp add: switch_defs op_defs Let_def)

text \<open>The logical shift \<^verbatim>\<open>OP_SRL\<close> shifts in the sign bit, as \<^verbatim>\<open>OP_SRA\<close> does.\<close>

lemma SRL_is_SRA:
  "opCode i = OP_SRL \<Longrightarrow> execute eh i pcAfter m = execute eh (i\<lparr>opCode := OP_SRA\<rparr>) pcAfter m"
  by (simp add: switch_defs op_defs Let_def)

end
