(* ===== verification/Interrupts.thy ===== *)
theory Interrupts
  imports Machine
begin

text \<open>
  The interrupt hardware, \<^verbatim>\<open>machine/interrupt.cc\<close>, and the timer device, \<^verbatim>\<open>machine/timer.cc\<close>.
  Simulated time only advances in \<^verbatim>\<open>OneTick\<close> and \<^verbatim>\<open>Idle\<close>, which also deliver the interrupts that
  have become due.  What a device does on its interrupt is the argument \<open>call\<close>, the call through
  the function pointer of a \<^verbatim>\<open>PendingInterrupt\<close>; \<open>yield\<close> is \<^verbatim>\<open>currentThread->Yield()\<close>.  The locale
  \<open>device_handlers\<close> is the contract the devices owe to the interrupt hardware.
\<close>

section \<open>Operations\<close>

type_synonym 'z devices = "IntHandler \<Rightarrow> 'z hw_scheme \<Rightarrow> 'z hw_scheme result"

text \<open>\<^verbatim>\<open>Interrupt::Interrupt\<close>\<close>

definition Interrupt_new :: "'z hw_scheme \<Rightarrow> 'z hw_scheme" where
  "Interrupt_new m = m\<lparr>level := IntOff, pending := [], inHandler := False, yieldOnReturn := False,
     status := SystemMode\<rparr>"

definition Interrupt_ChangeLevel :: "IntStatus \<Rightarrow> IntStatus \<Rightarrow> 'z hw_scheme \<Rightarrow> 'z hw_scheme" where
  "Interrupt_ChangeLevel old now m = m\<lparr>level := now\<rparr>"

definition Interrupt_YieldOnReturn :: "'z hw_scheme \<Rightarrow> 'z hw_scheme result" where
  "Interrupt_YieldOnReturn m =
     bind_r (ASSERT (inHandler m)) (\<lambda>_. Inr (m\<lparr>yieldOnReturn := True\<rparr>))"

definition Interrupt_Schedule :: "IntHandler \<Rightarrow> int \<Rightarrow> IntType \<Rightarrow> 'z hw_scheme \<Rightarrow> 'z hw_scheme result" where
  "Interrupt_Schedule hdlr fromNow type m =
     (let when' = totalTicks (stats m) + fromNow; toOccur = PendingInterrupt_new hdlr when' type in
      bind_r (ASSERT (fromNow > 0)) (\<lambda>_.
      bind_r (seq_insert (Some toOccur) when' (pending m)) (\<lambda>ps. Inr (m\<lparr>pending := ps\<rparr>))))"

text \<open>The tail of \<^verbatim>\<open>CheckIfDue\<close>: run the handler of the interrupt in system mode.\<close>

definition invoke_handler :: "'z devices \<Rightarrow> PendingInterrupt \<Rightarrow> MachineStatus \<Rightarrow> 'z hw_scheme \<Rightarrow>
    (bool \<times> 'z hw_scheme) result" where
  "invoke_handler call toOccur old m =
     bind_r (Machine_DelayedLoad 0 0 m) (\<lambda>m1.
     bind_r (call (pi_handler toOccur) (m1\<lparr>inHandler := True, status := SystemMode\<rparr>)) (\<lambda>m2.
     Inr (True, m2\<lparr>status := old, inHandler := False\<rparr>)))"

definition Interrupt_CheckIfDue :: "'z devices \<Rightarrow> bool \<Rightarrow> 'z hw_scheme \<Rightarrow> (bool \<times> 'z hw_scheme) result" where
  "Interrupt_CheckIfDue call advanceClock m =
     bind_r (ASSERT (level m = IntOff)) (\<lambda>_.
     bind_r (seq_remove (pending m)) (\<lambda>((toOccur, key), ps).
       case toOccur of None \<Rightarrow> Inr (False, m\<lparr>pending := ps\<rparr>)
       | Some p \<Rightarrow>
         (let due = the key; m1 = m\<lparr>pending := ps\<rparr>; now = totalTicks (stats m);
              put_back = (\<lambda>m. bind_r (seq_insert (Some p) due (pending m)) (\<lambda>qs.
                Inr (False, m\<lparr>pending := qs\<rparr>)))
          in if advanceClock = False \<and> due > now then put_back m1
             else
               let m2 = (if due > now
                         then m1\<lparr>stats := (stats m)\<lparr>idleTicks := idleTicks (stats m) + (due - now), totalTicks := due\<rparr>\<rparr>
                         else m1)
               in if status m = IdleMode \<and> pi_type p = TimerInt \<and> pending m2 = [] then put_back m2
                  else invoke_handler call p (status m) m2)))"

text \<open>\<^verbatim>\<open>while (CheckIfDue(FALSE));\<close>\<close>

fun check_loop :: "nat \<Rightarrow> 'z devices \<Rightarrow> 'z hw_scheme \<Rightarrow> 'z hw_scheme result" where
  "check_loop 0 call m = Inl Diverges"
| "check_loop (Suc n) call m =
     bind_r (Interrupt_CheckIfDue call False m) (\<lambda>(fired, m1).
       if fired then check_loop n call m1 else Inr m1)"

text \<open>
  A pass delivers every interrupt that is due; a handler can only schedule later ones, so one
  more pass than there are pending interrupts is enough.
\<close>

definition check_all :: "'z devices \<Rightarrow> 'z hw_scheme \<Rightarrow> 'z hw_scheme result" where
  "check_all call m = check_loop (Suc (length (pending m))) call m"

definition advance_time :: "'z hw_scheme \<Rightarrow> 'z hw_scheme" where
  "advance_time m = (let s = stats m in
     if status m = SystemMode
     then m\<lparr>stats := s\<lparr>totalTicks := totalTicks s + SystemTick, systemTicks := systemTicks s + SystemTick\<rparr>\<rparr>
     else m\<lparr>stats := s\<lparr>totalTicks := totalTicks s + UserTick, userTicks := userTicks s + UserTick\<rparr>\<rparr>)"

definition Interrupt_OneTick ::
  "'z devices \<Rightarrow> ('z hw_scheme \<Rightarrow> 'z hw_scheme result) \<Rightarrow> 'z hw_scheme \<Rightarrow> 'z hw_scheme result" where
  "Interrupt_OneTick call yield m =
     bind_r (check_all call (Interrupt_ChangeLevel IntOn IntOff (advance_time m))) (\<lambda>m1.
     let m2 = Interrupt_ChangeLevel IntOff IntOn m1 in
     if yieldOnReturn m2
     then bind_r (yield (m2\<lparr>yieldOnReturn := False, status := SystemMode\<rparr>)) (\<lambda>m3.
            Inr (m3\<lparr>status := status m\<rparr>))
     else Inr m2)"

definition Interrupt_SetLevel :: "'z devices \<Rightarrow> ('z hw_scheme \<Rightarrow> 'z hw_scheme result) \<Rightarrow> IntStatus \<Rightarrow>
    'z hw_scheme \<Rightarrow> (IntStatus \<times> 'z hw_scheme) result" where
  "Interrupt_SetLevel call yield now m =
     (let old = level m in
      bind_r (ASSERT (now = IntOff \<or> \<not> inHandler m)) (\<lambda>_.
      let m1 = Interrupt_ChangeLevel old now m in
      if now = IntOn \<and> old = IntOff
      then bind_r (Interrupt_OneTick call yield m1) (\<lambda>m2. Inr (old, m2))
      else Inr (old, m1)))"

definition Interrupt_Enable :: "'z devices \<Rightarrow> ('z hw_scheme \<Rightarrow> 'z hw_scheme result) \<Rightarrow> 'z hw_scheme \<Rightarrow>
    'z hw_scheme result" where
  "Interrupt_Enable call yield m =
     bind_r (Interrupt_SetLevel call yield IntOn m) (\<lambda>(_, m1). Inr m1)"

definition Interrupt_Halt :: "'z hw_scheme \<Rightarrow> 'z hw_scheme result" where
  "Interrupt_Halt m = Inl MachineHalt"

definition Interrupt_Idle :: "'z devices \<Rightarrow> 'z hw_scheme \<Rightarrow> 'z hw_scheme result" where
  "Interrupt_Idle call m =
     bind_r (Interrupt_CheckIfDue call True (m\<lparr>status := IdleMode\<rparr>)) (\<lambda>(fired, m1).
       if fired
       then bind_r (check_all call m1) (\<lambda>m2. Inr (m2\<lparr>yieldOnReturn := False, status := SystemMode\<rparr>))
       else Interrupt_Halt m1)"

section \<open>The timer device\<close>

definition Random :: "'z hw_scheme \<Rightarrow> int \<times> 'z hw_scheme" where
  "Random m = (rand_seq m (rand_pos m), m\<lparr>rand_pos := Suc (rand_pos m)\<rparr>)"

definition Timer_TimeOfNextInterrupt :: "'z hw_scheme \<Rightarrow> int \<times> 'z hw_scheme" where
  "Timer_TimeOfNextInterrupt m =
     (if randomize m then (case Random m of (r, m1) \<Rightarrow> (1 + c_mod r (TimerTicks * 2), m1))
      else (TimerTicks, m))"

definition Timer_new :: "bool \<Rightarrow> 'z hw_scheme \<Rightarrow> 'z hw_scheme result" where
  "Timer_new doRandom m =
     (case Timer_TimeOfNextInterrupt (m\<lparr>randomize := doRandom\<rparr>) of (t, m1) \<Rightarrow>
        Interrupt_Schedule TimerHandler t TimerInt m1)"

text \<open>\<^verbatim>\<open>TimerInterruptHandler\<close> of \<^verbatim>\<open>threads/system.cc\<close>, the routine the kernel installs.\<close>

definition TimerInterruptHandler :: "'z hw_scheme \<Rightarrow> 'z hw_scheme result" where
  "TimerInterruptHandler m = (if status m \<noteq> IdleMode then Interrupt_YieldOnReturn m else Inr m)"

definition Timer_TimerExpired :: "'z hw_scheme \<Rightarrow> 'z hw_scheme result" where
  "Timer_TimerExpired m =
     (case Timer_TimeOfNextInterrupt m of (t, m1) \<Rightarrow>
        bind_r (Interrupt_Schedule TimerHandler t TimerInt m1) TimerInterruptHandler)"

section \<open>The queue of pending interrupts\<close>

definition due :: "'z hw_scheme \<Rightarrow> (int \<times> PendingInterrupt option) list" where
  "due m = filter (\<lambda>e. fst e \<le> totalTicks (stats m)) (pending m)"

text \<open>The queue is sorted by time, and every entry is a real interrupt filed under its time.\<close>

definition pending_ok :: "'z hw_scheme \<Rightarrow> bool" where
  "pending_ok m \<longleftrightarrow> sorted (map fst (pending m)) \<and>
     (\<forall>(k, x) \<in> set (pending m). \<exists>p. x = Some p \<and> pi_when p = k)"

text \<open>Only handlers of devices that exist are on the queue.\<close>

definition handlers_in :: "(IntHandler \<Rightarrow> bool) \<Rightarrow> 'z hw_scheme \<Rightarrow> bool" where
  "handlers_in inst m \<longleftrightarrow> (\<forall>(k, x) \<in> set (pending m). \<forall>p. x = Some p \<longrightarrow> inst (pi_handler p))"

definition same_ticks :: "'z hw_scheme \<Rightarrow> 'z hw_scheme \<Rightarrow> bool" where
  "same_ticks m m' \<longleftrightarrow> totalTicks (stats m') = totalTicks (stats m) \<and>
     idleTicks (stats m') = idleTicks (stats m) \<and> systemTicks (stats m') = systemTicks (stats m) \<and>
     userTicks (stats m') = userTicks (stats m)"

lemma same_ticks_refl [simp]: "same_ticks m m"
  by (simp add: same_ticks_def)

lemma same_ticks_trans: "same_ticks m m1 \<Longrightarrow> same_ticks m1 m2 \<Longrightarrow> same_ticks m m2"
  by (simp add: same_ticks_def)

lemma set_ins_key [simp]: "set (ins_key k x xs) = insert (k, x) (set xs)"
proof -
  have "set_mset (mset (ins_key k x xs)) = set_mset (add_mset (k, x) (mset xs))" by simp
  then show ?thesis by (simp only: set_mset_add_mset_insert set_mset_mset)
qed

lemma filter_ins_key_later:
  "\<not> P (k, x) \<Longrightarrow> filter P (ins_key k x xs) = filter P xs"
  unfolding ins_key_def by (metis filter.simps(2) filter_append takeWhile_dropWhile_id)

text \<open>\<^verbatim>\<open>Interrupt::Schedule\<close>\<close>

lemma Schedule_ok:
  assumes "pending_ok m" "0 < t"
  shows "\<exists>m'. Interrupt_Schedule h t ty m = Inr m' \<and> m' = m\<lparr>pending := pending m'\<rparr> \<and> pending_ok m' \<and>
    mset (pending m') = add_mset (totalTicks (stats m) + t,
      Some (PendingInterrupt_new h (totalTicks (stats m) + t) ty)) (mset (pending m)) \<and> due m' = due m"
  using assms
  by (auto simp: Interrupt_Schedule_def Let_def seq_insert_def pending_ok_def due_def sorted_ins_key
      filter_ins_key_later PendingInterrupt_new_def)

lemma Schedule_not_future: "t \<le> 0 \<Longrightarrow> Interrupt_Schedule h t ty m = Inl AssertFail"
  by (simp add: Interrupt_Schedule_def Let_def)

text \<open>The timer asks for its next interrupt within twice the average interval.\<close>

lemma TimeOfNextInterrupt_range:
  assumes "\<forall>n. 0 \<le> rand_seq m n" "Timer_TimeOfNextInterrupt m = (t, m')"
  shows "0 < t \<and> t \<le> 2 * TimerTicks"
proof -
  have b: "0 \<le> r mod 200 \<and> r mod 200 < 200" for r :: int by simp
  have "0 < 1 + r mod 200 \<and> 1 + r mod 200 \<le> 200" for r :: int using b [of r] by linarith
  then show ?thesis
    using assms by (auto simp: Timer_TimeOfNextInterrupt_def Random_def nachos_defs split: if_split_asm)
qed

section \<open>Delivery\<close>

locale device_handlers =
  fixes call :: "'z devices" and ok :: "'z hw_scheme \<Rightarrow> bool" and inst :: "IntHandler \<Rightarrow> bool"
  assumes ok_frame:
      "ok (m\<lparr>pending := ps\<rparr>) = ok m" "ok (m\<lparr>status := st\<rparr>) = ok m" "ok (m\<lparr>inHandler := b\<rparr>) = ok m"
      "ok (m\<lparr>level := lv\<rparr>) = ok m" "ok (m\<lparr>stats := sts\<rparr>) = ok m" "ok (m\<lparr>registers := rg\<rparr>) = ok m"
      "ok (m\<lparr>yieldOnReturn := b\<rparr>) = ok m"
    and call_ok: "ok m \<Longrightarrow> inHandler m \<Longrightarrow> status m = SystemMode \<Longrightarrow> level m = IntOff \<Longrightarrow> pending_ok m \<Longrightarrow>
      inst h \<Longrightarrow> handlers_in inst m \<Longrightarrow>
      \<exists>m'. call h m = Inr m' \<and> ok m' \<and> pending_ok m' \<and> handlers_in inst m' \<and> due m' = due m \<and> same_ticks m m' \<and>
        level m' = IntOff \<and> registers m' = registers m"
begin

text \<open>What holds whenever the hardware looks for interrupts.\<close>

definition quiet :: "'z hw_scheme \<Rightarrow> bool" where
  "quiet m \<longleftrightarrow> ok m \<and> cpu_ok m \<and> pending_ok m \<and> handlers_in inst m \<and> level m = IntOff"

lemma invoke_handler_ok:
  assumes "quiet m" "inst (pi_handler p)"
  shows "\<exists>m'. invoke_handler call p old m = Inr (True, m') \<and> quiet m' \<and> due m' = due m \<and>
    same_ticks m m' \<and> status m' = old \<and> \<not> inHandler m'"
proof -
  have "uint (registers m LoadReg) < 32" using assms by (simp add: quiet_def cpu_ok_def)
  from DelayedLoad_ok [OF this, of 0 0] obtain rg where
    d: "Machine_DelayedLoad 0 0 m = Inr (m\<lparr>registers := rg\<rparr>)" "cpu_ok (m\<lparr>registers := rg\<rparr>)"
    by (simp add: cpu_ok_def reg_defs)
  let ?m = "m\<lparr>registers := rg, inHandler := True, status := SystemMode\<rparr>"
  have "ok ?m" "pending_ok ?m" "handlers_in inst ?m"
    using assms by (simp_all add: quiet_def ok_frame pending_ok_def handlers_in_def)
  from call_ok [OF this(1) _ _ _ this(2) assms(2) this(3)] assms(1) obtain m' where
    m': "call (pi_handler p) ?m = Inr m'" "ok m'" "pending_ok m'" "handlers_in inst m'" "due m' = due ?m"
      "same_ticks ?m m'" "level m' = IntOff" "registers m' = rg" by (auto simp: quiet_def)
  then show ?thesis using d
    by (auto simp: invoke_handler_def quiet_def ok_frame cpu_ok_def pending_ok_def handlers_in_def due_def same_ticks_def)
qed

text \<open>Nothing due: the head of the queue is put back and nothing else happens.\<close>

lemma CheckIfDue_none:
  assumes "quiet m" "due m = []"
  shows "\<exists>ps. Interrupt_CheckIfDue call False m = Inr (False, m\<lparr>pending := ps\<rparr>) \<and>
    mset ps = mset (pending m) \<and> quiet (m\<lparr>pending := ps\<rparr>) \<and> due (m\<lparr>pending := ps\<rparr>) = []"
proof (cases "pending m")
  case Nil
  with assms show ?thesis
    by (auto simp: Interrupt_CheckIfDue_def quiet_def seq_remove_def ok_frame pending_ok_def handlers_in_def due_def cpu_ok_def
        intro!: exI [of _ "[]"])
next
  case (Cons e es)
  then obtain p where e: "e = (pi_when p, Some p)" and late: "pi_when p > totalTicks (stats m)"
    using assms by (cases e) (auto simp: quiet_def pending_ok_def due_def split: if_split_asm)
  let ?ps = "ins_key (pi_when p) (Some p) es"
  have "Interrupt_CheckIfDue call False m = Inr (False, m\<lparr>pending := ?ps\<rparr>)"
    using assms(1) Cons e late
    by (simp add: Interrupt_CheckIfDue_def quiet_def seq_remove_def seq_insert_def Let_def)
  moreover have "quiet (m\<lparr>pending := ?ps\<rparr>)"
    using assms(1) Cons e by (auto simp: quiet_def ok_frame pending_ok_def handlers_in_def sorted_ins_key cpu_ok_def)
  moreover have "due (m\<lparr>pending := ?ps\<rparr>) = []"
    using assms(2) Cons e late by (simp add: due_def filter_ins_key_later)
  ultimately show ?thesis using Cons e by auto
qed

text \<open>
  Something due: the earliest interrupt is delivered, unless it is the timer's, the only one, and
  the machine idles.
\<close>

definition only_timer :: "'z hw_scheme \<Rightarrow> bool" where
  "only_timer m \<longleftrightarrow> status m = IdleMode \<and> (\<exists>k p. pending m = [(k, Some p)] \<and> pi_type p = TimerInt)"

lemma CheckIfDue_some:
  assumes "quiet m" "due m = d # ds" "\<not> only_timer m"
  shows "\<exists>m'. Interrupt_CheckIfDue call False m = Inr (True, m') \<and> quiet m' \<and> due m' = ds \<and>
    same_ticks m m' \<and> status m' = status m"
proof -
  obtain e es where es: "pending m = e # es" using assms(2) by (cases "pending m") (auto simp: due_def)
  have hd: "fst e \<le> totalTicks (stats m)"
  proof (rule ccontr)
    assume "\<not> fst e \<le> totalTicks (stats m)"
    moreover have "\<forall>y \<in> set es. fst e \<le> fst y" using assms(1) es by (auto simp: quiet_def pending_ok_def)
    ultimately have "due m = []" using es by (auto simp: due_def filter_empty_conv)
    with assms(2) show False by simp
  qed
  obtain p where e: "e = (pi_when p, Some p)" using assms(1) es
    by (cases e) (auto simp: quiet_def pending_ok_def)
  let ?m = "m\<lparr>pending := es\<rparr>"
  have q: "quiet ?m" using assms(1) es by (auto simp: quiet_def ok_frame pending_ok_def handlers_in_def cpu_ok_def)
  have d: "due ?m = ds" using assms(2) es hd by (simp add: due_def)
  have "\<not> (status m = IdleMode \<and> pi_type p = TimerInt \<and> es = [])"
    using assms(3) es e by (auto simp: only_timer_def)
  then have "Interrupt_CheckIfDue call False m = invoke_handler call p (status m) ?m"
    using assms(1) es e hd by (auto simp: Interrupt_CheckIfDue_def quiet_def seq_remove_def Let_def)
  moreover have "inst (pi_handler p)" using assms(1) es e by (simp add: quiet_def handlers_in_def)
  ultimately show ?thesis using invoke_handler_ok [OF q, of p "status m"] d by (auto simp: same_ticks_def)
qed

lemma CheckIfDue_only_timer:
  assumes "quiet m" "only_timer m" "due m \<noteq> []"
  shows "Interrupt_CheckIfDue call False m = Inr (False, m)"
proof -
  from assms(2) obtain k p where p: "pending m = [(k, Some p)]" "pi_type p = TimerInt" "status m = IdleMode"
    by (auto simp: only_timer_def)
  then have "k \<le> totalTicks (stats m)" using assms(3) by (auto simp: due_def split: if_split_asm)
  moreover have "m\<lparr>pending := [(k, Some p)]\<rparr> = m" using p(1) by (metis hw.surjective hw.update_convs(3))
  ultimately show ?thesis using assms(1) p
    by (simp add: Interrupt_CheckIfDue_def quiet_def seq_remove_def seq_insert_def Let_def ins_key_def)
qed

text \<open>The loop ends, and it ends only when nothing that can be delivered is due any more.\<close>

lemma check_loop_ok:
  assumes "quiet m" "length (due m) < fuel"
  shows "\<exists>m'. check_loop fuel call m = Inr m' \<and> quiet m' \<and> same_ticks m m' \<and> status m' = status m \<and>
    (due m' = [] \<or> only_timer m')"
  using assms
proof (induction fuel arbitrary: m)
  case 0
  then show ?case by simp
next
  case (Suc n)
  show ?case
  proof (cases "due m")
    case Nil
    from CheckIfDue_none [OF Suc.prems(1) Nil] obtain ps where
      "Interrupt_CheckIfDue call False m = Inr (False, m\<lparr>pending := ps\<rparr>)" "quiet (m\<lparr>pending := ps\<rparr>)"
      "due (m\<lparr>pending := ps\<rparr>) = []" by blast
    then show ?thesis by (simp add: same_ticks_def)
  next
    case (Cons d ds)
    show ?thesis
    proof (cases "only_timer m")
      case True
      with CheckIfDue_only_timer [OF Suc.prems(1)] Cons Suc.prems(1) show ?thesis by simp
    next
      case False
      from CheckIfDue_some [OF Suc.prems(1) Cons False] obtain m1 where
        m1: "Interrupt_CheckIfDue call False m = Inr (True, m1)" "quiet m1" "due m1 = ds"
          "same_ticks m m1" "status m1 = status m" by blast
      have "length (due m1) < n" using Suc.prems(2) Cons m1(3) by simp
      from Suc.IH [OF m1(2) this] m1 show ?thesis using same_ticks_trans by fastforce
    qed
  qed
qed

lemma check_all_ok:
  assumes "quiet m"
  shows "\<exists>m'. check_all call m = Inr m' \<and> quiet m' \<and> same_ticks m m' \<and> status m' = status m \<and>
    (due m' = [] \<or> only_timer m')"
proof -
  have "length (due m) < Suc (length (pending m))" by (simp add: due_def less_Suc_eq_le)
  from check_loop_ok [OF assms this] show ?thesis unfolding check_all_def .
qed

text \<open>
  \<^verbatim>\<open>OneTick\<close> without a pending request to yield: it returns with interrupts enabled, the clock
  advanced by one tick of the right kind, and every interrupt that was due delivered.
\<close>

lemma OneTick_ok:
  assumes "ok m" "cpu_ok m" "pending_ok m" "handlers_in inst m" "status m \<noteq> IdleMode"
  shows "\<exists>m1. Interrupt_OneTick call yield m =
      (if yieldOnReturn m1
       then bind_r (yield (m1\<lparr>level := IntOn, yieldOnReturn := False, status := SystemMode\<rparr>))
              (\<lambda>m3. Inr (m3\<lparr>status := status m\<rparr>))
       else Inr (m1\<lparr>level := IntOn\<rparr>)) \<and>
    quiet m1 \<and> due m1 = [] \<and> same_ticks (advance_time m) m1 \<and> status m1 = status m"
proof -
  let ?m = "Interrupt_ChangeLevel IntOn IntOff (advance_time m)"
  have "quiet ?m" using assms
    by (simp add: quiet_def Interrupt_ChangeLevel_def advance_time_def Let_def ok_frame pending_ok_def handlers_in_def cpu_ok_def)
  from check_all_ok [OF this] obtain m1 where
    m1: "check_all call ?m = Inr m1" "quiet m1" "same_ticks ?m m1" "status m1 = status ?m"
      "due m1 = [] \<or> only_timer m1" by blast
  have st: "status m1 = status m" using m1(4) by (simp add: Interrupt_ChangeLevel_def advance_time_def Let_def)
  moreover have "due m1 = []" using m1(5) st assms(5) by (auto simp: only_timer_def)
  moreover have "same_ticks (advance_time m) m1" using m1(3) by (simp add: same_ticks_def Interrupt_ChangeLevel_def)
  ultimately show ?thesis using m1(1,2)
    by (intro exI [of _ m1]) (simp add: Interrupt_OneTick_def Let_def Interrupt_ChangeLevel_def)
qed

text \<open>
  \<^verbatim>\<open>Idle\<close>: with an interrupt pending that is not just the timer's, the clock jumps to the first
  one, that time is accounted as idle, and everything due then is delivered; with none, or only
  the timer's, the machine halts.
\<close>

lemma CheckIfDue_advance:
  assumes "quiet m" "pending m = (k, Some p) # es"
    "\<not> (status m = IdleMode \<and> pi_type p = TimerInt \<and> es = [])"
  shows "\<exists>m'. Interrupt_CheckIfDue call True m = Inr (True, m') \<and> quiet m' \<and> status m' = status m \<and>
    totalTicks (stats m') = max k (totalTicks (stats m)) \<and>
    idleTicks (stats m') = idleTicks (stats m) + (max k (totalTicks (stats m)) - totalTicks (stats m)) \<and>
    systemTicks (stats m') = systemTicks (stats m) \<and> userTicks (stats m') = userTicks (stats m)"
proof -
  let ?now = "totalTicks (stats m)"
  define m2 where "m2 = (if k > ?now
    then m\<lparr>pending := es, stats := (stats m)\<lparr>idleTicks := idleTicks (stats m) + (k - ?now), totalTicks := k\<rparr>\<rparr>
    else m\<lparr>pending := es\<rparr>)"
  have q: "quiet m2"
    using assms(1,2) by (auto simp: quiet_def m2_def ok_frame pending_ok_def handlers_in_def cpu_ok_def)
  have "Interrupt_CheckIfDue call True m = invoke_handler call p (status m) m2"
    using assms by (auto simp: Interrupt_CheckIfDue_def quiet_def seq_remove_def Let_def m2_def)
  moreover have "inst (pi_handler p)" using assms(1,2) by (simp add: quiet_def handlers_in_def)
  ultimately show ?thesis using invoke_handler_ok [OF q, of p "status m"]
    by (auto simp: same_ticks_def m2_def max_def)
qed

lemma Idle_ok:
  assumes "ok m" "cpu_ok m" "pending_ok m" "handlers_in inst m" "level m = IntOff" "pending m = (k, Some p) # es"
    "\<not> (pi_type p = TimerInt \<and> es = [])"
  shows "\<exists>m'. Interrupt_Idle call m = Inr m' \<and> quiet m' \<and> status m' = SystemMode \<and> \<not> yieldOnReturn m' \<and>
    totalTicks (stats m') = max k (totalTicks (stats m)) \<and>
    idleTicks (stats m') = idleTicks (stats m) + (totalTicks (stats m') - totalTicks (stats m)) \<and>
    systemTicks (stats m') = systemTicks (stats m) \<and> userTicks (stats m') = userTicks (stats m)"
proof -
  have "quiet (m\<lparr>status := IdleMode\<rparr>)" using assms(1-5) by (simp add: quiet_def ok_frame pending_ok_def handlers_in_def cpu_ok_def)
  from CheckIfDue_advance [OF this, of k p es] assms(6,7) obtain m1 where
    m1: "Interrupt_CheckIfDue call True (m\<lparr>status := IdleMode\<rparr>) = Inr (True, m1)" "quiet m1"
      "totalTicks (stats m1) = max k (totalTicks (stats m))"
      "idleTicks (stats m1) = idleTicks (stats m) + (max k (totalTicks (stats m)) - totalTicks (stats m))"
      "systemTicks (stats m1) = systemTicks (stats m)" "userTicks (stats m1) = userTicks (stats m)" by auto
  from check_all_ok [OF m1(2)] obtain m2 where
    "check_all call m1 = Inr m2" "quiet m2" "same_ticks m1 m2" by blast
  with m1 show ?thesis
    by (auto simp: Interrupt_Idle_def same_ticks_def quiet_def ok_frame pending_ok_def handlers_in_def cpu_ok_def)
qed

lemma Idle_halts:
  assumes "level m = IntOff" "pending m = [] \<or> (\<exists>k p. pending m = [(k, Some p)] \<and> pi_type p = TimerInt)"
  shows "Interrupt_Idle call m = Inl MachineHalt"
  using assms
  by (auto simp: Interrupt_Idle_def Interrupt_CheckIfDue_def seq_remove_def seq_insert_def Let_def
      Interrupt_Halt_def)

end

end
