(* ===== verification/Threads.thy ===== *)
theory Threads
  imports Interrupts
begin

text \<open>
  Threads, the scheduler and semaphores: \<^verbatim>\<open>threads/thread.cc\<close>, \<^verbatim>\<open>threads/scheduler.cc\<close> and
  \<^verbatim>\<open>threads/synch.cc\<close>.  The kernel's objects live in stores indexed by addresses.

  \<^verbatim>\<open>SWITCH\<close> is written in assembly language; its effect is that the caller stops in the middle of
  \<^verbatim>\<open>Scheduler::Run\<close> and another thread goes on from where it stopped itself.  So \<^verbatim>\<open>Run\<close> is two
  definitions, the code before and the code after the call of \<^verbatim>\<open>SWITCH\<close>, and the saved machine
  state of a thread is the place in the kernel where it will continue.  \<^verbatim>\<open>Run\<close> is only called by
  \<^verbatim>\<open>Yield\<close> and \<^verbatim>\<open>Sleep\<close>, and \<^verbatim>\<open>Sleep\<close> only by \<^verbatim>\<open>P\<close> and \<^verbatim>\<open>Finish\<close>, so there are four such places.

  \<open>setl\<close> stands for \<^verbatim>\<open>interrupt->SetLevel\<close> and \<open>idle\<close> for \<^verbatim>\<open>interrupt->Idle\<close>.
\<close>

section \<open>State\<close>

datatype ThreadStatus = JUST_CREATED | RUNNING | READY | BLOCKED

text \<open>
  Where a thread continues: at the start of \<^verbatim>\<open>ThreadRoot\<close> with its function and argument, in
  \<^verbatim>\<open>Yield\<close> or in the loop of \<^verbatim>\<open>P\<close> on a semaphore, both with the interrupt level to return to, or,
  which never happens, in \<^verbatim>\<open>Finish\<close>.
\<close>

datatype resume = AtRoot nat int | InYield IntStatus | InP nat IntStatus | InFinish

definition STACK_FENCEPOST :: int where "STACK_FENCEPOST = 0xdeadbeef"

text \<open>Of the stack only the word at its limit matters; \<open>None\<close> is the null pointer.\<close>

record Thread =
  thr_name :: string
  thr_stack :: "int option"
  machineState :: "resume option"
  thr_status :: ThreadStatus
  processID :: int
  exitStatus :: int
  userRegisters :: "nat \<Rightarrow> 32 word"
  thr_space :: "nat option"

record Semaphore =
  sem_name :: string
  sem_value :: int
  sem_queue :: "(int \<times> nat option) list"

record AddrSpace =
  as_pageTable :: nat
  as_numPages :: "32 word"

record kern = hw +
  threads :: "nat \<Rightarrow> Thread option"
  thread_brk :: nat
  currentThread :: nat
  threadToBeDestroyed :: "nat option"
  readyList :: "(int \<times> nat option) list"
  semaphores :: "nat \<Rightarrow> Semaphore option"
  sem_brk :: nat
  spaces :: "nat \<Rightarrow> AddrSpace option"
  space_brk :: nat

type_synonym 'z setlevel = "IntStatus \<Rightarrow> 'z kern_scheme \<Rightarrow> (IntStatus \<times> 'z kern_scheme) result"

text \<open>Dereferencing a pointer to an object of the kernel.\<close>

definition obj :: "('k \<Rightarrow> 'v option) \<Rightarrow> 'k \<Rightarrow> 'v result" where
  "obj store p = (case store p of None \<Rightarrow> Inl BadPointer | Some v \<Rightarrow> Inr v)"

lemma obj_Some [simp]: "store p = Some v \<Longrightarrow> obj store p = Inr v"
  and obj_Inr_iff: "obj store p = Inr v \<longleftrightarrow> store p = Some v"
  by (auto simp: obj_def split: option.splits)

definition upd_thread :: "nat \<Rightarrow> (Thread \<Rightarrow> Thread) \<Rightarrow> 'z kern_scheme \<Rightarrow> 'z kern_scheme result" where
  "upd_thread t f k = bind_r (obj (threads k) t) (\<lambda>th. Inr (k\<lparr>threads := (threads k)(t \<mapsto> f th)\<rparr>))"

definition upd_sem :: "nat \<Rightarrow> (Semaphore \<Rightarrow> Semaphore) \<Rightarrow> 'z kern_scheme \<Rightarrow> 'z kern_scheme result" where
  "upd_sem s f k = bind_r (obj (semaphores k) s) (\<lambda>sm. Inr (k\<lparr>semaphores := (semaphores k)(s \<mapsto> f sm)\<rparr>))"

section \<open>Scheduler\<close>

definition Scheduler_new :: "'z kern_scheme \<Rightarrow> 'z kern_scheme" where
  "Scheduler_new k = k\<lparr>readyList := []\<rparr>"

definition Scheduler_ReadyToRun :: "nat \<Rightarrow> 'z kern_scheme \<Rightarrow> 'z kern_scheme result" where
  "Scheduler_ReadyToRun t k =
     bind_r (upd_thread t (\<lambda>th. th\<lparr>thr_status := READY\<rparr>) k) (\<lambda>k1.
     bind_r (seq_append (Some t) (readyList k1)) (\<lambda>l. Inr (k1\<lparr>readyList := l\<rparr>)))"

definition Scheduler_FindNextToRun :: "'z kern_scheme \<Rightarrow> (nat option \<times> 'z kern_scheme) result" where
  "Scheduler_FindNextToRun k =
     bind_r (seq_remove (readyList k)) (\<lambda>((t, _), l). Inr (t, k\<lparr>readyList := l\<rparr>))"

definition Thread_SaveUserState :: "nat \<Rightarrow> 'z kern_scheme \<Rightarrow> 'z kern_scheme result" where
  "Thread_SaveUserState t k =
     for_loop 0 NumTotalRegs (\<lambda>i k.
       bind_r (Machine_ReadRegister (int i) k) (\<lambda>v.
         upd_thread t (\<lambda>th. th\<lparr>userRegisters := (userRegisters th)(i := v)\<rparr>) k)) k"

definition Thread_RestoreUserState :: "nat \<Rightarrow> 'z kern_scheme \<Rightarrow> 'z kern_scheme result" where
  "Thread_RestoreUserState t k =
     for_loop 0 NumTotalRegs (\<lambda>i k.
       bind_r (obj (threads k) t) (\<lambda>th. Machine_WriteRegister (int i) (userRegisters th i) k)) k"

definition Thread_CheckOverflow :: "nat \<Rightarrow> 'z kern_scheme \<Rightarrow> unit result" where
  "Thread_CheckOverflow t k = bind_r (obj (threads k) t) (\<lambda>th.
     case thr_stack th of None \<Rightarrow> Inr () | Some w \<Rightarrow> ASSERT (w = STACK_FENCEPOST))"

text \<open>
  \<^verbatim>\<open>AddrSpace::SaveState\<close> and \<^verbatim>\<open>AddrSpace::RestoreState\<close>.  The first has an empty body and does not
  look at the object: a thread that finishes calls it on its deleted address space.
\<close>

definition AddrSpace_SaveState :: "nat \<Rightarrow> 'z kern_scheme \<Rightarrow> 'z kern_scheme result" where
  "AddrSpace_SaveState sp k = Inr k"

definition AddrSpace_RestoreState :: "nat \<Rightarrow> 'z kern_scheme \<Rightarrow> 'z kern_scheme result" where
  "AddrSpace_RestoreState sp k = bind_r (obj (spaces k) sp) (\<lambda>a.
     Inr (k\<lparr>pageTable := Some (as_pageTable a), pageTableSize := as_numPages a\<rparr>))"

text \<open>The destructor of a thread; its stack is returned to the host.\<close>

definition Thread_delete :: "nat \<Rightarrow> 'z kern_scheme \<Rightarrow> 'z kern_scheme result" where
  "Thread_delete t k =
     bind_r (obj (threads k) t) (\<lambda>_.
     bind_r (ASSERT (t \<noteq> currentThread k)) (\<lambda>_. Inr (k\<lparr>threads := (threads k)(t := None)\<rparr>)))"

text \<open>\<^verbatim>\<open>Scheduler::Run\<close> up to and including \<^verbatim>\<open>SWITCH\<close>: \<open>rp\<close> is where the old thread will continue.\<close>

definition Run_before :: "resume \<Rightarrow> nat \<Rightarrow> 'z kern_scheme \<Rightarrow> 'z kern_scheme result" where
  "Run_before rp nextThread k =
     (let oldThread = currentThread k in
      bind_r (obj (threads k) oldThread) (\<lambda>th.
      bind_r (case thr_space th of None \<Rightarrow> Inr k
              | Some sp \<Rightarrow> bind_r (Thread_SaveUserState oldThread k) (AddrSpace_SaveState sp)) (\<lambda>k1.
      bind_r (Thread_CheckOverflow oldThread k1) (\<lambda>_.
      bind_r (upd_thread nextThread (\<lambda>th. th\<lparr>thr_status := RUNNING\<rparr>) (k1\<lparr>currentThread := nextThread\<rparr>)) (\<lambda>k2.
      upd_thread oldThread (\<lambda>th. th\<lparr>machineState := Some rp\<rparr>) k2)))))"

text \<open>\<^verbatim>\<open>Scheduler::Run\<close> after \<^verbatim>\<open>SWITCH\<close>, executed by a thread that is resumed.\<close>

definition Run_after :: "'z kern_scheme \<Rightarrow> 'z kern_scheme result" where
  "Run_after k =
     bind_r (case threadToBeDestroyed k of None \<Rightarrow> Inr k
             | Some d \<Rightarrow> bind_r (Thread_delete d k) (\<lambda>k1. Inr (k1\<lparr>threadToBeDestroyed := None\<rparr>))) (\<lambda>k1.
     bind_r (obj (threads k1) (currentThread k1)) (\<lambda>th.
       case thr_space th of None \<Rightarrow> Inr k1
       | Some sp \<Rightarrow> bind_r (Thread_RestoreUserState (currentThread k1) k1) (AddrSpace_RestoreState sp)))"

section \<open>Threads\<close>

text \<open>
  The constructor leaves \<^verbatim>\<open>userRegisters\<close> as the allocator returned them; a thread saves them
  before it ever restores them.
\<close>

definition Thread_new :: "string \<Rightarrow> 'z kern_scheme \<Rightarrow> nat \<times> 'z kern_scheme" where
  "Thread_new name k =
     (thread_brk k, k\<lparr>threads := (threads k)(thread_brk k \<mapsto>
        \<lparr>thr_name = name, thr_stack = None, machineState = None, thr_status = JUST_CREATED,
         processID = 0, exitStatus = 0, userRegisters = (\<lambda>_. 0), thr_space = None\<rparr>),
        thread_brk := Suc (thread_brk k)\<rparr>)"

definition Thread_StackAllocate :: "nat \<Rightarrow> nat \<Rightarrow> int \<Rightarrow> 'z kern_scheme \<Rightarrow> 'z kern_scheme result" where
  "Thread_StackAllocate t func arg k =
     upd_thread t (\<lambda>th. th\<lparr>thr_stack := Some STACK_FENCEPOST, machineState := Some (AtRoot func arg)\<rparr>) k"

definition Thread_Fork :: "'z setlevel \<Rightarrow> nat \<Rightarrow> nat \<Rightarrow> int \<Rightarrow> 'z kern_scheme \<Rightarrow> 'z kern_scheme result" where
  "Thread_Fork setl t func arg k =
     bind_r (Thread_StackAllocate t func arg k) (\<lambda>k1.
     bind_r (setl IntOff k1) (\<lambda>(oldLevel, k2).
     bind_r (Scheduler_ReadyToRun t k2) (\<lambda>k3.
     bind_r (setl oldLevel k3) (\<lambda>(_, k4). Inr k4))))"

text \<open>
  \<^verbatim>\<open>Thread::Yield\<close>: the flag tells whether the thread goes on (\<open>True\<close>) or another one was
  switched to (\<open>False\<close>).
\<close>

definition Thread_Yield :: "'z setlevel \<Rightarrow> nat \<Rightarrow> 'z kern_scheme \<Rightarrow> (bool \<times> 'z kern_scheme) result" where
  "Thread_Yield setl this k =
     bind_r (setl IntOff k) (\<lambda>(oldLevel, k1).
     bind_r (ASSERT (this = currentThread k1)) (\<lambda>_.
     bind_r (Scheduler_FindNextToRun k1) (\<lambda>(nextThread, k2).
       case nextThread of
         Some n \<Rightarrow> bind_r (Scheduler_ReadyToRun this k2) (\<lambda>k3.
                   bind_r (Run_before (InYield oldLevel) n k3) (\<lambda>k4. Inr (False, k4)))
       | None \<Rightarrow> bind_r (setl oldLevel k2) (\<lambda>(_, k3). Inr (True, k3)))))"

text \<open>\<^verbatim>\<open>while ((nextThread = scheduler->FindNextToRun()) == NULL) interrupt->Idle();\<close>\<close>

fun sleep_loop :: "nat \<Rightarrow> ('z kern_scheme \<Rightarrow> 'z kern_scheme result) \<Rightarrow> 'z kern_scheme \<Rightarrow>
    (nat \<times> 'z kern_scheme) result" where
  "sleep_loop 0 idle k = Inl Diverges"
| "sleep_loop (Suc n) idle k =
     bind_r (Scheduler_FindNextToRun k) (\<lambda>(nextThread, k1).
       case nextThread of Some t \<Rightarrow> Inr (t, k1) | None \<Rightarrow> bind_r (idle k1) (sleep_loop n idle))"

text \<open>\<^verbatim>\<open>Thread::Sleep\<close>, up to the loop and whole.\<close>

definition Sleep_begin :: "nat \<Rightarrow> 'z kern_scheme \<Rightarrow> 'z kern_scheme result" where
  "Sleep_begin this k =
     bind_r (ASSERT (this = currentThread k)) (\<lambda>_.
     bind_r (ASSERT (level k = IntOff)) (\<lambda>_.
     upd_thread this (\<lambda>th. th\<lparr>thr_status := BLOCKED\<rparr>) k))"

definition Thread_Sleep :: "nat \<Rightarrow> ('z kern_scheme \<Rightarrow> 'z kern_scheme result) \<Rightarrow> resume \<Rightarrow> nat \<Rightarrow>
    'z kern_scheme \<Rightarrow> 'z kern_scheme result" where
  "Thread_Sleep fuel idle rp this k =
     bind_r (Sleep_begin this k) (\<lambda>k1.
     bind_r (sleep_loop fuel idle k1) (\<lambda>(n, k2). Run_before rp n k2))"

definition Thread_Finish :: "nat \<Rightarrow> ('z kern_scheme \<Rightarrow> 'z kern_scheme result) \<Rightarrow> 'z setlevel \<Rightarrow> nat \<Rightarrow>
    'z kern_scheme \<Rightarrow> 'z kern_scheme result" where
  "Thread_Finish fuel idle setl this k =
     bind_r (setl IntOff k) (\<lambda>(_, k1).
     bind_r (ASSERT (this = currentThread k1)) (\<lambda>_.
     Thread_Sleep fuel idle InFinish this (k1\<lparr>threadToBeDestroyed := Some (currentThread k1)\<rparr>)))"

section \<open>Semaphores\<close>

definition Semaphore_new :: "string \<Rightarrow> int \<Rightarrow> 'z kern_scheme \<Rightarrow> nat \<times> 'z kern_scheme" where
  "Semaphore_new debugName initialValue k =
     (sem_brk k, k\<lparr>semaphores := (semaphores k)(sem_brk k \<mapsto>
        \<lparr>sem_name = debugName, sem_value = initialValue, sem_queue = []\<rparr>), sem_brk := Suc (sem_brk k)\<rparr>)"

text \<open>
  The test and the body of the loop of \<^verbatim>\<open>Semaphore::P\<close>, up to the call of \<^verbatim>\<open>Sleep\<close>: either the
  thread takes the semaphore (\<open>True\<close>), or it joins the queue (\<open>False\<close>).
\<close>

definition P_test :: "nat \<Rightarrow> 'z kern_scheme \<Rightarrow> (bool \<times> 'z kern_scheme) result" where
  "P_test s k =
     bind_r (obj (semaphores k) s) (\<lambda>sm.
       if sem_value sm = 0
       then bind_r (seq_append (Some (currentThread k)) (sem_queue sm)) (\<lambda>q.
            bind_r (upd_sem s (\<lambda>sm. sm\<lparr>sem_queue := q\<rparr>) k) (\<lambda>k1. Inr (False, k1)))
       else bind_r (upd_sem s (\<lambda>sm. sm\<lparr>sem_value := sem_value sm - 1\<rparr>) k) (\<lambda>k1. Inr (True, k1)))"

text \<open>
  The loop from the test on.  \<open>False\<close>: another thread runs; when this one is resumed it tests the
  value again.
\<close>

definition P_loop :: "nat \<Rightarrow> ('z kern_scheme \<Rightarrow> 'z kern_scheme result) \<Rightarrow> 'z setlevel \<Rightarrow> nat \<Rightarrow> IntStatus \<Rightarrow>
    'z kern_scheme \<Rightarrow> (bool \<times> 'z kern_scheme) result" where
  "P_loop fuel idle setl s oldLevel k =
     bind_r (P_test s k) (\<lambda>(taken, k1).
       if taken then bind_r (setl oldLevel k1) (\<lambda>(_, k2). Inr (True, k2))
       else bind_r (Thread_Sleep fuel idle (InP s oldLevel) (currentThread k1) k1) (\<lambda>k2. Inr (False, k2)))"

definition Semaphore_P :: "nat \<Rightarrow> ('z kern_scheme \<Rightarrow> 'z kern_scheme result) \<Rightarrow> 'z setlevel \<Rightarrow> nat \<Rightarrow>
    'z kern_scheme \<Rightarrow> (bool \<times> 'z kern_scheme) result" where
  "Semaphore_P fuel idle setl s k =
     bind_r (setl IntOff k) (\<lambda>(oldLevel, k1). P_loop fuel idle setl s oldLevel k1)"

definition Semaphore_V :: "'z setlevel \<Rightarrow> nat \<Rightarrow> 'z kern_scheme \<Rightarrow> 'z kern_scheme result" where
  "Semaphore_V setl s k =
     bind_r (setl IntOff k) (\<lambda>(oldLevel, k1).
     bind_r (obj (semaphores k1) s) (\<lambda>sm.
     bind_r (seq_remove (sem_queue sm)) (\<lambda>((thread, _), q).
     bind_r (upd_sem s (\<lambda>sm. sm\<lparr>sem_queue := q\<rparr>) k1) (\<lambda>k2.
     bind_r (case thread of None \<Rightarrow> Inr k2 | Some t \<Rightarrow> Scheduler_ReadyToRun t k2) (\<lambda>k3.
     bind_r (upd_sem s (\<lambda>sm. sm\<lparr>sem_value := sem_value sm + 1\<rparr>) k3) (\<lambda>k4.
     bind_r (setl oldLevel k4) (\<lambda>(_, k5). Inr k5)))))))"

section \<open>Resuming a thread\<close>

text \<open>
  What the current thread does right after it was switched to.  A new thread starts in
  \<^verbatim>\<open>ThreadRoot\<close> and does not pass through the rest of \<^verbatim>\<open>Run\<close>.
\<close>

definition resume_current :: "nat \<Rightarrow> ('z kern_scheme \<Rightarrow> 'z kern_scheme result) \<Rightarrow> 'z setlevel \<Rightarrow>
    'z kern_scheme \<Rightarrow> (bool \<times> 'z kern_scheme) result" where
  "resume_current fuel idle setl k =
     bind_r (obj (threads k) (currentThread k)) (\<lambda>th.
       case machineState th of
         None \<Rightarrow> Inl BadPointer
       | Some (AtRoot f a) \<Rightarrow> bind_r (setl IntOn k) (\<lambda>(_, k1). Inr (True, k1))
       | Some (InYield oldLevel) \<Rightarrow>
           bind_r (Run_after k) (\<lambda>k1. bind_r (setl oldLevel k1) (\<lambda>(_, k2). Inr (True, k2)))
       | Some (InP s oldLevel) \<Rightarrow> bind_r (Run_after k) (P_loop fuel idle setl s oldLevel)
       | Some InFinish \<Rightarrow> Inl BadPointer)"

section \<open>Starting the kernel\<close>

text \<open>
  The part of \<^verbatim>\<open>Initialize\<close> every kernel runs: counters, interrupts, the scheduler, the timer if
  time slices are random, and the thread object of the main program.
\<close>

definition Initialize_threads :: "'z setlevel \<Rightarrow> bool \<Rightarrow> 'z kern_scheme \<Rightarrow> 'z kern_scheme result" where
  "Initialize_threads setl randomYield k =
     (let k1 = Scheduler_new (Interrupt_new (k\<lparr>stats := Statistics_new\<rparr>)) in
      bind_r (if randomYield then Timer_new randomYield k1 else Inr k1) (\<lambda>k2.
      case Thread_new ''main'' (k2\<lparr>threadToBeDestroyed := None\<rparr>) of (t, k3) \<Rightarrow>
      bind_r (upd_thread t (\<lambda>th. th\<lparr>thr_status := RUNNING\<rparr>) (k3\<lparr>currentThread := t\<rparr>)) (\<lambda>k4.
      bind_r (setl IntOn k4) (\<lambda>(_, k5). Inr k5))))"

end
