(* ===== verification/Thread_System.thy ===== *)
theory Thread_System
  imports Threads
begin

text \<open>
  The kernel as a system of threads: an inductive step relation whose steps are the routines of
  \<open>Threads\<close>, and its invariants.  \<^verbatim>\<open>Interrupt::SetLevel\<close> is a change of the level followed, when it
  turns interrupts on, by \<^verbatim>\<open>OneTick\<close>; every kernel routine calls it last.  So a routine is one step
  with the plain change of level, and what \<^verbatim>\<open>OneTick\<close> can do to threads and semaphores are steps of
  their own: an interrupt handler calls \<^verbatim>\<open>V\<close>, or the time slice of the thread ends and it yields.
  A thread that sleeps while no thread is ready waits in \<^verbatim>\<open>Interrupt::Idle\<close> for such a step.
\<close>

section \<open>Changing the interrupt level\<close>

definition plain_SetLevel :: "IntStatus \<Rightarrow> 'z hw_scheme \<Rightarrow> (IntStatus \<times> 'z hw_scheme) result" where
  "plain_SetLevel now k =
     bind_r (ASSERT (now = IntOff \<or> \<not> inHandler k)) (\<lambda>_. Inr (level k, k\<lparr>level := now\<rparr>))"

lemma SetLevel_plain:
  "Interrupt_SetLevel call yield now m =
     bind_r (plain_SetLevel now m) (\<lambda>(old, m1).
       if now = IntOn \<and> old = IntOff
       then bind_r (Interrupt_OneTick call yield m1) (\<lambda>m2. Inr (old, m2)) else Inr (old, m1))"
  by (simp add: Interrupt_SetLevel_def plain_SetLevel_def Interrupt_ChangeLevel_def Let_def ASSERT_def)

section \<open>Steps\<close>

text \<open>
  The processor runs the current thread, or the current thread looks for another one in \<^verbatim>\<open>Sleep\<close>
  and will continue at the given place, or it has just been switched to.
\<close>

datatype ctl = Running | Sleeping resume | Switched

datatype event = Acquired nat | Released nat | Silent

type_synonym 'z conf = "ctl \<times> 'z kern_scheme"

inductive kstep :: "'z conf \<Rightarrow> event \<Rightarrow> 'z conf \<Rightarrow> bool" where
  P_take: "plain_SetLevel IntOff k = Inr (l, k1) \<Longrightarrow> P_test s k1 = Inr (True, k2) \<Longrightarrow>
    plain_SetLevel l k2 = Inr (l', k3) \<Longrightarrow> kstep (Running, k) (Acquired s) (Running, k3)"
| P_wait: "plain_SetLevel IntOff k = Inr (l, k1) \<Longrightarrow> P_test s k1 = Inr (False, k2) \<Longrightarrow>
    Sleep_begin (currentThread k2) k2 = Inr k3 \<Longrightarrow> kstep (Running, k) Silent (Sleeping (InP s l), k3)"
| V: "Semaphore_V plain_SetLevel s k = Inr k' \<Longrightarrow> kstep (Running, k) (Released s) (Running, k')"
| interrupt_V: "Semaphore_V plain_SetLevel s (k\<lparr>level := IntOff, inHandler := True\<rparr>) = Inr k' \<Longrightarrow>
    c = Running \<and> level k = IntOn \<or> c = Sleeping rp \<Longrightarrow>
    kstep (c, k) (Released s) (c, k'\<lparr>level := level k, inHandler := False\<rparr>)"
| Yield: "Thread_Yield plain_SetLevel (currentThread k) k = Inr (b, k') \<Longrightarrow>
    kstep (Running, k) Silent (if b then Running else Switched, k')"
| Fork: "Thread_new name k = (t, k1) \<Longrightarrow> Thread_Fork plain_SetLevel t f a k1 = Inr k2 \<Longrightarrow>
    kstep (Running, k) Silent (Running, k2)"
| New: "Semaphore_new name v k = (s, k') \<Longrightarrow> 0 \<le> v \<Longrightarrow> kstep (Running, k) Silent (Running, k')"
| Finish: "plain_SetLevel IntOff k = Inr (l, k1) \<Longrightarrow>
    Sleep_begin (currentThread k1) (k1\<lparr>threadToBeDestroyed := Some (currentThread k1)\<rparr>) = Inr k2 \<Longrightarrow>
    kstep (Running, k) Silent (Sleeping InFinish, k2)"
| Switch: "Scheduler_FindNextToRun k = Inr (Some n, k1) \<Longrightarrow> Run_before rp n k1 = Inr k2 \<Longrightarrow>
    kstep (Sleeping rp, k) Silent (Switched, k2)"
| Root: "threads k (currentThread k) = Some th \<Longrightarrow> machineState th = Some (AtRoot f a) \<Longrightarrow>
    plain_SetLevel IntOn k = Inr (l, k1) \<Longrightarrow> kstep (Switched, k) Silent (Running, k1)"
| Resume_Yield: "threads k (currentThread k) = Some th \<Longrightarrow> machineState th = Some (InYield l) \<Longrightarrow>
    Run_after k = Inr k1 \<Longrightarrow> plain_SetLevel l k1 = Inr (l', k2) \<Longrightarrow> kstep (Switched, k) Silent (Running, k2)"
| Resume_P_take: "threads k (currentThread k) = Some th \<Longrightarrow> machineState th = Some (InP s l) \<Longrightarrow>
    Run_after k = Inr k1 \<Longrightarrow> P_test s k1 = Inr (True, k2) \<Longrightarrow> plain_SetLevel l k2 = Inr (l', k3) \<Longrightarrow>
    kstep (Switched, k) (Acquired s) (Running, k3)"
| Resume_P_wait: "threads k (currentThread k) = Some th \<Longrightarrow> machineState th = Some (InP s l) \<Longrightarrow>
    Run_after k = Inr k1 \<Longrightarrow> P_test s k1 = Inr (False, k2) \<Longrightarrow> Sleep_begin (currentThread k2) k2 = Inr k3 \<Longrightarrow>
    kstep (Switched, k) Silent (Sleeping (InP s l), k3)"

inductive ksteps :: "'z conf \<Rightarrow> event list \<Rightarrow> 'z conf \<Rightarrow> bool" where
  no_step: "ksteps c [] c"
| one_more: "ksteps c es c1 \<Longrightarrow> kstep c1 e c2 \<Longrightarrow> ksteps c (es @ [e]) c2"

section \<open>The abstract system\<close>

text \<open>
  What matters to scheduling and synchronisation: the status and the place to continue of each
  thread, the running thread, the one to be deleted, the ready queue, and value and queue of each
  semaphore; the last two fields are the next free addresses of threads and semaphores.
\<close>

record view =
  v_thr :: "nat \<Rightarrow> (ThreadStatus \<times> resume option) option"
  v_cur :: nat
  v_dead :: "nat option"
  v_ready :: "nat option list"
  v_sem :: "nat \<Rightarrow> (int \<times> nat option list) option"
  v_tbrk :: nat
  v_sbrk :: nat

definition view_of :: "'z kern_scheme \<Rightarrow> view" where
  "view_of k = \<lparr>v_thr = (\<lambda>t. map_option (\<lambda>th. (thr_status th, machineState th)) (threads k t)),
     v_cur = currentThread k, v_dead = threadToBeDestroyed k, v_ready = map snd (readyList k),
     v_sem = (\<lambda>s. map_option (\<lambda>sm. (sem_value sm, map snd (sem_queue sm))) (semaphores k s)),
     v_tbrk = thread_brk k, v_sbrk = sem_brk k\<rparr>"

definition set_status :: "ThreadStatus \<Rightarrow> nat \<Rightarrow> view \<Rightarrow> view" where
  "set_status st t v = v\<lparr>v_thr := (v_thr v)(t := map_option (\<lambda>(_, r). (st, r)) (v_thr v t))\<rparr>"

definition set_resume :: "resume \<Rightarrow> nat \<Rightarrow> view \<Rightarrow> view" where
  "set_resume rp t v = v\<lparr>v_thr := (v_thr v)(t := map_option (\<lambda>(st, _). (st, Some rp)) (v_thr v t))\<rparr>"

definition make_ready :: "nat \<Rightarrow> view \<Rightarrow> view" where
  "make_ready t v = (set_status READY t v)\<lparr>v_ready := v_ready v @ [Some t]\<rparr>"

definition switch_to :: "resume \<Rightarrow> nat \<Rightarrow> view \<Rightarrow> view" where
  "switch_to rp n v = set_resume rp (v_cur v) ((set_status RUNNING n v)\<lparr>v_cur := n\<rparr>)"

definition release :: "nat \<Rightarrow> view \<Rightarrow> view" where
  "release s v = (case v_sem v s of None \<Rightarrow> v
     | Some (n, []) \<Rightarrow> v\<lparr>v_sem := (v_sem v)(s \<mapsto> (n + 1, []))\<rparr>
     | Some (n, x # q) \<Rightarrow>
         (case x of None \<Rightarrow> v | Some t \<Rightarrow> make_ready t v)\<lparr>v_sem := (v_sem v)(s \<mapsto> (n + 1, q))\<rparr>)"

definition enqueue :: "nat \<Rightarrow> view \<Rightarrow> view" where
  "enqueue s v = (set_status BLOCKED (v_cur v) v)\<lparr>v_sem := (v_sem v)(s :=
     map_option (\<lambda>(n, q). (n, q @ [Some (v_cur v)])) (v_sem v s))\<rparr>"

definition take_one :: "nat \<Rightarrow> view \<Rightarrow> view" where
  "take_one s v = v\<lparr>v_sem := (v_sem v)(s := map_option (\<lambda>(n, q). (n - 1, q)) (v_sem v s))\<rparr>"

definition reap :: "view \<Rightarrow> view" where
  "reap v = (case v_dead v of None \<Rightarrow> v | Some d \<Rightarrow> v\<lparr>v_thr := (v_thr v)(d := None), v_dead := None\<rparr>)"

definition val_of :: "nat \<Rightarrow> view \<Rightarrow> int option" where
  "val_of s v = map_option fst (v_sem v s)"

definition resume_of :: "view \<Rightarrow> nat \<Rightarrow> resume option" where
  "resume_of v t = Option.bind (v_thr v t) snd"

inductive astep :: "ctl \<times> view \<Rightarrow> event \<Rightarrow> ctl \<times> view \<Rightarrow> bool" where
  A_take: "val_of s v = Some n \<Longrightarrow> n \<noteq> 0 \<Longrightarrow> astep (Running, v) (Acquired s) (Running, take_one s v)"
| A_wait: "val_of s v = Some 0 \<Longrightarrow> astep (Running, v) Silent (Sleeping (InP s l), enqueue s v)"
| A_release: "val_of s v = Some n \<Longrightarrow> c \<noteq> Switched \<Longrightarrow> astep (c, v) (Released s) (c, release s v)"
| A_skip: "v_ready v = [] \<Longrightarrow> astep (Running, v) Silent (Running, v)"
| A_yield: "v_ready v = Some n # r \<Longrightarrow>
    astep (Running, v) Silent (Switched, switch_to (InYield l) n (make_ready (v_cur v) (v\<lparr>v_ready := r\<rparr>)))"
| A_fork: "t = v_tbrk v \<Longrightarrow> astep (Running, v) Silent
    (Running, v\<lparr>v_thr := (v_thr v)(t \<mapsto> (READY, Some (AtRoot f a))), v_ready := v_ready v @ [Some t],
      v_tbrk := Suc t\<rparr>)"
| A_new: "s = v_sbrk v \<Longrightarrow> 0 \<le> n \<Longrightarrow>
    astep (Running, v) Silent (Running, v\<lparr>v_sem := (v_sem v)(s \<mapsto> (n, [])), v_sbrk := Suc s\<rparr>)"
| A_finish: "astep (Running, v) Silent
    (Sleeping InFinish, (set_status BLOCKED (v_cur v) v)\<lparr>v_dead := Some (v_cur v)\<rparr>)"
| A_switch: "v_ready v = Some n # r \<Longrightarrow>
    astep (Sleeping rp, v) Silent (Switched, switch_to rp n (v\<lparr>v_ready := r\<rparr>))"
| A_root: "resume_of v (v_cur v) = Some (AtRoot f a) \<Longrightarrow> astep (Switched, v) Silent (Running, v)"
| A_resume_yield: "resume_of v (v_cur v) = Some (InYield l) \<Longrightarrow> astep (Switched, v) Silent (Running, reap v)"
| A_resume_take: "resume_of v (v_cur v) = Some (InP s l) \<Longrightarrow> val_of s v = Some n \<Longrightarrow> n \<noteq> 0 \<Longrightarrow>
    astep (Switched, v) (Acquired s) (Running, take_one s (reap v))"
| A_resume_wait: "resume_of v (v_cur v) = Some (InP s l) \<Longrightarrow> val_of s v = Some 0 \<Longrightarrow>
    astep (Switched, v) Silent (Sleeping (InP s l), enqueue s (reap v))"

section \<open>The code refines the abstract system\<close>

lemma map_option_upd: "(\<lambda>x. map_option g ((m(t := a)) x)) = (\<lambda>x. map_option g (m x))(t := map_option g a)"
  by auto

lemma map_option_if:
  "(\<lambda>x. map_option g (if x = t then a else m x)) = (\<lambda>x. map_option g (m x))(t := map_option g a)"
  by auto

lemmas view_defs = view_of_def set_status_def set_resume_def make_ready_def switch_to_def enqueue_def
  take_one_def reap_def map_option_upd map_option_if

lemma view_ready: "Scheduler_ReadyToRun t k = Inr k' \<Longrightarrow> view_of k' = make_ready t (view_of k)"
  by (auto simp: Scheduler_ReadyToRun_def upd_thread_def seq_append_def obj_Inr_iff view_defs elim!: bind_r_InrE)

lemma view_level [simp]:
  "view_of (k\<lparr>level := l\<rparr>) = view_of k" "view_of (k\<lparr>inHandler := b\<rparr>) = view_of k"
  by (simp_all add: view_of_def)

lemma view_plain: "plain_SetLevel l k = Inr (l', k') \<Longrightarrow> view_of k' = view_of k"
  by (auto simp: plain_SetLevel_def elim!: bind_r_InrE)

lemma view_next:
  assumes "Scheduler_FindNextToRun k = Inr (x, k')"
  shows "(case x of Some n \<Rightarrow> \<exists>r. v_ready (view_of k) = Some n # r \<and> view_of k' = (view_of k)\<lparr>v_ready := r\<rparr>
    | None \<Rightarrow> (v_ready (view_of k) = [] \<and> view_of k' = view_of k) \<or> None \<in> set (v_ready (view_of k)))"
  using assms
  by (cases "readyList k")
    (auto simp: Scheduler_FindNextToRun_def seq_remove_def view_of_def split: option.splits)

text \<open>Saving and restoring registers does not show.\<close>

lemma view_upd_thread:
  assumes "upd_thread t f k = Inr k'" "\<And>th. thr_status (f th) = thr_status th \<and> machineState (f th) = machineState th"
  shows "view_of k' = view_of k"
proof -
  obtain th where "threads k t = Some th" "k' = k\<lparr>threads := (threads k)(t \<mapsto> f th)\<rparr>"
    using assms(1) by (auto simp: upd_thread_def obj_Inr_iff elim!: bind_r_InrE)
  then show ?thesis using assms(2) by (auto simp: view_of_def)
qed

lemma view_save: "Thread_SaveUserState t k = Inr k' \<Longrightarrow> view_of k' = view_of k"
  unfolding Thread_SaveUserState_def
  by (erule for_loop_keeps [where R = "\<lambda>k k'. view_of k' = view_of k"])
    (auto elim!: bind_r_InrE dest!: view_upd_thread)

lemma view_restore: "Thread_RestoreUserState t k = Inr k' \<Longrightarrow> view_of k' = view_of k"
  unfolding Thread_RestoreUserState_def
  by (erule for_loop_keeps [where R = "\<lambda>k k'. view_of k' = view_of k"])
    (auto simp: Machine_WriteRegister_def view_of_def elim!: bind_r_InrE)

lemma view_Run_before:
  assumes "Run_before rp n k = Inr k'"
  shows "view_of k' = switch_to rp n (view_of k) \<and> v_thr (view_of k) n \<noteq> None"
proof -
  obtain th k1 where k1: "view_of k1 = view_of k"
    and k2: "bind_r (Thread_CheckOverflow (currentThread k) k1) (\<lambda>_.
      bind_r (upd_thread n (\<lambda>th. th\<lparr>thr_status := RUNNING\<rparr>) (k1\<lparr>currentThread := n\<rparr>)) (\<lambda>k2.
      upd_thread (currentThread k) (\<lambda>th. th\<lparr>machineState := Some rp\<rparr>) k2)) = Inr k'"
    using assms
    by (auto simp: Run_before_def AddrSpace_SaveState_def Let_def elim!: bind_r_InrE split: option.split_asm
        dest!: view_save)
  have c: "currentThread k = currentThread k1" using k1 by (simp add: view_of_def)
  have "view_of k' = switch_to rp n (view_of k1) \<and> v_thr (view_of k1) n \<noteq> None"
    using k2 unfolding c
    by (auto simp: upd_thread_def obj_Inr_iff view_defs fun_upd_def elim!: bind_r_InrE intro!: ext)
  then show ?thesis using k1 by simp
qed

lemma view_Run_after:
  assumes "Run_after k = Inr k'"
  shows "view_of k' = reap (view_of k)"
proof -
  from assms obtain k1 where k1: "(case threadToBeDestroyed k of None \<Rightarrow> Inr k
      | Some d \<Rightarrow> bind_r (Thread_delete d k) (\<lambda>k1. Inr (k1\<lparr>threadToBeDestroyed := None\<rparr>))) = Inr k1"
    and k': "bind_r (obj (threads k1) (currentThread k1)) (\<lambda>th.
       case thr_space th of None \<Rightarrow> Inr k1
       | Some sp \<Rightarrow> bind_r (Thread_RestoreUserState (currentThread k1) k1) (AddrSpace_RestoreState sp)) = Inr k'"
    unfolding Run_after_def by (rule bind_r_InrE)
  from k1 have "view_of k1 = reap (view_of k)"
    by (auto simp: Thread_delete_def view_defs elim!: bind_r_InrE split: option.split_asm)
  moreover from k' have "view_of k' = view_of k1"
    by (auto simp: AddrSpace_RestoreState_def view_of_def [of "_\<lparr>pageTable := _, pageTableSize := _\<rparr>"]
        elim!: bind_r_InrE split: option.split_asm dest!: view_restore) (simp_all add: view_of_def)
  ultimately show ?thesis by simp
qed

lemma view_Sleep_begin:
  "Sleep_begin t k = Inr k' \<Longrightarrow> view_of k' = set_status BLOCKED t (view_of k) \<and> t = v_cur (view_of k)"
  by (auto simp: Sleep_begin_def upd_thread_def obj_Inr_iff view_defs ASSERT_def elim!: bind_r_InrE split: if_split_asm)

lemma view_P_test:
  assumes "P_test s k = Inr (b, k')"
  shows "\<exists>n. val_of s (view_of k) = Some n \<and> (b \<longleftrightarrow> n \<noteq> 0) \<and>
    (if b then view_of k' = take_one s (view_of k)
     else set_status BLOCKED (v_cur (view_of k)) (view_of k') = enqueue s (view_of k) \<and>
       v_cur (view_of k') = v_cur (view_of k))"
  using assms
  by (auto simp: P_test_def upd_sem_def seq_append_def obj_Inr_iff val_of_def view_defs elim!: bind_r_InrE
      split: if_split_asm intro!: ext)

lemma view_V:
  assumes "Semaphore_V plain_SetLevel s k = Inr k'"
  shows "view_of k' = release s (view_of k) \<and> (\<exists>n. val_of s (view_of k) = Some n)"
proof -
  from assms obtain l k1 sm x key q k2 k3 k4 l' where
    k1: "plain_SetLevel IntOff k = Inr (l, k1)" and sm: "semaphores k1 s = Some sm"
    and x: "seq_remove (sem_queue sm) = Inr ((x, key), q)"
    and k2: "upd_sem s (\<lambda>sm. sm\<lparr>sem_queue := q\<rparr>) k1 = Inr k2"
    and k3: "(case x of None \<Rightarrow> Inr k2 | Some t \<Rightarrow> Scheduler_ReadyToRun t k2) = Inr k3"
    and k4: "upd_sem s (\<lambda>sm. sm\<lparr>sem_value := sem_value sm + 1\<rparr>) k3 = Inr k4"
    and k': "plain_SetLevel l k4 = Inr (l', k')"
    unfolding Semaphore_V_def by (auto simp: obj_Inr_iff elim!: bind_r_InrE)
  have "view_of k' = view_of k4" "view_of k1 = view_of k" using view_plain [OF k'] view_plain [OF k1] by simp_all
  moreover have "view_of k4 = release s (view_of k1)"
  proof (cases x)
    case None
    then show ?thesis using sm x k2 k3 k4
      by (auto simp: upd_sem_def obj_Inr_iff seq_remove_def release_def view_defs split: list.split_asm)
  next
    case (Some t)
    from Some k3 have "Scheduler_ReadyToRun t k2 = Inr k3" by simp
    from view_ready [OF this] this have v3: "view_of k3 = make_ready t (view_of k2)" "semaphores k3 = semaphores k2"
      by (auto simp: Scheduler_ReadyToRun_def upd_thread_def seq_append_def elim!: bind_r_InrE)
    have "view_of k4 = (view_of k3)\<lparr>v_sem := (v_sem (view_of k1))(s \<mapsto> (sem_value sm + 1, map snd q))\<rparr>"
      using v3(2) k2 k4 sm by (auto simp: upd_sem_def obj_Inr_iff view_of_def map_option_if)
    also have "\<dots> = release s (view_of k1)"
      using v3(1) k2 sm x Some
      by (auto simp: upd_sem_def obj_Inr_iff seq_remove_def release_def view_defs split: list.split_asm)
    finally show ?thesis .
  qed
  moreover have "\<exists>n. val_of s (view_of k1) = Some n" using sm by (simp add: val_of_def view_of_def)
  ultimately show ?thesis by simp
qed

lemma view_fork:
  assumes "Thread_new name k = (t, k1)" "Thread_Fork plain_SetLevel t f a k1 = Inr k2"
  shows "t = v_tbrk (view_of k) \<and> view_of k2 = (view_of k)\<lparr>
    v_thr := (v_thr (view_of k))(t \<mapsto> (READY, Some (AtRoot f a))),
    v_ready := v_ready (view_of k) @ [Some t], v_tbrk := Suc t\<rparr>"
proof -
  from assms(2) obtain k3 l k4 k5 l' where
    k3: "Thread_StackAllocate t f a k1 = Inr k3" and k4: "plain_SetLevel IntOff k3 = Inr (l, k4)"
    and k5: "Scheduler_ReadyToRun t k4 = Inr k5" and k2: "plain_SetLevel l k5 = Inr (l', k2)"
    unfolding Thread_Fork_def by (auto elim!: bind_r_InrE)
  have "view_of k2 = make_ready t (view_of k3)"
    using view_plain [OF k2] view_ready [OF k5] view_plain [OF k4] by simp
  moreover have "t = v_tbrk (view_of k)" "view_of k3 = (view_of k)\<lparr>
      v_thr := (v_thr (view_of k))(t \<mapsto> (JUST_CREATED, Some (AtRoot f a))), v_tbrk := Suc t\<rparr>"
    using assms(1) k3
    by (auto simp: Thread_new_def Thread_StackAllocate_def upd_thread_def view_of_def map_option_if)
  ultimately show ?thesis by (simp add: make_ready_def set_status_def)
qed

text \<open>Only threads are on the ready queue.\<close>

definition no_null :: "view \<Rightarrow> bool" where
  "no_null v \<longleftrightarrow> None \<notin> set (v_ready v)"

lemma yield_refines:
  assumes "Thread_Yield plain_SetLevel (currentThread k) k = Inr (b, k')" "no_null (view_of k)"
  shows "astep (Running, view_of k) Silent (if b then Running else Switched, view_of k')"
proof -
  from assms(1) obtain l k1 x k2 where
    k1: "plain_SetLevel IntOff k = Inr (l, k1)" and k2: "Scheduler_FindNextToRun k1 = Inr (x, k2)"
    and fin: "(case x of
         Some n \<Rightarrow> bind_r (Scheduler_ReadyToRun (currentThread k) k2) (\<lambda>k3.
                   bind_r (Run_before (InYield l) n k3) (\<lambda>k4. Inr (False, k4)))
       | None \<Rightarrow> bind_r (plain_SetLevel l k2) (\<lambda>(_, k3). Inr (True, k3))) = Inr (b, k')"
    unfolding Thread_Yield_def by (auto elim!: bind_r_InrE)
  have v1: "view_of k1 = view_of k" by (rule view_plain [OF k1])
  show ?thesis
  proof (cases x)
    case None
    with view_next [OF k2] v1 assms(2) have "v_ready (view_of k) = []" "view_of k2 = view_of k"
      by (auto simp: no_null_def)
    with fin None show ?thesis by (auto elim!: bind_r_InrE dest!: view_plain intro: A_skip)
  next
    case (Some n)
    with view_next [OF k2] v1 obtain r where
      r: "v_ready (view_of k) = Some n # r" "view_of k2 = (view_of k)\<lparr>v_ready := r\<rparr>" by auto
    from fin Some obtain k3 where k3: "Scheduler_ReadyToRun (currentThread k) k2 = Inr k3"
      "Run_before (InYield l) n k3 = Inr k'" "\<not> b" by (auto elim!: bind_r_InrE)
    have "view_of k' = switch_to (InYield l) n (make_ready (v_cur (view_of k)) ((view_of k)\<lparr>v_ready := r\<rparr>))"
      using view_Run_before [OF k3(2)] view_ready [OF k3(1)] r(2) by (simp add: view_of_def [of k])
    with A_yield [OF r(1), of l] \<open>\<not> b\<close> show ?thesis by simp
  qed
qed

lemma resume_view:
  "threads k (currentThread k) = Some th \<Longrightarrow> resume_of (view_of k) (v_cur (view_of k)) = machineState th"
  by (simp add: resume_of_def view_of_def)

lemma reap_simps [simp]:
  "v_cur (reap v) = v_cur v" "v_ready (reap v) = v_ready v" "v_sem (reap v) = v_sem v"
  "val_of s (reap v) = val_of s v" "v_tbrk (reap v) = v_tbrk v" "v_sbrk (reap v) = v_sbrk v"
  by (simp_all add: reap_def val_of_def split: option.split)

lemma wait_view:
  assumes "P_test s k = Inr (False, k1)" "Sleep_begin (currentThread k1) k1 = Inr k2"
  shows "val_of s (view_of k) = Some 0" "view_of k2 = enqueue s (view_of k)"
  using view_P_test [OF assms(1)] view_Sleep_begin [OF assms(2)] by auto

lemma take_view:
  assumes "P_test s k = Inr (True, k1)"
  shows "\<exists>n. val_of s (view_of k) = Some n \<and> n \<noteq> 0" "view_of k1 = take_one s (view_of k)"
  using view_P_test [OF assms] by auto

lemma kstep_astep:
  assumes "kstep (c, k) e (c', k')" "no_null (view_of k)"
  shows "astep (c, view_of k) e (c', view_of k')"
  using assms(1)
proof (cases rule: kstep.cases)
  case (P_take l k1 s k2 l')
  from take_view [OF P_take(5)] view_plain [OF P_take(4)] view_plain [OF P_take(6)] P_take(1-3)
  show ?thesis by (auto intro: A_take)
next
  case (P_wait l k1 s k2)
  from wait_view [OF P_wait(5,6)] view_plain [OF P_wait(4)] P_wait(1-3) show ?thesis by (auto intro: A_wait)
next
  case (V s)
  from view_V [OF V(4)] V(1-3) show ?thesis by (auto intro: A_release)
next
  case (interrupt_V s k'a rp)
  from view_V [OF interrupt_V(4)] interrupt_V(1-3,5) show ?thesis by (auto intro: A_release)
next
  case (Yield b)
  from yield_refines [OF Yield(4) assms(2)] Yield(1-3) show ?thesis by simp
next
  case (Fork name t k1 f a)
  from view_fork [OF Fork(4,5)] Fork(1-3) show ?thesis by (auto intro: A_fork)
next
  case (New name v s)
  then have "s = v_sbrk (view_of k)"
    "view_of k' = (view_of k)\<lparr>v_sem := (v_sem (view_of k))(s \<mapsto> (v, [])), v_sbrk := Suc s\<rparr>"
    by (auto simp: Semaphore_new_def view_of_def map_option_if)
  with New(1-3,5) show ?thesis by (auto intro: A_new)
next
  case (Finish l k1)
  from view_plain [OF Finish(4)] view_Sleep_begin [OF Finish(5)]
  have "view_of k' = (set_status BLOCKED (v_cur (view_of k)) (view_of k))\<lparr>v_dead := Some (v_cur (view_of k))\<rparr>"
    by (auto simp: view_of_def set_status_def)
  with Finish(1-3) show ?thesis by (auto intro: A_finish)
next
  case (Switch n k1 rp)
  from view_next [OF Switch(4)] view_Run_before [OF Switch(5)] Switch(1-3) show ?thesis by (auto intro: A_switch)
next
  case (Root th f a l)
  from view_plain [OF Root(6)] resume_view [OF Root(4)] Root(1-3,5) show ?thesis by (auto intro: A_root)
next
  case (Resume_Yield th l k1 l')
  from view_plain [OF Resume_Yield(7)] view_Run_after [OF Resume_Yield(6)] resume_view [OF Resume_Yield(4)]
    Resume_Yield(1-3,5) show ?thesis by (auto intro: A_resume_yield)
next
  case (Resume_P_take th s l k1 k2 l')
  from take_view [OF Resume_P_take(7)] view_plain [OF Resume_P_take(8)] view_Run_after [OF Resume_P_take(6)]
    resume_view [OF Resume_P_take(4)] Resume_P_take(1-3,5) show ?thesis by (auto intro: A_resume_take)
next
  case (Resume_P_wait th s l k1 k2)
  from wait_view [OF Resume_P_wait(7,8)] view_Run_after [OF Resume_P_wait(6)]
    resume_view [OF Resume_P_wait(4)] Resume_P_wait(1-3,5) show ?thesis by (auto intro: A_resume_wait)
qed

end
