(* ===== verification/Host.thy ===== *)
theory Host
  imports Nachos_Prelude
begin

text \<open>
  The host system as \<^verbatim>\<open>machine/sysdep.cc\<close> uses it: files with descriptors, the keyboard and the
  display, and the datagram socket.  What the host answers to a poll is a sequence fixed in
  advance; the routines of \<^verbatim>\<open>sysdep.cc\<close> are the functions with its names.  A system call that
  fails makes most of them abort, which is \<^const>\<open>AssertFail\<close>.
\<close>

unbundle bit_operations_syntax

section \<open>State\<close>

type_synonym byte = "8 word"

text \<open>
  The answer to one poll of the keyboard: nothing typed, a character, or end of file, where the
  host reports the descriptor as readable but a read returns no byte.
\<close>

datatype key = NoKey | Typed byte | EndOfInput

text \<open>
  \<open>h_dir\<close> maps names to files, \<open>h_data\<close> holds their contents; \<open>h_fds\<close> is the table of open files
  with their offsets, whose first three entries are the standard streams.  \<open>h_denied\<close> are the
  names the host refuses to open.
\<close>

record host =
  h_dir :: "string \<Rightarrow> nat option"
  h_data :: "nat \<Rightarrow> byte list"
  h_next :: nat
  h_fds :: "(nat \<times> nat) option list"
  h_denied :: "string \<Rightarrow> bool"
  h_keys :: "nat \<Rightarrow> key"
  h_polls :: nat
  h_ready :: "key option"
  h_display :: "byte list"
  h_packets :: "nat \<Rightarrow> byte list option"
  h_pkt_polls :: nat
  h_arrived :: "byte list option"
  h_peers :: "string \<Rightarrow> bool"
  h_sent :: "(string \<times> byte list) list"

section \<open>Contents of files\<close>

text \<open>Reading and writing at an offset; writing past the end fills the gap with zeros.\<close>

definition read_at :: "nat \<Rightarrow> nat \<Rightarrow> 'a list \<Rightarrow> 'a list" where
  "read_at off n d = take n (drop off d)"

definition write_at :: "nat \<Rightarrow> byte list \<Rightarrow> byte list \<Rightarrow> byte list" where
  "write_at off bs d =
     take off d @ replicate (off - length d) 0 @ bs @ drop (off + length bs) d"

lemma length_write_at [simp]: "length (write_at off bs d) = max (off + length bs) (length d)"
  by (simp add: write_at_def)

lemma nth_write_at:
  assumes "i < max (off + length bs) (length d)"
  shows "write_at off bs d ! i =
    (if off \<le> i \<and> i < off + length bs then bs ! (i - off) else if i < length d then d ! i else 0)"
  using assms by (auto simp: write_at_def nth_append min_def nth_Cons')

lemma read_at_eq_iff:
  "off + n \<le> length d \<Longrightarrow> length bs = n \<Longrightarrow> read_at off n d = bs \<longleftrightarrow> (\<forall>i < n. d ! (off + i) = bs ! i)"
  by (auto simp: read_at_def list_eq_iff_nth_eq)

lemma length_read_at [simp]: "length (read_at off n d) = min n (length d - off)"
  by (simp add: read_at_def)

lemma nth_read_at [simp]: "i < n \<Longrightarrow> off + i < length d \<Longrightarrow> read_at off n d ! i = d ! (off + i)"
  by (simp add: read_at_def)

lemma read_write_same: "read_at off (length bs) (write_at off bs d) = bs"
  by (subst read_at_eq_iff) (simp_all add: nth_write_at)

lemma read_write_other:
  assumes "off' + n \<le> off \<or> off + length bs \<le> off'" "off' + n \<le> length d"
  shows "read_at off' n (write_at off bs d) = read_at off' n d"
  using assms by (intro nth_equalityI) (auto simp: nth_write_at)

section \<open>Files\<close>

text \<open>The lowest unused descriptor.\<close>

fun free_fd :: "(nat \<times> nat) option list \<Rightarrow> nat" where
  "free_fd [] = 0"
| "free_fd (None # fs) = 0"
| "free_fd (Some f # fs) = Suc (free_fd fs)"

definition set_fd :: "nat \<Rightarrow> (nat \<times> nat) option \<Rightarrow> host \<Rightarrow> host" where
  "set_fd n v h = h\<lparr>h_fds := (if n < length (h_fds h) then (h_fds h)[n := v] else h_fds h @ [v])\<rparr>"

definition OpenForWrite :: "string \<Rightarrow> host \<Rightarrow> (int \<times> host) result" where
  "OpenForWrite name h =
     (if h_denied h name then Inl AssertFail
      else
        let ino = (case h_dir h name of Some i \<Rightarrow> i | None \<Rightarrow> h_next h);
            h1 = (case h_dir h name of
                    Some i \<Rightarrow> h\<lparr>h_data := (h_data h)(i := [])\<rparr>
                  | None \<Rightarrow> h\<lparr>h_dir := (h_dir h)(name \<mapsto> ino), h_data := (h_data h)(ino := []), h_next := Suc ino\<rparr>);
            fd = free_fd (h_fds h)
        in Inr (int fd, set_fd fd (Some (ino, 0)) h1))"

definition OpenForReadWrite :: "string \<Rightarrow> bool \<Rightarrow> host \<Rightarrow> (int \<times> host) result" where
  "OpenForReadWrite name crashOnError h =
     (case (if h_denied h name then None else h_dir h name) of
        None \<Rightarrow> bind_r (ASSERT (\<not> crashOnError)) (\<lambda>_. Inr (- 1, h))
      | Some ino \<Rightarrow> let fd = free_fd (h_fds h) in Inr (int fd, set_fd fd (Some (ino, 0)) h))"

text \<open>The open file behind a descriptor of a regular file.\<close>

definition fd_entry :: "int \<Rightarrow> host \<Rightarrow> (nat \<times> nat) option" where
  "fd_entry fd h = (if 0 \<le> fd \<and> fd < int (length (h_fds h)) then h_fds h ! nat fd else None)"

text \<open>
  The host's \<^verbatim>\<open>read\<close>: the bytes read, \<open>None\<close> on an error.  Reading the keyboard without a character
  waits for ever, as far as this program is concerned.
\<close>

definition host_read :: "int \<Rightarrow> int \<Rightarrow> host \<Rightarrow> (byte list option \<times> host) result" where
  "host_read fd n h =
     (if n < 0 then Inr (None, h)
      else if fd = 0 then
        (case h_ready h of
           None \<Rightarrow> Inl Diverges
         | Some (Typed c) \<Rightarrow> if n = 0 then Inr (Some [], h) else Inr (Some [c], h\<lparr>h_ready := None\<rparr>)
         | Some _ \<Rightarrow> Inr (Some [], h))
      else case fd_entry fd h of
             None \<Rightarrow> Inr (None, h)
           | Some (ino, off) \<Rightarrow>
               let bs = read_at off (nat n) (h_data h ino)
               in Inr (Some bs, set_fd (nat fd) (Some (ino, off + length bs)) h))"

definition Read :: "int \<Rightarrow> int \<Rightarrow> host \<Rightarrow> (byte list \<times> host) result" where
  "Read fd nBytes h = bind_r (host_read fd nBytes h) (\<lambda>(r, h1).
     case r of None \<Rightarrow> Inl AssertFail
     | Some bs \<Rightarrow> bind_r (ASSERT (int (length bs) = nBytes)) (\<lambda>_. Inr (bs, h1)))"

text \<open>\<open>None\<close> is the result \<open>-1\<close>.\<close>

definition ReadPartial :: "int \<Rightarrow> int \<Rightarrow> host \<Rightarrow> (byte list option \<times> host) result" where
  "ReadPartial fd nBytes h = host_read fd nBytes h"

definition WriteFile :: "int \<Rightarrow> byte list \<Rightarrow> host \<Rightarrow> host result" where
  "WriteFile fd bs h =
     (if fd = 1 then Inr (h\<lparr>h_display := h_display h @ bs\<rparr>)
      else case fd_entry fd h of
             None \<Rightarrow> Inl AssertFail
           | Some (ino, off) \<Rightarrow> Inr (set_fd (nat fd) (Some (ino, off + length bs))
               (h\<lparr>h_data := (h_data h)(ino := (if bs = [] then h_data h ino else write_at off bs (h_data h ino)))\<rparr>)))"

text \<open>\<^verbatim>\<open>whence\<close> is 0 (from the start), 1 (from the current offset) or 2 (from the end).\<close>

definition Lseek :: "int \<Rightarrow> int \<Rightarrow> int \<Rightarrow> host \<Rightarrow> host result" where
  "Lseek fd offset whence h =
     (case fd_entry fd h of
        None \<Rightarrow> Inl AssertFail
      | Some (ino, off) \<Rightarrow>
          let base = (if whence = 0 then 0 else if whence = 1 then int off else int (length (h_data h ino)))
          in if whence \<in> {0, 1, 2} \<and> 0 \<le> base + offset
             then Inr (set_fd (nat fd) (Some (ino, nat (base + offset))) h)
             else Inl AssertFail)"

definition Tell :: "int \<Rightarrow> host \<Rightarrow> int" where
  "Tell fd h = (case fd_entry fd h of None \<Rightarrow> - 1 | Some (ino, off) \<Rightarrow> int off)"

definition Close :: "int \<Rightarrow> host \<Rightarrow> host result" where
  "Close fd h = (case fd_entry fd h of None \<Rightarrow> Inl AssertFail | Some _ \<Rightarrow> Inr (set_fd (nat fd) None h))"

text \<open>The result is that of \<^verbatim>\<open>unlink\<close> converted to a truth value: \<open>True\<close> when it failed.\<close>

definition Unlink :: "string \<Rightarrow> host \<Rightarrow> bool \<times> host" where
  "Unlink name h =
     (case h_dir h name of None \<Rightarrow> (True, h)
      | Some _ \<Rightarrow> if h_denied h name then (True, h) else (False, h\<lparr>h_dir := (h_dir h)(name := None)\<rparr>))"

section \<open>Polling\<close>

definition PollFile :: "int \<Rightarrow> host \<Rightarrow> bool \<times> host" where
  "PollFile fd h =
     (if fd = 0 then
        (case h_ready h of
           Some _ \<Rightarrow> (True, h)
         | None \<Rightarrow> (case h_keys h (h_polls h) of
                      NoKey \<Rightarrow> (False, h\<lparr>h_polls := Suc (h_polls h)\<rparr>)
                    | key \<Rightarrow> (True, h\<lparr>h_polls := Suc (h_polls h), h_ready := Some key\<rparr>)))
      else (fd_entry fd h \<noteq> None, h))"

definition PollSocket :: "host \<Rightarrow> bool \<times> host" where
  "PollSocket h =
     (case h_arrived h of
        Some _ \<Rightarrow> (True, h)
      | None \<Rightarrow> (case h_packets h (h_pkt_polls h) of
                   None \<Rightarrow> (False, h\<lparr>h_pkt_polls := Suc (h_pkt_polls h)\<rparr>)
                 | Some p \<Rightarrow> (True, h\<lparr>h_pkt_polls := Suc (h_pkt_polls h), h_arrived := Some p\<rparr>)))"

definition ReadFromSocket :: "nat \<Rightarrow> host \<Rightarrow> (byte list \<times> host) result" where
  "ReadFromSocket packetSize h =
     (case h_arrived h of
        None \<Rightarrow> Inl Diverges
      | Some p \<Rightarrow> bind_r (ASSERT (packetSize \<le> length p)) (\<lambda>_. Inr (take packetSize p, h\<lparr>h_arrived := None\<rparr>)))"

definition SendToSocket :: "byte list \<Rightarrow> string \<Rightarrow> host \<Rightarrow> host result" where
  "SendToSocket buffer toName h =
     bind_r (ASSERT (h_peers h toName)) (\<lambda>_. Inr (h\<lparr>h_sent := h_sent h @ [(toName, buffer)]\<rparr>))"

section \<open>Integers in files, on the wire and on the screen\<close>

text \<open>The bytes of a 32-bit integer in the memory of the host, a little-endian machine.\<close>

definition bytes_of :: "32 word \<Rightarrow> byte list" where
  "bytes_of w = [ucast w, ucast (drop_bit 8 w), ucast (drop_bit 16 w), ucast (drop_bit 24 w)]"

definition of_bytes :: "byte list \<Rightarrow> 32 word" where
  "of_bytes bs = (case bs of b0 # b1 # b2 # b3 # _ \<Rightarrow>
     ucast b0 OR push_bit 8 (ucast b1) OR push_bit 16 (ucast b2) OR push_bit 24 (ucast b3) | _ \<Rightarrow> 0)"

text \<open>The decimal digits \<^verbatim>\<open>%d\<close> prints.\<close>

fun decimal :: "nat \<Rightarrow> string" where
  "decimal n = (if n < 10 then [char_of (48 + n)] else decimal (n div 10) @ [char_of (48 + n mod 10)])"

declare decimal.simps [simp del]

definition percent_d :: "int \<Rightarrow> string" where
  "percent_d i = (if i < 0 then CHR ''-'' # decimal (nat (- i)) else decimal (nat i))"

section \<open>Lemmas\<close>

lemma fd_set_same:
  assumes "fd_entry fd h = Some e"
  shows "fd_entry fd (set_fd (nat fd) v h) = v"
proof -
  have "0 \<le> fd" "fd < int (length (h_fds h))" using assms by (auto simp: fd_entry_def split: if_split_asm)
  then show ?thesis by (simp add: fd_entry_def set_fd_def nat_less_iff)
qed

lemma fd_set_data [simp]: "h_data (set_fd n v h) = h_data h" "fd_entry fd (h\<lparr>h_data := d\<rparr>) = fd_entry fd h"
  by (simp_all add: set_fd_def fd_entry_def)

lemma free_fd_None: "free_fd fs < length fs \<Longrightarrow> fs ! free_fd fs = None"
  by (induction fs rule: free_fd.induct) auto

lemma free_fd_le: "free_fd fs \<le> length fs"
  by (induction fs rule: free_fd.induct) auto

lemma Lseek_ok:
  assumes "fd_entry fd h = Some (ino, off)"
  shows "Lseek fd (int n) 0 h = Inr (set_fd (nat fd) (Some (ino, n)) h)"
  using assms by (simp add: Lseek_def)

lemma Lseek_Read:
  assumes "fd_entry fd h = Some (ino, off)" "fd \<noteq> 0" "n + k \<le> length (h_data h ino)"
  shows "bind_r (Lseek fd (int n) 0 h) (Read fd (int k)) =
    Inr (read_at n k (h_data h ino), set_fd (nat fd) (Some (ino, n + k)) (set_fd (nat fd) (Some (ino, n)) h))"
  using assms fd_set_same [OF assms(1), of "Some (ino, n)"]
  by (simp add: Lseek_ok Read_def host_read_def Let_def min_def)

lemma Lseek_WriteFile:
  assumes "fd_entry fd h = Some (ino, off)" "fd \<noteq> 1" "bs \<noteq> []"
  shows "bind_r (Lseek fd (int n) 0 h) (WriteFile fd bs) =
    Inr (set_fd (nat fd) (Some (ino, n + length bs)) ((set_fd (nat fd) (Some (ino, n)) h)
      \<lparr>h_data := (h_data h)(ino := write_at n bs (h_data h ino))\<rparr>))"
  using assms fd_set_same [OF assms(1), of "Some (ino, n)"] by (simp add: Lseek_ok WriteFile_def)

lemma length_bytes_of [simp]: "length (bytes_of w) = 4"
  by (simp add: bytes_of_def)

lemma of_bytes_bytes_of [simp]: "of_bytes (bytes_of w @ bs) = w"
proof (rule bit_word_eqI)
  fix n assume "n < LENGTH(32)"
  then consider "n < 8" | "8 \<le> n" "n < 16" | "16 \<le> n" "n < 24" | "24 \<le> n" "n < 32" by fastforce
  then show "bit (of_bytes (bytes_of w @ bs)) n = bit w n"
    by cases (auto simp: bytes_of_def of_bytes_def bit_or_iff bit_push_bit_iff bit_ucast_iff bit_drop_bit_eq
      possible_bit_def)
qed

end
