(* ===== verification/Devices.thy ===== *)
theory Devices
  imports Complex_Main Thread_System Host
begin

text \<open>
  The device simulations: \<^verbatim>\<open>machine/console.cc\<close>, \<^verbatim>\<open>machine/disk.cc\<close> and \<^verbatim>\<open>machine/network.cc\<close>,
  with the interrupt handlers the kernel installs for them (\<^verbatim>\<open>threads/synchcons.cc\<close>,
  \<^verbatim>\<open>filesys/synchdisk.cc\<close>, \<^verbatim>\<open>network/post.cc\<close>).  Each of these handlers does one thing, it calls \<^verbatim>\<open>V\<close> on
  a semaphore; so a device keeps the address of that semaphore.  \<open>device_call\<close> is the call through
  the function pointer of a pending interrupt.  A handler runs with interrupts off, where
  \<^verbatim>\<open>SetLevel\<close> is the plain change of the level.
\<close>

section \<open>State\<close>

text \<open>The end-of-file mark as the \<^verbatim>\<open>char\<close> the console stores: \<open>-1\<close>.\<close>

definition EOF_char :: byte where "EOF_char = 0xFF"

record PacketHeader =
  pkt_to :: "32 word"
  pkt_from :: "32 word"
  pkt_length :: "32 word"

record sys = kern +
  host :: host
  con_readFileNo :: int
  con_writeFileNo :: int
  con_putBusy :: bool
  con_incoming :: byte
  synchReadAvail :: nat
  synchWriteAvail :: nat
  RLineBlock :: nat
  WLineBlock :: nat
  disk_fileno :: int
  disk_active :: bool
  disk_lastSector :: int
  disk_bufferInit :: int
  disk_semaphore :: nat
  net_ident :: "32 word"
  net_chance :: rat
  net_sendBusy :: bool
  net_inHdr :: PacketHeader
  net_inbox :: "byte list"
  messageAvailable :: nat
  messageSent :: nat

definition on_stats :: "(Statistics \<Rightarrow> Statistics) \<Rightarrow> 'z hw_scheme \<Rightarrow> 'z hw_scheme" where
  "on_stats f k = k\<lparr>stats := f (stats k)\<rparr>"

section \<open>Console\<close>

definition Console_new :: "string option \<Rightarrow> string option \<Rightarrow> 'z sys_scheme \<Rightarrow> 'z sys_scheme result" where
  "Console_new readFile writeFile k =
     bind_r (case readFile of None \<Rightarrow> Inr (0, host k) | Some f \<Rightarrow> OpenForReadWrite f True (host k)) (\<lambda>(rf, h1).
     bind_r (case writeFile of None \<Rightarrow> Inr (1, h1) | Some f \<Rightarrow> OpenForWrite f h1) (\<lambda>(wf, h2).
     Interrupt_Schedule ConsoleReadPoll ConsoleTime ConsoleReadInt
       (k\<lparr>host := h2, con_readFileNo := rf, con_writeFileNo := wf, con_putBusy := False, con_incoming := EOF_char\<rparr>)))"

definition Console_delete :: "'z sys_scheme \<Rightarrow> 'z sys_scheme result" where
  "Console_delete k =
     bind_r (if con_readFileNo k \<noteq> 0 then Close (con_readFileNo k) (host k) else Inr (host k)) (\<lambda>h1.
     bind_r (if con_writeFileNo k \<noteq> 1 then Close (con_writeFileNo k) h1 else Inr h1) (\<lambda>h2.
     Inr (k\<lparr>host := h2\<rparr>)))"

text \<open>\<^verbatim>\<open>SynchReadFunct\<close> and \<^verbatim>\<open>SynchWriteFunct\<close>\<close>

definition SynchReadFunct :: "'z sys_scheme \<Rightarrow> 'z sys_scheme result" where
  "SynchReadFunct k = Semaphore_V plain_SetLevel (synchReadAvail k) k"

definition SynchWriteFunct :: "'z sys_scheme \<Rightarrow> 'z sys_scheme result" where
  "SynchWriteFunct k = Semaphore_V plain_SetLevel (synchWriteAvail k) k"

definition Console_CheckCharAvail :: "'z sys_scheme \<Rightarrow> 'z sys_scheme result" where
  "Console_CheckCharAvail k =
     bind_r (Interrupt_Schedule ConsoleReadPoll ConsoleTime ConsoleReadInt k) (\<lambda>k1.
       if con_incoming k1 \<noteq> EOF_char then Inr k1
       else case PollFile (con_readFileNo k1) (host k1) of (avail, h1) \<Rightarrow>
         if \<not> avail then Inr (k1\<lparr>host := h1\<rparr>)
         else bind_r (Read (con_readFileNo k1) 1 h1) (\<lambda>(c, h2).
           SynchReadFunct (on_stats (\<lambda>s. s\<lparr>numConsoleCharsRead := numConsoleCharsRead s + 1\<rparr>)
             (k1\<lparr>host := h2, con_incoming := hd c\<rparr>))))"

definition Console_WriteDone :: "'z sys_scheme \<Rightarrow> 'z sys_scheme result" where
  "Console_WriteDone k =
     SynchWriteFunct (on_stats (\<lambda>s. s\<lparr>numConsoleCharsWritten := numConsoleCharsWritten s + 1\<rparr>)
       (k\<lparr>con_putBusy := False\<rparr>))"

definition Console_GetChar :: "'z sys_scheme \<Rightarrow> byte \<times> 'z sys_scheme" where
  "Console_GetChar k = (con_incoming k, k\<lparr>con_incoming := EOF_char\<rparr>)"

definition Console_PutChar :: "byte \<Rightarrow> 'z sys_scheme \<Rightarrow> 'z sys_scheme result" where
  "Console_PutChar ch k =
     bind_r (ASSERT (\<not> con_putBusy k)) (\<lambda>_.
     bind_r (WriteFile (con_writeFileNo k) [ch] (host k)) (\<lambda>h1.
     Interrupt_Schedule ConsoleWriteDone ConsoleTime ConsoleWriteInt (k\<lparr>host := h1, con_putBusy := True\<rparr>)))"

section \<open>Disk\<close>

definition SectorsPerTrack :: int where "SectorsPerTrack = 32"
definition NumTracks :: int where "NumTracks = 32"
definition NumSectors :: int where "NumSectors = SectorsPerTrack * NumTracks"
definition MagicNumber :: "32 word" where "MagicNumber = 0x456789ab"
definition MagicSize :: nat where "MagicSize = 4"
definition DiskSize :: int where "DiskSize = int MagicSize + NumSectors * int SectorSize"

declare SectorsPerTrack_def [nachos_defs] NumTracks_def [nachos_defs] NumSectors_def [nachos_defs]
  MagicSize_def [nachos_defs] DiskSize_def [nachos_defs]

definition Disk_new :: "string \<Rightarrow> 'z sys_scheme \<Rightarrow> 'z sys_scheme result" where
  "Disk_new name k =
     (let k0 = k\<lparr>disk_lastSector := 0, disk_bufferInit := 0\<rparr> in
      bind_r (OpenForReadWrite name False (host k)) (\<lambda>(fd, h1).
      if 0 \<le> fd
      then bind_r (Read fd (int MagicSize) h1) (\<lambda>(m, h2).
           bind_r (ASSERT (of_bytes m = MagicNumber)) (\<lambda>_.
             Inr (k0\<lparr>host := h2, disk_fileno := fd, disk_active := False\<rparr>)))
      else bind_r (OpenForWrite name h1) (\<lambda>(fd, h2).
           bind_r (WriteFile fd (bytes_of MagicNumber) h2) (\<lambda>h3.
           bind_r (Lseek fd (DiskSize - 4) 0 h3) (\<lambda>h4.
           bind_r (WriteFile fd (bytes_of 0) h4) (\<lambda>h5.
             Inr (k0\<lparr>host := h5, disk_fileno := fd, disk_active := False\<rparr>)))))))"

definition Disk_TimeToSeek :: "int \<Rightarrow> 'z sys_scheme \<Rightarrow> int \<times> int" where
  "Disk_TimeToSeek newSector k =
     (let newTrack = c_div newSector SectorsPerTrack;
          oldTrack = c_div (disk_lastSector k) SectorsPerTrack;
          seek = \<bar>newTrack - oldTrack\<bar> * SeekTime;
          over = c_mod (totalTicks (stats k) + seek) RotationTime
      in (seek, if over > 0 then RotationTime - over else 0))"

definition Disk_ModuloDiff :: "int \<Rightarrow> int \<Rightarrow> int" where
  "Disk_ModuloDiff to from =
     (let toOffset = c_mod to SectorsPerTrack; fromOffset = c_mod from SectorsPerTrack
      in c_mod ((toOffset - fromOffset) + SectorsPerTrack) SectorsPerTrack)"

definition Disk_ComputeLatency :: "int \<Rightarrow> bool \<Rightarrow> 'z sys_scheme \<Rightarrow> int" where
  "Disk_ComputeLatency newSector writing k =
     (case Disk_TimeToSeek newSector k of (seek, rotation) \<Rightarrow>
        let timeAfter = totalTicks (stats k) + seek + rotation in
        if \<not> writing \<and> seek = 0 \<and>
           c_div (timeAfter - disk_bufferInit k) RotationTime >
             Disk_ModuloDiff newSector (c_div (disk_bufferInit k) RotationTime)
        then RotationTime
        else seek + (rotation + Disk_ModuloDiff newSector (c_div timeAfter RotationTime) * RotationTime)
             + RotationTime)"

definition Disk_UpdateLast :: "int \<Rightarrow> 'z sys_scheme \<Rightarrow> 'z sys_scheme" where
  "Disk_UpdateLast newSector k =
     (case Disk_TimeToSeek newSector k of (seek, rot) \<Rightarrow>
        (if seek \<noteq> 0 then k\<lparr>disk_bufferInit := totalTicks (stats k) + seek + rot\<rparr> else k)
        \<lparr>disk_lastSector := newSector\<rparr>)"

definition Disk_ReadRequest :: "int \<Rightarrow> 'z sys_scheme \<Rightarrow> (byte list \<times> 'z sys_scheme) result" where
  "Disk_ReadRequest sectorNumber k =
     (let ticks = Disk_ComputeLatency sectorNumber False k in
      bind_r (ASSERT (\<not> disk_active k)) (\<lambda>_.
      bind_r (ASSERT (0 \<le> sectorNumber \<and> sectorNumber < NumSectors)) (\<lambda>_.
      bind_r (Lseek (disk_fileno k) (int SectorSize * sectorNumber + int MagicSize) 0 (host k)) (\<lambda>h1.
      bind_r (Read (disk_fileno k) (int SectorSize) h1) (\<lambda>(data, h2).
      bind_r (Interrupt_Schedule DiskDone ticks DiskInt
               (on_stats (\<lambda>s. s\<lparr>numDiskReads := numDiskReads s + 1\<rparr>)
                 (Disk_UpdateLast sectorNumber (k\<lparr>host := h2, disk_active := True\<rparr>)))) (\<lambda>k1.
      Inr (data, k1)))))))"

text \<open>\<^verbatim>\<open>data\<close> points to at least \<^verbatim>\<open>SectorSize\<close> bytes.\<close>

definition Disk_WriteRequest :: "int \<Rightarrow> byte list \<Rightarrow> 'z sys_scheme \<Rightarrow> 'z sys_scheme result" where
  "Disk_WriteRequest sectorNumber data k =
     (let ticks = Disk_ComputeLatency sectorNumber True k in
      bind_r (ASSERT (\<not> disk_active k)) (\<lambda>_.
      bind_r (ASSERT (0 \<le> sectorNumber \<and> sectorNumber < NumSectors)) (\<lambda>_.
      bind_r (Lseek (disk_fileno k) (int SectorSize * sectorNumber + int MagicSize) 0 (host k)) (\<lambda>h1.
      if length data < SectorSize then Inl OutOfBounds
      else bind_r (WriteFile (disk_fileno k) (take SectorSize data) h1) (\<lambda>h2.
        Interrupt_Schedule DiskDone ticks DiskInt
          (on_stats (\<lambda>s. s\<lparr>numDiskWrites := numDiskWrites s + 1\<rparr>)
            (Disk_UpdateLast sectorNumber (k\<lparr>host := h2, disk_active := True\<rparr>))))))))"

definition SynchDisk_RequestDone :: "'z sys_scheme \<Rightarrow> 'z sys_scheme result" where
  "SynchDisk_RequestDone k = Semaphore_V plain_SetLevel (disk_semaphore k) k"

definition Disk_HandleInterrupt :: "'z sys_scheme \<Rightarrow> 'z sys_scheme result" where
  "Disk_HandleInterrupt k = SynchDisk_RequestDone (k\<lparr>disk_active := False\<rparr>)"

section \<open>Network\<close>

definition MaxWireSize :: nat where "MaxWireSize = 64"
definition PacketHeader_size :: nat where "PacketHeader_size = 12"
definition MaxPacketSize :: nat where "MaxPacketSize = MaxWireSize - PacketHeader_size"

declare MaxWireSize_def [nachos_defs] PacketHeader_size_def [nachos_defs] MaxPacketSize_def [nachos_defs]

definition header_bytes :: "32 word \<Rightarrow> 32 word \<Rightarrow> 32 word \<Rightarrow> byte list" where
  "header_bytes a b c = bytes_of a @ bytes_of b @ bytes_of c"

definition packet_header :: "byte list \<Rightarrow> PacketHeader" where
  "packet_header bs = \<lparr>pkt_to = of_bytes bs, pkt_from = of_bytes (drop 4 bs), pkt_length = of_bytes (drop 8 bs)\<rparr>"

definition socket_name :: "32 word \<Rightarrow> string" where
  "socket_name addr = ''SOCKET_'' @ percent_d (sint addr)"

definition Network_new :: "32 word \<Rightarrow> rat \<Rightarrow> 'z sys_scheme \<Rightarrow> 'z sys_scheme result" where
  "Network_new addr reliability k =
     Interrupt_Schedule NetworkReadPoll NetworkTime NetworkRecvInt
       (k\<lparr>net_ident := addr,
          net_chance := (if reliability < 0 then 0 else if reliability > 1 then 1 else reliability),
          net_sendBusy := False, net_inHdr := (net_inHdr k)\<lparr>pkt_length := 0\<rparr>\<rparr>)"

definition PostOffice_IncomingPacket :: "'z sys_scheme \<Rightarrow> 'z sys_scheme result" where
  "PostOffice_IncomingPacket k = Semaphore_V plain_SetLevel (messageAvailable k) k"

definition PostOffice_PacketSent :: "'z sys_scheme \<Rightarrow> 'z sys_scheme result" where
  "PostOffice_PacketSent k = Semaphore_V plain_SetLevel (messageSent k) k"

definition Network_CheckPktAvail :: "'z sys_scheme \<Rightarrow> 'z sys_scheme result" where
  "Network_CheckPktAvail k =
     bind_r (Interrupt_Schedule NetworkReadPoll NetworkTime NetworkRecvInt k) (\<lambda>k1.
       if pkt_length (net_inHdr k1) \<noteq> 0 then Inr k1
       else case PollSocket (host k1) of (avail, h1) \<Rightarrow>
         if \<not> avail then Inr (k1\<lparr>host := h1\<rparr>)
         else bind_r (ReadFromSocket MaxWireSize h1) (\<lambda>(buffer, h2).
           let hdr = packet_header buffer in
           bind_r (ASSERT (pkt_to hdr = net_ident k1 \<and> unat (pkt_length hdr) \<le> MaxPacketSize)) (\<lambda>_.
           PostOffice_IncomingPacket (on_stats (\<lambda>s. s\<lparr>numPacketsRecvd := numPacketsRecvd s + 1\<rparr>)
             (k1\<lparr>host := h2, net_inHdr := hdr,
                 net_inbox := take (unat (pkt_length hdr)) (drop PacketHeader_size buffer)\<rparr>)))))"

definition Network_SendDone :: "'z sys_scheme \<Rightarrow> 'z sys_scheme result" where
  "Network_SendDone k =
     PostOffice_PacketSent (on_stats (\<lambda>s. s\<lparr>numPacketsSent := numPacketsSent s + 1\<rparr>) (k\<lparr>net_sendBusy := False\<rparr>))"

text \<open>
  The packet on the wire: header and data, padded to the fixed size.  The padding is what the
  allocator left in the buffer; it is an argument.
\<close>

definition wire_packet :: "byte list \<Rightarrow> PacketHeader \<Rightarrow> byte list \<Rightarrow> byte list" where
  "wire_packet junk hdr data =
     take MaxWireSize (header_bytes (pkt_to hdr) (pkt_from hdr) (pkt_length hdr) @
       take (unat (pkt_length hdr)) data @ junk @ replicate MaxWireSize 0)"

definition Network_Send :: "byte list \<Rightarrow> PacketHeader \<Rightarrow> byte list \<Rightarrow> 'z sys_scheme \<Rightarrow> 'z sys_scheme result" where
  "Network_Send junk hdr data k =
     bind_r (ASSERT (\<not> net_sendBusy k \<and> 0 < unat (pkt_length hdr) \<and> unat (pkt_length hdr) \<le> MaxPacketSize \<and>
       pkt_from hdr = net_ident k)) (\<lambda>_.
     bind_r (Interrupt_Schedule NetworkSendDone NetworkTime NetworkSendInt k) (\<lambda>k1.
       case Random k1 of (r, k2) \<Rightarrow>
         if of_int (c_mod r 100) \<ge> net_chance k2 * 100 then Inr k2
         else if length data < unat (pkt_length hdr) then Inl OutOfBounds
         else bind_r (SendToSocket (wire_packet junk hdr data) (socket_name (pkt_to hdr)) (host k2)) (\<lambda>h.
           Inr (k2\<lparr>host := h\<rparr>))))"

definition Network_Receive :: "'z sys_scheme \<Rightarrow> PacketHeader \<times> byte list \<times> 'z sys_scheme" where
  "Network_Receive k =
     (let hdr = net_inHdr k in
      (hdr, if pkt_length hdr \<noteq> 0 then take (unat (pkt_length hdr)) (net_inbox k) else [],
       k\<lparr>net_inHdr := hdr\<lparr>pkt_length := 0\<rparr>\<rparr>))"

section \<open>The call through a pending interrupt\<close>

definition device_call :: "IntHandler \<Rightarrow> 'z sys_scheme \<Rightarrow> 'z sys_scheme result" where
  "device_call h k = (case h of
       TimerHandler \<Rightarrow> Timer_TimerExpired k
     | DiskDone \<Rightarrow> Disk_HandleInterrupt k
     | ConsoleReadPoll \<Rightarrow> Console_CheckCharAvail k
     | ConsoleWriteDone \<Rightarrow> Console_WriteDone k
     | NetworkReadPoll \<Rightarrow> Network_CheckPktAvail k
     | NetworkSendDone \<Rightarrow> Network_SendDone k)"

end
