(* ===== verification/Synch_Devices.thy ===== *)
theory Synch_Devices
  imports Devices
begin

text \<open>
  The synchronous interfaces to the devices: \<^verbatim>\<open>threads/synchcons.cc\<close> and \<^verbatim>\<open>filesys/synchdisk.cc\<close>,
  the echo loop \<^verbatim>\<open>ConsoleTest\<close> of \<^verbatim>\<open>userprog/progtest.cc\<close>, and the synchronised list of
  \<^verbatim>\<open>threads/synchlist.cc\<close> with the locks and condition variables of \<^verbatim>\<open>threads/synch.cc\<close>, which are
  empty shells.

  A call of \<^verbatim>\<open>P\<close> may let other threads run before it returns.  The routines here take the two
  semaphore operations as arguments \<open>P\<close> and \<open>V\<close>: the state before the call to the state when it
  returns to this thread.  \<open>P_alone\<close> is \<^verbatim>\<open>P\<close> called by the only thread there is, which waits in
  \<^verbatim>\<open>Interrupt::Idle\<close> until an interrupt handler wakes it.
\<close>

type_synonym 's semop = "nat \<Rightarrow> 's \<Rightarrow> 's result"

section \<open>P called by the only thread\<close>

text \<open>
  Continue after \<^verbatim>\<open>P\<close> has gone to sleep, until it takes the semaphore.  If another thread is
  switched to, the call does not return from here.
\<close>

fun P_resumed :: "nat \<Rightarrow> nat \<Rightarrow> ('z kern_scheme \<Rightarrow> 'z kern_scheme result) \<Rightarrow> 'z setlevel \<Rightarrow> nat \<Rightarrow>
    bool \<times> 'z kern_scheme \<Rightarrow> 'z kern_scheme result" where
  "P_resumed 0 fuel idle setl this r = Inl Diverges"
| "P_resumed (Suc n) fuel idle setl this (taken, k) =
     (if taken then Inr k
      else if currentThread k \<noteq> this then Inl Diverges
      else bind_r (resume_current fuel idle setl k) (P_resumed n fuel idle setl this))"

definition P_alone :: "nat \<Rightarrow> ('z kern_scheme \<Rightarrow> 'z kern_scheme result) \<Rightarrow> 'z setlevel \<Rightarrow> nat \<Rightarrow>
    'z kern_scheme \<Rightarrow> 'z kern_scheme result" where
  "P_alone fuel idle setl s k =
     bind_r (Semaphore_P fuel idle setl s k) (P_resumed 2 fuel idle setl (currentThread k))"

section \<open>Locks and condition variables\<close>

definition Lock_Acquire :: "'s \<Rightarrow> 's result" where "Lock_Acquire k = Inr k"
definition Lock_Release :: "'s \<Rightarrow> 's result" where "Lock_Release k = Inr k"
definition Condition_Wait :: "'s \<Rightarrow> 's result" where "Condition_Wait k = bind_r (ASSERT False) (\<lambda>_. Inr k)"
definition Condition_Signal :: "'s \<Rightarrow> 's result" where "Condition_Signal k = Inr k"
definition Condition_Broadcast :: "'s \<Rightarrow> 's result" where "Condition_Broadcast k = Inr k"

section \<open>Synchronised lists\<close>

type_synonym 'a synchlist = "(int \<times> 'a option) list"

definition SynchList_new :: "'a synchlist" where "SynchList_new = []"

definition SynchList_Append :: "'a option \<Rightarrow> 'a synchlist \<Rightarrow> 'a synchlist result" where
  "SynchList_Append item l =
     bind_r (Lock_Acquire l) (\<lambda>l1.
     bind_r (seq_append item l1) (\<lambda>l2.
     bind_r (Condition_Signal l2) Lock_Release))"

text \<open>\<^verbatim>\<open>while (list->IsEmpty()) listEmpty->Wait(lock);\<close>: waiting aborts, so there is one iteration.\<close>

definition SynchList_Remove :: "'a synchlist \<Rightarrow> ('a option \<times> 'a synchlist) result" where
  "SynchList_Remove l =
     bind_r (Lock_Acquire l) (\<lambda>l1.
     bind_r (if l1 = [] then Condition_Wait l1 else Inr l1) (\<lambda>l2.
     bind_r (seq_remove l2) (\<lambda>((item, _), l3).
     bind_r (ASSERT (item \<noteq> None)) (\<lambda>_.
     bind_r (Lock_Release l3) (\<lambda>l4. Inr (item, l4))))))"

definition SynchList_Mapcar :: "('a option \<Rightarrow> 's \<Rightarrow> 's result) \<Rightarrow> 'a synchlist \<Rightarrow> 's \<Rightarrow> 's result" where
  "SynchList_Mapcar func l s =
     bind_r (Lock_Acquire s) (\<lambda>s1.
     bind_r (foldl (\<lambda>r (_, x). bind_r r (func x)) (Inr s1) l) Lock_Release)"

section \<open>Synchronous console\<close>

definition SynchConsole_new :: "string option \<Rightarrow> string option \<Rightarrow> 'z sys_scheme \<Rightarrow> 'z sys_scheme result" where
  "SynchConsole_new input output k =
     bind_r (Console_new input output k) (\<lambda>k0.
       case Semaphore_new ''Synch Read Avail'' 0 k0 of (ra, k1) \<Rightarrow>
       case Semaphore_new ''Synch Write Avail'' 0 k1 of (wa, k2) \<Rightarrow>
       case Semaphore_new ''Read Synch Line Block'' 1 k2 of (rl, k3) \<Rightarrow>
       case Semaphore_new ''Write Synch Line Block'' 1 k3 of (wl, k4) \<Rightarrow>
       Inr (k4\<lparr>synchReadAvail := ra, synchWriteAvail := wa, RLineBlock := rl, WLineBlock := wl\<rparr>))"

definition SynchConsole_Write :: "'z sys_scheme semop \<Rightarrow> 'z sys_scheme semop \<Rightarrow> byte list \<Rightarrow> int \<Rightarrow>
    'z sys_scheme \<Rightarrow> (int \<times> 'z sys_scheme) result" where
  "SynchConsole_Write P V from numBytes k =
     bind_r (P (WLineBlock k) k) (\<lambda>k1.
     bind_r (for_loop 0 (nat numBytes) (\<lambda>i k.
       bind_r (arr_get from (int i)) (\<lambda>c.
       bind_r (Console_PutChar c k) (\<lambda>k. P (synchWriteAvail k) k))) k1) (\<lambda>k2.
     bind_r (V (WLineBlock k2) k2) (\<lambda>k3. Inr (numBytes, k3))))"

text \<open>\<^verbatim>\<open>do { synchReadAvail->P(); ch = cons->GetChar(); } while (ch == EOF);\<close>\<close>

fun read_char :: "nat \<Rightarrow> 'z sys_scheme semop \<Rightarrow> 'z sys_scheme \<Rightarrow> (byte \<times> 'z sys_scheme) result" where
  "read_char 0 P k = Inl Diverges"
| "read_char (Suc n) P k =
     bind_r (P (synchReadAvail k) k) (\<lambda>k1.
       case Console_GetChar k1 of (ch, k2) \<Rightarrow> if ch = EOF_char then read_char n P k2 else Inr (ch, k2))"

text \<open>
  The outer loop, with the characters read so far; it ends at a line feed, at control-A, or when
  the buffer is full.
\<close>

fun read_line :: "nat \<Rightarrow> nat \<Rightarrow> 'z sys_scheme semop \<Rightarrow> byte \<Rightarrow> byte list \<Rightarrow> 'z sys_scheme \<Rightarrow>
    (byte \<times> byte list \<times> 'z sys_scheme) result" where
  "read_line fuel 0 P ch acc k = Inr (ch, acc, k)"
| "read_line fuel (Suc room) P ch acc k =
     bind_r (read_char fuel P k) (\<lambda>(c, k1).
       if c = 10 \<or> c = 1 then Inr (c, acc, k1) else read_line fuel room P c (acc @ [c]) k1)"

text \<open>
  The result and the buffer, which is cleared first.  \<open>ch0\<close> is the uninitialised \<^verbatim>\<open>ch\<close>, which only
  matters if nothing is to be read.
\<close>

definition SynchConsole_Read :: "nat \<Rightarrow> byte \<Rightarrow> 'z sys_scheme semop \<Rightarrow> 'z sys_scheme semop \<Rightarrow> int \<Rightarrow>
    'z sys_scheme \<Rightarrow> (int \<times> byte list \<times> 'z sys_scheme) result" where
  "SynchConsole_Read fuel ch0 P V numBytes k =
     bind_r (P (RLineBlock k) k) (\<lambda>k1.
     bind_r (read_line fuel (nat numBytes) P ch0 [] k1) (\<lambda>(ch, cs, k2).
     bind_r (V (RLineBlock k2) k2) (\<lambda>k3.
       Inr (if ch = 1 then - 1 else int (length cs), cs @ replicate (nat numBytes - length cs) 0, k3))))"

section \<open>The console test\<close>

text \<open>\<^verbatim>\<open>for (;;)\<close> of \<^verbatim>\<open>ConsoleTest\<close>: echo characters until a \<^verbatim>\<open>q\<close>.\<close>

fun echo_loop :: "nat \<Rightarrow> 'z sys_scheme semop \<Rightarrow> 'z sys_scheme \<Rightarrow> 'z sys_scheme result" where
  "echo_loop 0 P k = Inl Diverges"
| "echo_loop (Suc n) P k =
     bind_r (P (synchReadAvail k) k) (\<lambda>k1.
       case Console_GetChar k1 of (ch, k2) \<Rightarrow>
       bind_r (Console_PutChar ch k2) (\<lambda>k3.
       bind_r (P (synchWriteAvail k3) k3) (\<lambda>k4. if ch = 113 then Inr k4 else echo_loop n P k4)))"

definition ConsoleTest :: "nat \<Rightarrow> 'z sys_scheme semop \<Rightarrow> string option \<Rightarrow> string option \<Rightarrow> 'z sys_scheme \<Rightarrow>
    'z sys_scheme result" where
  "ConsoleTest fuel P inFile outFile k =
     bind_r (Console_new inFile outFile k) (\<lambda>k0.
       case Semaphore_new ''read avail'' 0 k0 of (ra, k1) \<Rightarrow>
       case Semaphore_new ''write done'' 0 k1 of (wd, k2) \<Rightarrow>
       echo_loop fuel P (k2\<lparr>synchReadAvail := ra, synchWriteAvail := wd\<rparr>))"

section \<open>Synchronous disk\<close>

definition SynchDisk_new :: "string \<Rightarrow> 'z sys_scheme \<Rightarrow> 'z sys_scheme result" where
  "SynchDisk_new name k =
     (case Semaphore_new ''synch disk'' 0 k of (s, k1) \<Rightarrow> Disk_new name (k1\<lparr>disk_semaphore := s\<rparr>))"

definition SynchDisk_ReadSector :: "'z sys_scheme semop \<Rightarrow> int \<Rightarrow> 'z sys_scheme \<Rightarrow>
    (byte list \<times> 'z sys_scheme) result" where
  "SynchDisk_ReadSector P sectorNumber k =
     bind_r (Lock_Acquire k) (\<lambda>k1.
     bind_r (Disk_ReadRequest sectorNumber k1) (\<lambda>(data, k2).
     bind_r (P (disk_semaphore k2) k2) (\<lambda>k3.
     bind_r (Lock_Release k3) (\<lambda>k4. Inr (data, k4)))))"

definition SynchDisk_WriteSector :: "'z sys_scheme semop \<Rightarrow> int \<Rightarrow> byte list \<Rightarrow> 'z sys_scheme \<Rightarrow>
    'z sys_scheme result" where
  "SynchDisk_WriteSector P sectorNumber data k =
     bind_r (Lock_Acquire k) (\<lambda>k1.
     bind_r (Disk_WriteRequest sectorNumber data k1) (\<lambda>k2.
     bind_r (P (disk_semaphore k2) k2) Lock_Release))"

end
