(* ===== verification/Thread_Invariants.thy ===== *)
theory Thread_Invariants
  imports Thread_System
begin

text \<open>
  The invariants of scheduling and synchronisation, and that every step of the thread system keeps
  them: the ready queue and the semaphore queues hold exactly the threads that are ready or wait
  there, no live thread is lost, no wake-up is lost, and the value of a semaphore is what was put
  in less what was taken.
\<close>

section \<open>Invariants\<close>

text \<open>Where a thread will continue; a sleeping thread has not saved that yet.\<close>

definition place :: "ctl \<Rightarrow> view \<Rightarrow> nat \<Rightarrow> resume option" where
  "place c v t = (if t = v_cur v then (case c of Sleeping rp \<Rightarrow> Some rp | _ \<Rightarrow> resume_of v t) else resume_of v t)"

definition stat :: "view \<Rightarrow> nat \<Rightarrow> ThreadStatus option" where
  "stat v t = map_option fst (v_thr v t)"

definition queue :: "view \<Rightarrow> nat \<Rightarrow> nat option list" where
  "queue v s = (case v_sem v s of None \<Rightarrow> [] | Some (n, q) \<Rightarrow> q)"

definition ready_ok :: "ctl \<Rightarrow> view \<Rightarrow> bool" where
  "ready_ok c v \<longleftrightarrow> distinct (v_ready v) \<and> None \<notin> set (v_ready v) \<and>
     (\<forall>t. Some t \<in> set (v_ready v) \<longrightarrow> stat v t = Some READY \<and> place c v t \<noteq> None \<and> place c v t \<noteq> Some InFinish)"

definition queues_ok :: "ctl \<Rightarrow> view \<Rightarrow> bool" where
  "queues_ok c v \<longleftrightarrow> (\<forall>s. distinct (queue v s) \<and> None \<notin> set (queue v s) \<and>
     (\<forall>t. Some t \<in> set (queue v s) \<longrightarrow> stat v t = Some BLOCKED \<and> (\<exists>l. place c v t = Some (InP s l))))"

definition current_ok :: "ctl \<Rightarrow> view \<Rightarrow> bool" where
  "current_ok c v \<longleftrightarrow> (case c of
     Running \<Rightarrow> stat v (v_cur v) = Some RUNNING
   | Switched \<Rightarrow> stat v (v_cur v) = Some RUNNING \<and> resume_of v (v_cur v) \<notin> {None, Some InFinish}
   | Sleeping rp \<Rightarrow> stat v (v_cur v) \<in> {Some BLOCKED, Some READY})"

definition dead_ok :: "ctl \<Rightarrow> view \<Rightarrow> bool" where
  "dead_ok c v \<longleftrightarrow> (\<forall>d. v_dead v = Some d \<longrightarrow> stat v d = Some BLOCKED \<and> place c v d = Some InFinish)"

definition fresh_ok :: "view \<Rightarrow> bool" where
  "fresh_ok v \<longleftrightarrow> (\<forall>t \<ge> v_tbrk v. v_thr v t = None) \<and> (\<forall>s \<ge> v_sbrk v. v_sem v s = None)"

text \<open>No live thread is lost: it runs, is ready, waits for a semaphore, or has finished.\<close>

definition accounted :: "ctl \<Rightarrow> view \<Rightarrow> bool" where
  "accounted c v \<longleftrightarrow> (\<forall>t. v_thr v t \<noteq> None \<longrightarrow>
     (t = v_cur v \<and> (c = Running \<or> c = Switched)) \<or> Some t \<in> set (v_ready v) \<or>
     (\<exists>s. Some t \<in> set (queue v s)) \<or> place c v t = Some InFinish)"

text \<open>
  No wake-up is lost: while threads wait for a semaphore, every unit of its value belongs to a
  thread that was woken for it and has not yet run.
\<close>

definition woken :: "ctl \<Rightarrow> view \<Rightarrow> nat \<Rightarrow> nat" where
  "woken c v s = length (filter (\<lambda>x. \<exists>l. place c v (the x) = Some (InP s l))
     (v_ready v @ (if c = Switched then [Some (v_cur v)] else [])))"

definition wakeups_ok :: "ctl \<Rightarrow> view \<Rightarrow> bool" where
  "wakeups_ok c v \<longleftrightarrow> (\<forall>s n. val_of s v = Some n \<longrightarrow> 0 \<le> n \<and> (queue v s \<noteq> [] \<longrightarrow> n \<le> int (woken c v s)))"

definition kinv :: "ctl \<times> view \<Rightarrow> bool" where
  "kinv cv \<longleftrightarrow> (case cv of (c, v) \<Rightarrow> ready_ok c v \<and> queues_ok c v \<and> current_ok c v \<and> dead_ok c v \<and>
     fresh_ok v \<and> accounted c v \<and> wakeups_ok c v)"

lemmas kinv_defs = kinv_def ready_ok_def queues_ok_def current_ok_def dead_ok_def fresh_ok_def accounted_def
  wakeups_ok_def

section \<open>Frame lemmas\<close>


lemma stat_frame [simp]:
  "stat (v\<lparr>v_ready := r\<rparr>) = stat v" "stat (v\<lparr>v_sem := f\<rparr>) = stat v" "stat (v\<lparr>v_cur := t\<rparr>) = stat v"
  "stat (v\<lparr>v_dead := d\<rparr>) = stat v"
  by (simp_all add: stat_def fun_eq_iff)

lemma resume_frame [simp]:
  "resume_of (v\<lparr>v_ready := r\<rparr>) = resume_of v" "resume_of (v\<lparr>v_sem := f\<rparr>) = resume_of v"
  "resume_of (v\<lparr>v_cur := t\<rparr>) = resume_of v" "resume_of (v\<lparr>v_dead := d\<rparr>) = resume_of v"
  by (simp_all add: resume_of_def fun_eq_iff)

lemma resume_set [simp]:
  "resume_of (set_status st u v) = resume_of v"
  "resume_of (set_resume rp u v) t = (if t = u \<and> v_thr v t \<noteq> None then Some rp else resume_of v t)"
proof -
  show "resume_of (set_status st u v) = resume_of v"
    by (rule ext, cases "v_thr v u") (auto simp: resume_of_def set_status_def)
  show "resume_of (set_resume rp u v) t = (if t = u \<and> v_thr v t \<noteq> None then Some rp else resume_of v t)"
    by (cases "v_thr v u") (auto simp: resume_of_def set_resume_def)
qed

lemma stat_set [simp]:
  "stat (set_status st u v) t = (if t = u then map_option (\<lambda>_. st) (stat v t) else stat v t)"
  "stat (set_resume rp u v) = stat v"
  by (auto simp: stat_def set_status_def set_resume_def fun_eq_iff option.map_comp comp_def split_def)

lemma set_frame [simp]:
  "v_cur (set_status st t v) = v_cur v" "v_ready (set_status st t v) = v_ready v"
  "v_sem (set_status st t v) = v_sem v" "v_dead (set_status st t v) = v_dead v"
  "v_tbrk (set_status st t v) = v_tbrk v" "v_sbrk (set_status st t v) = v_sbrk v"
  "v_cur (set_resume rp t v) = v_cur v" "v_ready (set_resume rp t v) = v_ready v"
  "v_sem (set_resume rp t v) = v_sem v" "v_dead (set_resume rp t v) = v_dead v"
  "v_tbrk (set_resume rp t v) = v_tbrk v" "v_sbrk (set_resume rp t v) = v_sbrk v"
  by (simp_all add: set_status_def set_resume_def)

lemma thr_None [simp]:
  "v_thr (set_status st u v) t = None \<longleftrightarrow> v_thr v t = None"
  "v_thr (set_resume rp u v) t = None \<longleftrightarrow> v_thr v t = None"
  by (simp_all add: set_status_def set_resume_def)

lemma queue_frame [simp]:
  "queue (v\<lparr>v_ready := r\<rparr>) = queue v" "queue (v\<lparr>v_cur := t\<rparr>) = queue v" "queue (v\<lparr>v_dead := d\<rparr>) = queue v"
  "queue (set_status st t v) = queue v" "queue (set_resume rp t v) = queue v"
  "val_of s (v\<lparr>v_ready := r\<rparr>) = val_of s v" "val_of s (v\<lparr>v_cur := t\<rparr>) = val_of s v"
  "val_of s (v\<lparr>v_dead := d\<rparr>) = val_of s v"
  "val_of s (set_status st t v) = val_of s v" "val_of s (set_resume rp t v) = val_of s v"
  by (simp_all add: queue_def val_of_def fun_eq_iff)

lemma stat_exists: "stat v t = Some st \<Longrightarrow> v_thr v t \<noteq> None"
  by (auto simp: stat_def)

lemma kinvI:
  "ready_ok c v \<Longrightarrow> queues_ok c v \<Longrightarrow> current_ok c v \<Longrightarrow> dead_ok c v \<Longrightarrow> fresh_ok v \<Longrightarrow> accounted c v \<Longrightarrow>
   wakeups_ok c v \<Longrightarrow> kinv (c, v)"
  by (simp add: kinv_def)

lemma kinvD:
  assumes "kinv (c, v)"
  shows "ready_ok c v" "queues_ok c v" "current_ok c v" "dead_ok c v" "fresh_ok v" "accounted c v" "wakeups_ok c v"
  using assms by (simp_all add: kinv_def)

lemma take_one_thread [simp]:
  "v_cur (take_one s v) = v_cur v" "v_ready (take_one s v) = v_ready v" "v_dead (take_one s v) = v_dead v"
  "v_thr (take_one s v) = v_thr v" "stat (take_one s v) = stat v" "resume_of (take_one s v) = resume_of v"
  "v_tbrk (take_one s v) = v_tbrk v" "v_sbrk (take_one s v) = v_sbrk v"
  by (simp_all add: take_one_def)

lemma take_one_sem [simp]:
  "queue (take_one s v) = queue v"
  "val_of u (take_one s v) = (if u = s then map_option (\<lambda>n. n - 1) (val_of s v) else val_of u v)"
  "v_sem (take_one s v) u = None \<longleftrightarrow> v_sem v u = None"
  by (auto simp: take_one_def queue_def val_of_def fun_eq_iff option.map_comp comp_def split_def split: option.splits)

lemma take_one_place [simp]: "place c (take_one s v) = place c v" "woken c (take_one s v) = woken c v"
  by (simp_all add: place_def woken_def fun_eq_iff split: ctl.splits)

lemma take_kinv:
  assumes "kinv (Running, v)" "val_of s v = Some n" "n \<noteq> 0"
  shows "kinv (Running, take_one s v)"
proof (rule kinvI)
  show "wakeups_ok Running (take_one s v)"
    using kinvD(7) [OF assms(1)] assms(2,3) unfolding wakeups_ok_def by (auto; force)
qed (use kinvD(1-6) [OF assms(1)] in
    \<open>simp_all add: ready_ok_def queues_ok_def current_ok_def dead_ok_def fresh_ok_def accounted_def\<close>)


lemma enqueue_thread [simp]:
  "v_cur (enqueue s v) = v_cur v" "v_ready (enqueue s v) = v_ready v" "v_dead (enqueue s v) = v_dead v"
  "v_thr (enqueue s v) t = None \<longleftrightarrow> v_thr v t = None" "resume_of (enqueue s v) = resume_of v"
  "stat (enqueue s v) t = (if t = v_cur v then map_option (\<lambda>_. BLOCKED) (stat v t) else stat v t)"
  "v_tbrk (enqueue s v) = v_tbrk v" "v_sbrk (enqueue s v) = v_sbrk v"
  by (simp_all add: enqueue_def)

lemma enqueue_sem [simp]:
  "queue (enqueue s v) u = (if u = s \<and> v_sem v s \<noteq> None then queue v s @ [Some (v_cur v)] else queue v u)"
  "val_of u (enqueue s v) = val_of u v"
  "v_sem (enqueue s v) u = None \<longleftrightarrow> v_sem v u = None"
  by (auto simp: enqueue_def queue_def val_of_def option.map_comp comp_def split_def split: option.splits)

lemma enqueue_waits:
  "(\<exists>u. Some t \<in> set (queue (enqueue s v) u)) \<longleftrightarrow>
     (\<exists>u. Some t \<in> set (queue v u)) \<or> (v_sem v s \<noteq> None \<and> t = v_cur v)"
  by (simp split: if_split) metis

lemma val_exists: "val_of s v = Some n \<Longrightarrow> v_sem v s \<noteq> None"
  by (auto simp: val_of_def)

text \<open>The running thread is on no queue.\<close>

lemma ready_member:
  assumes "ready_ok c v" "Some t \<in> set (v_ready v)"
  shows "stat v t = Some READY" "place c v t \<noteq> None" "place c v t \<noteq> Some InFinish"
  using assms by (auto simp: ready_ok_def)

lemma queue_member:
  assumes "queues_ok c v" "Some t \<in> set (queue v s)"
  shows "stat v t = Some BLOCKED" "\<exists>l. place c v t = Some (InP s l)"
  using assms by (auto simp: queues_ok_def)

lemma running_free:
  assumes "kinv (c, v)" "stat v t = Some RUNNING"
  shows "Some t \<notin> set (v_ready v)" "Some t \<notin> set (queue v s)" "v_dead v \<noteq> Some t"
  using kinvD(1,2,4) [OF assms(1)] assms(2) ready_member(1) [of c v t] queue_member(1) [of c v t s]
  by (auto simp: dead_ok_def)

lemma place_other [simp]: "t \<noteq> v_cur v \<Longrightarrow> place c v t = resume_of v t"
  by (simp add: place_def)

lemma place_cur [simp]: "place (Sleeping rp) v (v_cur v) = Some rp" "place Running v = resume_of v"
  "place Switched v = resume_of v"
  by (simp_all add: place_def fun_eq_iff)

lemma ready_Some: "ready_ok c v \<Longrightarrow> x \<in> set (v_ready v) \<Longrightarrow> \<exists>t. x = Some t"
  by (cases x) (auto simp: ready_ok_def)

lemma woken_filter_cong:
  assumes "None \<notin> set xs" "\<And>t. Some t \<in> set xs \<Longrightarrow> p t = q t"
  shows "filter (\<lambda>x. P (p (the x))) xs = filter (\<lambda>x. P (q (the x))) xs"
proof (rule filter_cong [OF refl])
  fix x assume "x \<in> set xs"
  with assms show "P (p (the x)) = P (q (the x))" by (cases x) auto
qed

text \<open>A thread that runs does not count as woken.\<close>

lemma woken_sleep:
  assumes "kinv (Running, v)" "v_cur v' = v_cur v" "v_ready v' = v_ready v" "resume_of v' = resume_of v"
  shows "woken (Sleeping rp) v' s = woken Running v s"
proof -
  note k = kinvD [OF assms(1)]
  have "place (Sleeping rp) v' t = resume_of v t" if "Some t \<in> set (v_ready v)" for t
    using running_free(1) [OF assms(1), of t] k(3) that assms(2,4) by (auto simp: place_def current_ok_def)
  then show ?thesis
    unfolding woken_def using k(1) assms(3)
    by (simp add: ready_ok_def) (intro arg_cong [of _ _ length] woken_filter_cong; auto)
qed

lemma wait_kinv:
  assumes "kinv (Running, v)" "val_of s v = Some 0"
  shows "kinv (Sleeping (InP s l), enqueue s v)"
proof -
  note k = kinvD [OF assms(1)]
  have run: "stat v (v_cur v) = Some RUNNING" using k(3) by (simp add: current_ok_def)
  note free = running_free [OF assms(1) run]
  show ?thesis
  proof (rule kinvI)
    show "ready_ok (Sleeping (InP s l)) (enqueue s v)"
      using k(1) free(1) unfolding ready_ok_def by (auto simp: place_def)
    show "queues_ok (Sleeping (InP s l)) (enqueue s v)"
      using k(2) free(2) run unfolding queues_ok_def by (auto simp: place_def)
    show "current_ok (Sleeping (InP s l)) (enqueue s v)" using run by (simp add: current_ok_def)
    show "dead_ok (Sleeping (InP s l)) (enqueue s v)" using k(4) free(3) by (auto simp: dead_ok_def)
    show "fresh_ok (enqueue s v)" using k(5) by (simp add: fresh_ok_def)
    show "accounted (Sleeping (InP s l)) (enqueue s v)"
      using k(6) val_exists [OF assms(2)] unfolding accounted_def enqueue_waits by (auto simp: place_def)
    show "wakeups_ok (Sleeping (InP s l)) (enqueue s v)"
      using k(7) assms(2) by (auto simp: wakeups_ok_def woken_sleep [OF assms(1)])
  qed
qed



lemma finish_kinv:
  assumes "kinv (Running, v)"
  shows "kinv (Sleeping InFinish, (set_status BLOCKED (v_cur v) v)\<lparr>v_dead := Some (v_cur v)\<rparr>)" (is "kinv (_, ?v)")
proof -
  note k = kinvD [OF assms(1)]
  have run: "stat v (v_cur v) = Some RUNNING" using k(3) by (simp add: current_ok_def)
  note free = running_free [OF assms(1) run]
  show ?thesis
  proof (rule kinvI)
    show "ready_ok (Sleeping InFinish) ?v" using k(1) free(1) unfolding ready_ok_def by (auto simp: place_def)
    show "queues_ok (Sleeping InFinish) ?v"
      using k(2) free(2) run unfolding queues_ok_def by (auto simp: place_def)
    show "current_ok (Sleeping InFinish) ?v" using run by (simp add: current_ok_def)
    show "dead_ok (Sleeping InFinish) ?v" using run by (simp add: dead_ok_def place_def)
    show "fresh_ok ?v" using k(5) by (simp add: fresh_ok_def)
    show "accounted (Sleeping InFinish) ?v" using k(6) unfolding accounted_def by (auto simp: place_def)
    show "wakeups_ok (Sleeping InFinish) ?v"
      using k(7) by (auto simp: wakeups_ok_def woken_sleep [OF assms(1)])
  qed
qed

lemma release_cases:
  assumes "val_of s v = Some n" "None \<notin> set (queue v s)"
  obtains (empty) "queue v s = []" "release s v = v\<lparr>v_sem := (v_sem v)(s \<mapsto> (n + 1, []))\<rparr>"
  | (wake) t q where "queue v s = Some t # q" 
      "release s v = (make_ready t v)\<lparr>v_sem := (v_sem v)(s \<mapsto> (n + 1, q))\<rparr>"
proof -
  obtain q where q: "v_sem v s = Some (n, q)" using assms(1) by (auto simp: val_of_def)
  show thesis
  proof (cases q)
    case Nil
    then show ?thesis using q by (intro empty) (simp_all add: queue_def release_def)
  next
    case (Cons x r)
    then obtain t where "x = Some t" using q assms(2) by (cases x) (auto simp: queue_def)
    then show ?thesis using q Cons by (intro wake) (simp_all add: queue_def release_def)
  qed
qed

lemma sem_upd [simp]:
  "queue (v\<lparr>v_sem := (v_sem v')(s \<mapsto> (n, q))\<rparr>) u = (if u = s then q else queue v' u)"
  "val_of u (v\<lparr>v_sem := (v_sem v')(s \<mapsto> (n, q))\<rparr>) = (if u = s then Some n else val_of u v')"
  by (simp_all add: queue_def val_of_def)

lemma place_frame [simp]:
  "place c (v\<lparr>v_sem := f\<rparr>) = place c v" "place c (set_status st t v) = place c v"
  "place c (v\<lparr>v_ready := r\<rparr>) = place c v" "place c (v\<lparr>v_dead := d\<rparr>) = place c v"
  by (simp_all add: place_def fun_eq_iff split: ctl.splits)

lemma make_ready_simps [simp]:
  "v_cur (make_ready t v) = v_cur v" "v_ready (make_ready t v) = v_ready v @ [Some t]"
  "v_dead (make_ready t v) = v_dead v" "v_thr (make_ready t v) u = None \<longleftrightarrow> v_thr v u = None"
  "v_sem (make_ready t v) = v_sem v" "v_tbrk (make_ready t v) = v_tbrk v" "v_sbrk (make_ready t v) = v_sbrk v"
  "stat (make_ready t v) u = (if u = t then map_option (\<lambda>_. READY) (stat v u) else stat v u)"
  "resume_of (make_ready t v) = resume_of v" "place c (make_ready t v) = place c v"
  "queue (make_ready t v) = queue v" "val_of s (make_ready t v) = val_of s v"
  by (simp_all add: make_ready_def)

lemma woken_sem [simp]: "woken c (v\<lparr>v_sem := f\<rparr>) = woken c v"
  by (simp add: woken_def fun_eq_iff)

lemma woken_make_ready:
  "woken c (make_ready t v) s = woken c v s + (if \<exists>l. place c v t = Some (InP s l) then 1 else 0)"
  by (simp add: woken_def)

lemma release_kinv:
  assumes "kinv (c, v)" "val_of s v = Some n" "c \<noteq> Switched"
  shows "kinv (c, release s v)"
proof -
  note k = kinvD [OF assms(1)]
  have "None \<notin> set (queue v s)" using k(2) by (simp add: queues_ok_def)
  with assms(2) show ?thesis
  proof (cases rule: release_cases)
    case empty
    show ?thesis unfolding empty(2)
    proof (rule kinvI)
      show "accounted c (v\<lparr>v_sem := (v_sem v)(s \<mapsto> (n + 1, []))\<rparr>)"
        using k(6) empty(1) unfolding accounted_def by (simp split: if_split) (metis empty_iff empty_set)
      show "wakeups_ok c (v\<lparr>v_sem := (v_sem v)(s \<mapsto> (n + 1, []))\<rparr>)"
        using k(7) assms(2) unfolding wakeups_ok_def by force
    qed (use k(1-5) val_exists [OF assms(2)] in
        \<open>auto simp: ready_ok_def queues_ok_def current_ok_def dead_ok_def fresh_ok_def split: ctl.splits\<close>)
  next
    case (wake t q)
    define v' where "v' = release s v"
    have t: "Some t \<in> set (queue v s)" using wake(1) by simp
    obtain l where p: "stat v t = Some BLOCKED" "place c v t = Some (InP s l)"
      using queue_member [OF k(2) t] by blast
    have q: "Some t \<notin> set q" using k(2) wake(1) by (auto simp: queues_ok_def dest: spec [where x = s])
    have r: "Some t \<notin> set (v_ready v)" using ready_member(1) [OF k(1), of t] p(1) by auto
    have o: "Some t \<notin> set (queue v u)" if "u \<noteq> s" for u
      using queue_member(2) [OF k(2), of t u] p(2) that by auto
    note wakes = wake(2) [folded v'_def]
    show ?thesis unfolding v'_def [symmetric]
    proof (rule kinvI)
      show "ready_ok c v'" using k(1) p r unfolding ready_ok_def wakes by auto
      show "queues_ok c v'" using k(2) q o wake(1) unfolding queues_ok_def wakes
        by (auto simp: dest: spec [where x = s])
      show "current_ok c v'" using k(3) p(1) assms(3) unfolding current_ok_def wakes by (auto split: ctl.splits)
      show "dead_ok c v'" using k(4) p(2) unfolding dead_ok_def wakes by auto
      show "fresh_ok v'" using k(5) val_exists [OF assms(2)] unfolding fresh_ok_def wakes by auto
      show "accounted c v'" using k(6) wake(1) unfolding accounted_def wakes
        by (simp split: if_split) (metis set_ConsD option.inject)
      show "wakeups_ok c v'" using k(7) p(2) wake(1) assms(2) unfolding wakeups_ok_def wakes
        by (force simp: woken_make_ready)
    qed
  qed
qed


text \<open>Choosing the first ready thread.\<close>

lemma switch_to_simps [simp]:
  "v_cur (switch_to rp n v) = n" "v_ready (switch_to rp n v) = v_ready v" "v_dead (switch_to rp n v) = v_dead v"
  "v_thr (switch_to rp n v) u = None \<longleftrightarrow> v_thr v u = None" "v_sem (switch_to rp n v) = v_sem v"
  "v_tbrk (switch_to rp n v) = v_tbrk v" "v_sbrk (switch_to rp n v) = v_sbrk v"
  "stat (switch_to rp n v) u = (if u = n then map_option (\<lambda>_. RUNNING) (stat v u) else stat v u)"
  "queue (switch_to rp n v) = queue v" "val_of s (switch_to rp n v) = val_of s v"
  by (simp_all add: switch_to_def)

lemma switch_to_place:
  "v_thr v (v_cur v) \<noteq> None \<Longrightarrow> place Switched (switch_to rp n v) = place (Sleeping rp) v"
  by (simp add: switch_to_def place_def fun_eq_iff)

lemma switch_kinv:
  assumes "kinv (Sleeping rp, v)" "v_ready v = Some n # r"
  shows "kinv (Switched, switch_to rp n (v\<lparr>v_ready := r\<rparr>))" (is "kinv (_, ?v)")
proof -
  note k = kinvD [OF assms(1)]
  have "v_thr v (v_cur v) \<noteq> None" using k(3) stat_exists [of v "v_cur v"] by (auto simp: current_ok_def)
  then have pl: "place Switched ?v = place (Sleeping rp) v" by (subst switch_to_place) simp_all
  then have re: "resume_of ?v = place (Sleeping rp) v" by simp
  have n: "stat v n = Some READY" "place (Sleeping rp) v n \<noteq> None" "place (Sleeping rp) v n \<noteq> Some InFinish"
    using ready_member [OF k(1), of n] assms(2) by simp_all
  have nr: "Some n \<notin> set r" "distinct r" using k(1) assms(2) by (simp_all add: ready_ok_def)
  have w: "woken Switched ?v s = woken (Sleeping rp) v s" for s
    unfolding woken_def pl using assms(2) by simp
  show ?thesis
  proof (rule kinvI)
    show "ready_ok Switched ?v" using k(1) assms(2) nr unfolding ready_ok_def pl by auto
    show "queues_ok Switched ?v" using k(2) n(1) unfolding queues_ok_def pl by auto
    show "current_ok Switched ?v" using n unfolding current_ok_def re by simp
    show "dead_ok Switched ?v" using k(4) n(1) unfolding dead_ok_def pl by auto
    show "fresh_ok ?v" using k(5) by (simp add: fresh_ok_def)
    show "accounted Switched ?v" using k(6) assms(2) unfolding accounted_def pl by auto
    show "wakeups_ok Switched ?v" using k(7) unfolding wakeups_ok_def w by simp
  qed
qed

text \<open>Yielding is going to sleep on the ready queue.\<close>

lemma yield_sleep_kinv:
  assumes "kinv (Running, v)"
  shows "kinv (Sleeping (InYield l), make_ready (v_cur v) v)" (is "kinv (?c, ?v)")
proof -
  note k = kinvD [OF assms(1)]
  have run: "stat v (v_cur v) = Some RUNNING" using k(3) by (simp add: current_ok_def)
  note free = running_free [OF assms(1) run]
  have w: "woken ?c ?v s = woken Running v s" for s
    using woken_sleep [OF assms, of v "InYield l" s] by (simp add: woken_make_ready)
  show ?thesis
  proof (rule kinvI)
    show "ready_ok ?c ?v" using k(1) free(1) run unfolding ready_ok_def by (auto simp: place_def)
    show "queues_ok ?c ?v" using k(2) free(2) run unfolding queues_ok_def by (auto simp: place_def)
    show "current_ok ?c ?v" using run by (simp add: current_ok_def)
    show "dead_ok ?c ?v" using k(4) run free(3) by (auto simp: dead_ok_def)
    show "fresh_ok ?v" using k(5) by (simp add: fresh_ok_def)
    show "accounted ?c ?v" using k(6) unfolding accounted_def by (auto simp: place_def)
    show "wakeups_ok ?c ?v" using k(7) unfolding wakeups_ok_def w by simp
  qed
qed

lemma yield_kinv:
  assumes "kinv (Running, v)" "v_ready v = Some n # r"
  shows "kinv (Switched, switch_to (InYield l) n (make_ready (v_cur v) (v\<lparr>v_ready := r\<rparr>)))"
proof -
  have "(make_ready (v_cur v) v)\<lparr>v_ready := r @ [Some (v_cur v)]\<rparr> = make_ready (v_cur v) (v\<lparr>v_ready := r\<rparr>)"
    by (simp add: make_ready_def set_status_def)
  then show ?thesis using switch_kinv [OF yield_sleep_kinv [OF assms(1)], of n "r @ [Some (v_cur v)]"] assms(2)
    by simp
qed

lemma fork_kinv:
  assumes "kinv (Running, v)" "t = v_tbrk v" and v':
    "v' = v\<lparr>v_thr := (v_thr v)(t \<mapsto> (READY, Some (AtRoot f a))), v_ready := v_ready v @ [Some t], v_tbrk := Suc t\<rparr>"
  shows "kinv (Running, v')"
proof -
  note k = kinvD [OF assms(1)]
  have none: "stat v t = None" "v_thr v t = None" using k(5) assms(2) by (simp_all add: fresh_ok_def stat_def)
  have s: "stat v' u = (if u = t then Some READY else stat v u)"
    "resume_of v' u = (if u = t then Some (AtRoot f a) else resume_of v u)"
    "v_thr v' u = None \<longleftrightarrow> v_thr v u = None \<and> u \<noteq> t" for u
    by (simp_all add: v' stat_def resume_of_def)
  have q: "queue v' = queue v" "\<And>u. val_of u v' = val_of u v" "v_cur v' = v_cur v" "v_dead v' = v_dead v"
    "v_ready v' = v_ready v @ [Some t]" "v_tbrk v' = Suc t" "v_sbrk v' = v_sbrk v" "v_sem v' = v_sem v"
    by (simp_all add: v' queue_def val_of_def fun_eq_iff)
  have r: "Some t \<notin> set (v_ready v)" using ready_member(1) [OF k(1), of t] none by auto
  have "filter (\<lambda>x. \<exists>l. resume_of v' (the x) = Some (InP u l)) (v_ready v) =
      filter (\<lambda>x. \<exists>l. resume_of v (the x) = Some (InP u l)) (v_ready v)" for u
    by (rule woken_filter_cong) (use r k(1) in \<open>auto simp: s ready_ok_def\<close>)
  then have w: "woken Running v' u = woken Running v u" for u by (simp add: woken_def s q)
  show ?thesis
  proof (rule kinvI)
    show "ready_ok Running v'" using k(1) r none by (auto simp: ready_ok_def s q)
    show "queues_ok Running v'" using k(2) none by (auto simp: queues_ok_def s q)
    show "current_ok Running v'" using k(3) none by (auto simp: current_ok_def s q)
    show "dead_ok Running v'" using k(4) none by (auto simp: dead_ok_def s q)
    show "fresh_ok v'" using k(5) assms(2) by (auto simp: fresh_ok_def s q)
    show "accounted Running v'" using k(6) by (auto simp: accounted_def s q)
    show "wakeups_ok Running v'" using k(7) by (simp add: wakeups_ok_def w q)
  qed
qed

lemma new_kinv:
  assumes "kinv (Running, v)" "s = v_sbrk v" "0 \<le> n" and v': "v' = v\<lparr>v_sem := (v_sem v)(s \<mapsto> (n, [])), v_sbrk := Suc s\<rparr>"
  shows "kinv (Running, v')"
proof -
  note k = kinvD [OF assms(1)]
  have none: "v_sem v s = None" using k(5) assms(2) by (simp add: fresh_ok_def)
  have q: "queue v' = queue v" using none by (simp add: v' queue_def fun_eq_iff)
  have s: "stat v' = stat v" "resume_of v' = resume_of v" "v_cur v' = v_cur v" "v_dead v' = v_dead v"
    "v_ready v' = v_ready v" "v_tbrk v' = v_tbrk v" "v_thr v' = v_thr v"
    "\<And>u. val_of u v' = (if u = s then Some n else val_of u v)"
    by (simp_all add: v' stat_def resume_of_def val_of_def fun_eq_iff)
  have w: "woken Running v' = woken Running v" by (simp add: woken_def fun_eq_iff s)
  have e: "queue v s = []" using none by (simp add: queue_def)
  have f: "fresh_ok v'" using k(5) assms(2) by (simp add: fresh_ok_def v')
  show ?thesis
    by (rule kinvI [OF _ _ _ _ f]) (use k assms(3) in
      \<open>simp_all add: ready_ok_def queues_ok_def current_ok_def dead_ok_def accounted_def wakeups_ok_def q s w e\<close>)
qed

text \<open>Continuing after a switch.\<close>

lemma woken_run:
  assumes "\<And>l. resume_of v (v_cur v) \<noteq> Some (InP s l)"
  shows "woken Switched v s = woken Running v s"
  using assms by (simp add: woken_def)

lemma reap_simps2 [simp]:
  "v_thr (reap v) t = (if v_dead v = Some t then None else v_thr v t)"
  "stat (reap v) t = (if v_dead v = Some t then None else stat v t)"
  "resume_of (reap v) t = (if v_dead v = Some t then None else resume_of v t)"
  "v_dead (reap v) = None" "v_tbrk (reap v) = v_tbrk v" "v_sbrk (reap v) = v_sbrk v"
  "queue (reap v) = queue v" "v_sem (reap v) = v_sem v" "v_ready (reap v) = v_ready v"
  by (auto simp: reap_def stat_def resume_of_def queue_def fun_eq_iff split: option.splits)

lemma reap_kinv:
  assumes "kinv (Switched, v)"
  shows "kinv (Switched, reap v)"
proof -
  note k = kinvD [OF assms(1)]
  have cur: "v_cur (reap v) = v_cur v" "val_of s (reap v) = val_of s v" for s by simp_all
  have d: "Some t \<notin> set (v_ready v) \<and> t \<noteq> v_cur v \<and> (\<forall>s. Some t \<notin> set (queue v s))" if "v_dead v = Some t" for t
    using k(1-4) that ready_member(1) [OF k(1), of t] queue_member(2) [OF k(2), of t]
    by (auto simp: dead_ok_def current_ok_def)
  have "filter (\<lambda>x. \<exists>l. resume_of (reap v) (the x) = Some (InP u l)) (v_ready v) =
      filter (\<lambda>x. \<exists>l. resume_of v (the x) = Some (InP u l)) (v_ready v)" for u
    using d k(1) by (intro woken_filter_cong) (auto simp: ready_ok_def)
  then have w: "woken Switched (reap v) u = woken Switched v u" for u using d by (auto simp: woken_def)
  show ?thesis
  proof (rule kinvI)
    show "ready_ok Switched (reap v)" using k(1) d unfolding ready_ok_def by auto
    show "queues_ok Switched (reap v)" using k(2) d unfolding queues_ok_def by auto
    show "current_ok Switched (reap v)" using k(3) d unfolding current_ok_def by auto
    show "dead_ok Switched (reap v)" by (simp add: dead_ok_def)
    show "fresh_ok (reap v)" using k(5) by (simp add: fresh_ok_def)
    show "accounted Switched (reap v)" using k(6) unfolding accounted_def by auto
    show "wakeups_ok Switched (reap v)" using k(7) unfolding wakeups_ok_def w by simp
  qed
qed

section \<open>Every step keeps the invariants\<close>

lemma continue_kinv:
  assumes "kinv (Switched, v)" "wakeups_ok Running v"
  shows "kinv (Running, v)"
  using kinvD [OF assms(1)] assms(2)
  by (auto intro!: kinvI simp: ready_ok_def queues_ok_def current_ok_def dead_ok_def accounted_def)

lemma run_kinv:
  assumes "kinv (Switched, v)" "\<And>s l. resume_of v (v_cur v) \<noteq> Some (InP s l)"
  shows "kinv (Running, v)"
  using kinvD(7) [OF assms(1)] assms by (auto intro!: continue_kinv simp: wakeups_ok_def woken_run)

lemma woken_cur:
  assumes "resume_of v (v_cur v) = Some (InP s l)"
  shows "woken Switched v u = woken Running v u + (if u = s then 1 else 0)"
  using assms by (simp add: woken_def)

lemma resume_wait_kinv:
  assumes "kinv (Switched, v)" "resume_of v (v_cur v) = Some (InP s l)" "val_of s v = Some 0"
  shows "kinv (Sleeping (InP s l), enqueue s v)"
proof -
  have "wakeups_ok Running v"
    unfolding wakeups_ok_def
  proof (intro allI impI)
    fix u n assume "val_of u v = Some n"
    with kinvD(7) [OF assms(1)] assms(3) show "0 \<le> n \<and> (queue v u \<noteq> [] \<longrightarrow> n \<le> int (woken Running v u))"
      by (cases "u = s") (auto simp: wakeups_ok_def woken_cur [OF assms(2)] dest!: spec [where x = u])
  qed
  with assms show ?thesis by (intro wait_kinv continue_kinv)
qed

lemma resume_take_kinv:
  assumes "kinv (Switched, v)" "resume_of v (v_cur v) = Some (InP s l)" "val_of s v = Some n" "n \<noteq> 0"
  shows "kinv (Running, take_one s v)"
proof (rule continue_kinv)
  show "wakeups_ok Running (take_one s v)"
    using kinvD(7) [OF assms(1)] assms(3,4)
    by (auto simp: wakeups_ok_def woken_cur [OF assms(2)] split: if_splits; force)
  have "wakeups_ok Switched (take_one s v)"
    using kinvD(7) [OF assms(1)] assms(3,4) unfolding wakeups_ok_def by (auto; force)
  then show "kinv (Switched, take_one s v)"
    using kinvD(1-6) [OF assms(1)]
    by (intro kinvI) (simp_all add: ready_ok_def queues_ok_def current_ok_def dead_ok_def fresh_ok_def accounted_def)
qed

lemmas step_kinv = take_kinv wait_kinv release_kinv yield_kinv finish_kinv switch_kinv

lemma reap_cur:
  assumes "kinv (Switched, v)"
  shows "resume_of (reap v) (v_cur (reap v)) = resume_of v (v_cur v)"
proof -
  have "v_dead v \<noteq> Some (v_cur v)"
    using running_free(3) [OF assms, of "v_cur v"] kinvD(3) [OF assms] by (simp add: current_ok_def)
  then show ?thesis by simp
qed

lemma astep_kinv:
  assumes "astep cv e cv'" "kinv cv"
  shows "kinv cv'"
  using assms
proof (cases rule: astep.cases)
  case (A_resume_yield v l)
  then show ?thesis using run_kinv [OF reap_kinv, of v] assms(2) reap_cur [of v] by simp
next
  case (A_resume_take v s l n)
  then show ?thesis using resume_take_kinv [OF reap_kinv, of v s l n] assms(2) reap_cur [of v] by simp
next
  case (A_resume_wait v s l)
  then show ?thesis using resume_wait_kinv [OF reap_kinv, of v s l] assms(2) reap_cur [of v] by simp
next
  case (A_root v f a)
  then show ?thesis using run_kinv [of v] assms(2) by simp
next
  case (A_fork t v f a)
  then show ?thesis using fork_kinv assms(2) by blast
next
  case (A_new s v n)
  then show ?thesis using new_kinv assms(2) by blast
qed (use assms(2) in \<open>auto intro: step_kinv\<close>)

lemma kinv_no_null: "kinv (c, v) \<Longrightarrow> no_null v"
  by (auto simp: kinv_def ready_ok_def no_null_def)

text \<open>The state of a configuration as the abstract system sees it.\<close>

definition conf_view :: "'z conf \<Rightarrow> ctl \<times> view" where
  "conf_view ck = (fst ck, view_of (snd ck))"

lemma conf_view_pair [simp]: "conf_view (c, k) = (c, view_of k)"
  by (simp add: conf_view_def)

lemma kstep_sim: "kstep ck e ck' \<Longrightarrow> kinv (conf_view ck) \<Longrightarrow> astep (conf_view ck) e (conf_view ck')"
  by (cases ck; cases ck') (simp add: kstep_astep kinv_no_null)

lemma ksteps_kinv: "ksteps ck es ck' \<Longrightarrow> kinv (conf_view ck) \<Longrightarrow> kinv (conf_view ck')"
  by (induction rule: ksteps.induct) (auto dest: kstep_sim astep_kinv)

text \<open>Only taking and releasing a unit changes the value of a semaphore.\<close>

definition delta :: "nat \<Rightarrow> event \<Rightarrow> int" where
  "delta s e = (case e of Acquired u \<Rightarrow> if u = s then - 1 else 0 | Released u \<Rightarrow> if u = s then 1 else 0 | Silent \<Rightarrow> 0)"

lemma release_val:
  "val_of u v = Some m \<Longrightarrow> val_of u (release s v) = Some (if u = s then m + 1 else m)"
  by (auto simp: release_def val_of_def make_ready_def split: option.splits list.splits)

lemma astep_val:
  assumes "astep cv e cv'" "kinv cv" "val_of s (snd cv) = Some n"
  shows "val_of s (snd cv') = Some (n + delta s e)"
  using assms(1)
proof (cases rule: astep.cases)
  case (A_new u v m)
  then have "s \<noteq> u" using assms(2,3) kinvD(5) [of Running v] by (auto simp: fresh_ok_def val_of_def)
  then show ?thesis using A_new assms(3) by (simp add: val_of_def delta_def)
next
  case (A_fork t v f a)
  then show ?thesis using assms(3) by (simp add: val_of_def delta_def)
qed (use assms(3) in \<open>auto simp: delta_def release_val\<close>)

lemma ksteps_val:
  assumes "ksteps ck es ck'" "kinv (conf_view ck)" "val_of s (view_of (snd ck)) = Some n"
  shows "val_of s (view_of (snd ck')) = Some (n + sum_list (map (delta s) es))"
  using assms
proof (induction rule: ksteps.induct)
  case (one_more c es c1 e c2)
  from one_more have "val_of s (snd (conf_view c1)) = Some (n + sum_list (map (delta s) es))"
    by (simp add: conf_view_def)
  from astep_val [OF kstep_sim [OF one_more(2)] _ this] ksteps_kinv [OF one_more(1,4)] show ?case
    by (simp add: conf_view_def)
qed simp

section \<open>From the start of the kernel\<close>

text \<open>A host process that has not created any object of the kernel yet.\<close>

definition blank :: "'z kern_scheme \<Rightarrow> bool" where
  "blank k \<longleftrightarrow> threads k = (\<lambda>_. None) \<and> semaphores k = (\<lambda>_. None)"

definition reachable :: "'z conf \<Rightarrow> bool" where
  "reachable ck \<longleftrightarrow> (\<exists>k0 rnd k es. blank k0 \<and> Initialize_threads plain_SetLevel rnd k0 = Inr k \<and>
     ksteps (Running, k) es ck)"

lemma Initialize_view:
  assumes "Initialize_threads plain_SetLevel rnd k0 = Inr k"
  shows "view_of k = \<lparr>v_thr = (\<lambda>t. map_option (\<lambda>th. (thr_status th, machineState th)) (threads k0 t))
      (thread_brk k0 \<mapsto> (RUNNING, None)), v_cur = thread_brk k0, v_dead = None, v_ready = [],
    v_sem = v_sem (view_of k0), v_tbrk = Suc (thread_brk k0), v_sbrk = sem_brk k0\<rparr>"
proof -
  let ?k1 = "Scheduler_new (Interrupt_new (k0\<lparr>stats := Statistics_new\<rparr>))"
  from assms obtain k2 k5 l where
    k2: "(if rnd then Timer_new rnd ?k1 else Inr ?k1) = Inr k2" and
    k5: "(case Thread_new ''main'' (k2\<lparr>threadToBeDestroyed := None\<rparr>) of (t, k3) \<Rightarrow>
      bind_r (upd_thread t (\<lambda>th. th\<lparr>thr_status := RUNNING\<rparr>) (k3\<lparr>currentThread := t\<rparr>)) (plain_SetLevel IntOn))
      = Inr (l, k)"
    unfolding Initialize_threads_def Let_def by (auto elim!: bind_r_InrE split: prod.split_asm)
  have "threads k2 = threads k0" "thread_brk k2 = thread_brk k0" "semaphores k2 = semaphores k0" "sem_brk k2 = sem_brk k0"
    "readyList k2 = []"
    using k2
    by (auto simp: Timer_new_def Timer_TimeOfNextInterrupt_def Random_def Interrupt_Schedule_def Let_def
        Scheduler_new_def Interrupt_new_def elim!: bind_r_InrE split: if_split_asm)
  then show ?thesis using k5
    by (auto simp: Thread_new_def upd_thread_def plain_SetLevel_def view_of_def elim!: bind_r_InrE intro!: ext)
qed

lemma Initialize_kinv:
  assumes "blank k0" "Initialize_threads plain_SetLevel rnd k0 = Inr k"
  shows "kinv (Running, view_of k)"
  using assms(1) unfolding Initialize_view [OF assms(2)] blank_def
  by (auto simp: kinv_defs stat_def queue_def val_of_def view_of_def)

lemma reachable_kinv: "reachable ck \<Longrightarrow> kinv (conf_view ck)"
  unfolding reachable_def using Initialize_kinv ksteps_kinv by fastforce

section \<open>Properties\<close>

lemmas view_simps = view_of_def stat_def queue_def val_of_def





section \<open>A kernel to try them on\<close>

definition demo_kern :: kern where
  "demo_kern = \<lparr>stats = Statistics_new, level = IntOff, pending = [], inHandler = False, yieldOnReturn = False,
     status = SystemMode, registers = (\<lambda>_. 0), mainMemory = (\<lambda>_. 0), tlb = None, pageTable = None,
     pageTableSize = 0, pageTables = (\<lambda>_. None), singleStep = False, runUntilTime = 0, randomize = False,
     rand_seq = (\<lambda>_. 0), rand_pos = 0, threads = (\<lambda>_. None), thread_brk = 0, currentThread = 0,
     threadToBeDestroyed = None, readyList = [], semaphores = (\<lambda>_. None), sem_brk = 0,
     spaces = (\<lambda>_. None), space_brk = 0\<rparr>"

definition demo_main :: "ThreadStatus \<Rightarrow> Thread" where
  "demo_main st = \<lparr>thr_name = ''main'', thr_stack = None, machineState = None, thr_status = st,
     processID = 0, exitStatus = 0, userRegisters = (\<lambda>_. 0), thr_space = None\<rparr>"

definition demo_run :: "int \<Rightarrow> kern" where
  "demo_run n = demo_kern\<lparr>level := IntOn, threads := [0 \<mapsto> demo_main RUNNING], thread_brk := 1,
     semaphores := [0 \<mapsto> \<lparr>sem_name = ''m'', sem_value = n, sem_queue = []\<rparr>], sem_brk := 1\<rparr>"

definition demo_wait :: kern where
  "demo_wait = (demo_run 0)\<lparr>level := IntOff, threads := [0 \<mapsto> demo_main BLOCKED],
     semaphores := [0 \<mapsto> \<lparr>sem_name = ''m'', sem_value = 0, sem_queue = [(0, Some 0)]\<rparr>]\<rparr>"

lemma demo_boot:
  "Initialize_threads plain_SetLevel False demo_kern = Inr (demo_kern\<lparr>level := IntOn,
     threads := [0 \<mapsto> demo_main RUNNING], thread_brk := 1\<rparr>)"
  by (simp add: Initialize_threads_def demo_kern_def demo_main_def Scheduler_new_def Interrupt_new_def
      Thread_new_def upd_thread_def plain_SetLevel_def)

lemma demo_reach:
  assumes "ksteps (Running, demo_run n) es ck" "0 \<le> n"
  shows "reachable ck"
proof -
  let ?k = "demo_kern\<lparr>level := IntOn, threads := [0 \<mapsto> demo_main RUNNING], thread_brk := 1\<rparr>"
  have s: "kstep (Running, ?k) Silent (Running, demo_run n)"
    by (rule New [where name = "''m''" and v = n and s = 0])
      (simp_all add: Semaphore_new_def demo_run_def demo_kern_def assms(2))
  have "ksteps (Running, ?k) (Silent # es) ck"
    using assms(1)
  proof (induction "(Running, demo_run n)" es ck rule: ksteps.induct)
    case no_step
    then show ?case using ksteps.one_more [OF ksteps.no_step s] by simp
  next
    case (one_more es c1 e c2)
    then show ?case using ksteps.one_more [of "(Running, ?k)" "Silent # es" c1 e c2] by simp
  qed
  moreover have "blank demo_kern" by (simp add: blank_def demo_kern_def)
  ultimately show ?thesis using demo_boot unfolding reachable_def by blast
qed

lemma demo_take: "kstep (Running, demo_run 1) (Acquired 0) (Running, demo_run 0)"
  by (rule P_take [of _ IntOn "(demo_run 1)\<lparr>level := IntOff\<rparr>" _ "(demo_run 0)\<lparr>level := IntOff\<rparr>" IntOff])
    (simp_all add: plain_SetLevel_def demo_run_def demo_kern_def P_test_def upd_sem_def)

lemma demo_P_wait: "kstep (Running, demo_run 0) Silent (Sleeping (InP 0 IntOn), demo_wait)"
  by (rule P_wait [of _ IntOn "(demo_run 0)\<lparr>level := IntOff\<rparr>" _
        "demo_wait\<lparr>threads := [0 \<mapsto> demo_main RUNNING]\<rparr>"])
    (simp_all add: plain_SetLevel_def demo_run_def demo_wait_def demo_kern_def P_test_def upd_sem_def
      seq_append_def Sleep_begin_def upd_thread_def demo_main_def)

lemmas demo_step1 = ksteps.one_more [OF ksteps.no_step, simplified]





end
