(* ===== verification/Device_Correct.thy ===== *)
theory Device_Correct
  imports Devices Thread_Invariants
begin

text \<open>
  The devices keep the contract of the interrupt hardware: the locale \<open>device_handlers\<close> is
  interpreted on \<^const>\<open>device_call\<close>.  From it follow how time advances and that interrupts are
  delivered when they are due.  The theory also holds what the disk computes and stores.
\<close>

section \<open>Waking a thread from a handler\<close>

definition waiters_ok :: "'z kern_scheme \<Rightarrow> bool" where
  "waiters_ok k \<longleftrightarrow> (\<forall>s sm key x. semaphores k s = Some sm \<longrightarrow> (key, x) \<in> set (sem_queue sm) \<longrightarrow>
     (\<exists>t th. x = Some t \<and> threads k t = Some th))"

lemma waitersD:
  assumes "waiters_ok k" "semaphores k s = Some sm" "(key, x) \<in> set (sem_queue sm)"
  obtains t th where "x = Some t" "threads k t = Some th"
  using assms unfolding waiters_ok_def by blast

lemma same_level [simp]: "level k = l \<Longrightarrow> (k :: 'z hw_scheme)\<lparr>level := l\<rparr> = k"
  by (cases k) simp

lemma V_off:
  assumes "level k = IntOff" "waiters_ok k" "semaphores k s = Some sm"
  shows "\<exists>T R S. Semaphore_V plain_SetLevel s k = Inr (k\<lparr>threads := T, readyList := R, semaphores := S\<rparr>) \<and>
    waiters_ok (k\<lparr>threads := T, readyList := R, semaphores := S\<rparr>) \<and> (\<forall>u. S u = None \<longleftrightarrow> semaphores k u = None) \<and>
    (\<exists>sm'. S s = Some sm' \<and> sem_value sm' = sem_value sm + 1)"
proof (cases "sem_queue sm")
  case Nil
  let ?S = "(semaphores k)(s \<mapsto> sm\<lparr>sem_queue := [], sem_value := sem_value sm + 1\<rparr>)"
  have "Semaphore_V plain_SetLevel s k = Inr (k\<lparr>threads := threads k, readyList := readyList k, semaphores := ?S\<rparr>)"
    using assms Nil by (simp add: Semaphore_V_def plain_SetLevel_def seq_remove_def upd_sem_def)
  moreover have "waiters_ok (k\<lparr>threads := threads k, readyList := readyList k, semaphores := ?S\<rparr>)"
    using assms(2) by (auto simp: waiters_ok_def)
  ultimately show ?thesis using assms(3) by (intro exI [of _ "threads k"] exI [of _ "readyList k"] exI [of _ ?S]) auto
next
  case (Cons e q)
  obtain key x where x: "e = (key, x)" by (cases e)
  with Cons have "(key, x) \<in> set (sem_queue sm)" by simp
  from waitersD [OF assms(2,3) this] obtain t th where "x = Some t" and th: "threads k t = Some th" .
  with x have e: "e = (key, Some t)" by simp
  let ?S = "(semaphores k)(s \<mapsto> sm\<lparr>sem_queue := q, sem_value := sem_value sm + 1\<rparr>)"
  let ?T = "(threads k)(t \<mapsto> th\<lparr>thr_status := READY\<rparr>)"
  let ?R = "readyList k @ [(0, Some t)]"
  have "Semaphore_V plain_SetLevel s k = Inr (k\<lparr>threads := ?T, readyList := ?R, semaphores := ?S\<rparr>)"
    using assms Cons e th
    by (simp add: Semaphore_V_def plain_SetLevel_def seq_remove_def seq_append_def upd_sem_def upd_thread_def
        Scheduler_ReadyToRun_def)
  moreover have "waiters_ok (k\<lparr>threads := ?T, readyList := ?R, semaphores := ?S\<rparr>)"
    unfolding waiters_ok_def
  proof (intro allI impI)
    fix u sm' key' x'
    assume a: "semaphores (k\<lparr>threads := ?T, readyList := ?R, semaphores := ?S\<rparr>) u = Some sm'"
      "(key', x') \<in> set (sem_queue sm')"
    then obtain sm0 where "semaphores k u = Some sm0" "(key', x') \<in> set (sem_queue sm0)"
      using assms(3) Cons by (cases "u = s") auto
    from waitersD [OF assms(2) this] obtain t' th' where "x' = Some t'" "threads k t' = Some th'" .
    then show "\<exists>t'' th''. x' = Some t'' \<and>
        threads (k\<lparr>threads := ?T, readyList := ?R, semaphores := ?S\<rparr>) t'' = Some th''" by auto
  qed
  ultimately show ?thesis using assms(3) by (intro exI [of _ ?T] exI [of _ ?R] exI [of _ ?S]) auto
qed

section \<open>The contract\<close>

definition packet_ok :: "32 word \<Rightarrow> byte list \<Rightarrow> bool" where
  "packet_ok addr p \<longleftrightarrow> MaxWireSize \<le> length p \<and> pkt_to (packet_header p) = addr \<and>
     unat (pkt_length (packet_header p)) \<le> MaxPacketSize"

text \<open>
  What the devices in use need: the semaphores their handlers signal exist and only threads wait
  for semaphores; the console reads a keyboard that is not at end of file; only packets for this
  machine arrive; the host's random numbers are not negative.
\<close>

definition sys_ok :: "(IntHandler \<Rightarrow> bool) \<Rightarrow> 'z sys_scheme \<Rightarrow> bool" where
  "sys_ok inst k \<longleftrightarrow> waiters_ok k \<and> (\<forall>n. 0 \<le> rand_seq k n) \<and>
     (inst ConsoleReadPoll \<longrightarrow> semaphores k (synchReadAvail k) \<noteq> None \<and> con_readFileNo k = 0 \<and>
        (\<forall>n. h_keys (host k) n \<noteq> EndOfInput) \<and> (\<forall>key. h_ready (host k) = Some key \<longrightarrow> (\<exists>c. key = Typed c))) \<and>
     (inst ConsoleWriteDone \<longrightarrow> semaphores k (synchWriteAvail k) \<noteq> None) \<and>
     (inst DiskDone \<longrightarrow> semaphores k (disk_semaphore k) \<noteq> None) \<and>
     (inst NetworkReadPoll \<longrightarrow> semaphores k (messageAvailable k) \<noteq> None \<and>
        (\<forall>n p. h_packets (host k) n = Some p \<longrightarrow> packet_ok (net_ident k) p) \<and>
        (\<forall>p. h_arrived (host k) = Some p \<longrightarrow> packet_ok (net_ident k) p)) \<and>
     (inst NetworkSendDone \<longrightarrow> semaphores k (messageSent k) \<noteq> None)"

text \<open>What a handler promises.\<close>

definition handled :: "(IntHandler \<Rightarrow> bool) \<Rightarrow> 'z sys_scheme \<Rightarrow> 'z sys_scheme \<Rightarrow> bool" where
  "handled inst k k' \<longleftrightarrow> sys_ok inst k' \<and> pending_ok k' \<and> handlers_in inst k' \<and> due k' = due k \<and>
     same_ticks k k' \<and> level k' = IntOff \<and> registers k' = registers k"

lemma handled_trans: "handled inst k k1 \<Longrightarrow> handled inst k1 k2 \<Longrightarrow> handled inst k k2"
  unfolding handled_def using same_ticks_trans by auto

lemmas frame_defs = waiters_ok_def pending_ok_def handlers_in_def due_def same_ticks_def

lemma V_handled:
  assumes "sys_ok inst k" "pending_ok k" "handlers_in inst k" "level k = IntOff" "semaphores k s \<noteq> None"
  shows "\<exists>k'. Semaphore_V plain_SetLevel s k = Inr k' \<and> handled inst k k'"
proof -
  obtain sm where "semaphores k s = Some sm" using assms(5) by blast
  from V_off [OF assms(4) _ this] assms(1) obtain T R S where
    v: "Semaphore_V plain_SetLevel s k = Inr (k\<lparr>threads := T, readyList := R, semaphores := S\<rparr>)"
    and w: "waiters_ok (k\<lparr>threads := T, readyList := R, semaphores := S\<rparr>)"
    and S: "\<forall>u. S u = None \<longleftrightarrow> semaphores k u = None" unfolding sys_ok_def by blast
  have "handled inst k (k\<lparr>threads := T, readyList := R, semaphores := S\<rparr>)"
    using assms(1-4) w S by (simp add: handled_def sys_ok_def pending_ok_def handlers_in_def due_def same_ticks_def)
  with v show ?thesis by blast
qed

lemma Schedule_handled:
  assumes "sys_ok inst k" "pending_ok k" "handlers_in inst k" "level k = IntOff" "0 < t" "inst h"
  shows "\<exists>ps. Interrupt_Schedule h t ty k = Inr (k\<lparr>pending := ps\<rparr>) \<and> handled inst k (k\<lparr>pending := ps\<rparr>)"
proof -
  from Schedule_ok [OF assms(2,5), of h ty] obtain k' where
    k': "Interrupt_Schedule h t ty k = Inr k'" "k' = k\<lparr>pending := pending k'\<rparr>" "pending_ok k'" "due k' = due k"
    and m: "mset (pending k') = add_mset (totalTicks (stats k) + t,
      Some (PendingInterrupt_new h (totalTicks (stats k) + t) ty)) (mset (pending k))" by blast
  from m have "set (pending k') = insert (totalTicks (stats k) + t,
      Some (PendingInterrupt_new h (totalTicks (stats k) + t) ty)) (set (pending k))"
    by (metis set_mset_add_mset_insert set_mset_mset)
  then have "handlers_in inst k'" using assms(3,6) by (auto simp: handlers_in_def PendingInterrupt_new_def)
  moreover have "sys_ok inst k'" using assms(1) by (subst k'(2)) (simp add: sys_ok_def waiters_ok_def)
  moreover have "same_ticks k k'" "level k' = IntOff" "registers k' = registers k"
    using assms(4) by (subst k'(2), simp add: same_ticks_def)+
  ultimately have "handled inst k k'" using k'(3,4) by (simp add: handled_def)
  then show ?thesis using k'(1,2) by metis
qed

text \<open>A handler that prepares the device and then wakes a thread.\<close>

lemma then_V:
  assumes "sys_ok inst k1" "pending_ok k1" "handlers_in inst k1" "level k1 = IntOff" "semaphores k1 s \<noteq> None"
    "due k1 = due k" "same_ticks k k1" "registers k1 = registers k"
  shows "\<exists>k'. Semaphore_V plain_SetLevel s k1 = Inr k' \<and> handled inst k k'"
proof -
  have "handled inst k k1" using assms by (simp add: handled_def)
  with V_handled [OF assms(1-5)] show ?thesis using handled_trans by blast
qed

lemmas prepared = pending_ok_def handlers_in_def due_def same_ticks_def on_stats_def

lemma Console_WriteDone_handled:
  assumes "sys_ok inst k" "pending_ok k" "handlers_in inst k" "level k = IntOff" "inst ConsoleWriteDone"
  shows "\<exists>k'. Console_WriteDone k = Inr k' \<and> handled inst k k'"
  unfolding Console_WriteDone_def SynchWriteFunct_def
  by (rule then_V) (use assms in \<open>simp_all add: prepared sys_ok_def waiters_ok_def\<close>)

lemma Disk_HandleInterrupt_handled:
  assumes "sys_ok inst k" "pending_ok k" "handlers_in inst k" "level k = IntOff" "inst DiskDone"
  shows "\<exists>k'. Disk_HandleInterrupt k = Inr k' \<and> handled inst k k'"
  unfolding Disk_HandleInterrupt_def SynchDisk_RequestDone_def
  by (rule then_V) (use assms in \<open>simp_all add: prepared sys_ok_def waiters_ok_def\<close>)

lemma Network_SendDone_handled:
  assumes "sys_ok inst k" "pending_ok k" "handlers_in inst k" "level k = IntOff" "inst NetworkSendDone"
  shows "\<exists>k'. Network_SendDone k = Inr k' \<and> handled inst k k'"
  unfolding Network_SendDone_def PostOffice_PacketSent_def
  by (rule then_V) (use assms in \<open>simp_all add: prepared sys_ok_def waiters_ok_def\<close>)

lemma PollFile_keyboard:
  assumes "\<forall>n. h_keys h n \<noteq> EndOfInput" "\<forall>key. h_ready h = Some key \<longrightarrow> (\<exists>c. key = Typed c)"
  shows "(\<exists>n. PollFile 0 h = (False, h\<lparr>h_polls := n\<rparr>)) \<or>
    (\<exists>h1 c n. PollFile 0 h = (True, h1) \<and> Read 0 1 h1 = Inr ([c], h\<lparr>h_polls := n, h_ready := None\<rparr>))"
proof (cases "h_ready h")
  case (Some key)
  then show ?thesis using assms(2) by (cases h) (auto simp: PollFile_def Read_def host_read_def)
next
  case None
  then show ?thesis using assms(1)
    by (cases "h_keys h (h_polls h)"; cases h) (auto simp: PollFile_def Read_def host_read_def)
qed

lemma Console_CheckCharAvail_handled:
  assumes "sys_ok inst k" "pending_ok k" "handlers_in inst k" "level k = IntOff" "inst ConsoleReadPoll"
  shows "\<exists>k'. Console_CheckCharAvail k = Inr k' \<and> handled inst k k'"
proof -
  have "0 < ConsoleTime" by (simp add: ConsoleTime_def)
  from Schedule_handled [OF assms(1-4) this assms(5)] obtain ps where
    ps: "Interrupt_Schedule ConsoleReadPoll ConsoleTime ConsoleReadInt k = Inr (k\<lparr>pending := ps\<rparr>)"
    and h: "handled inst k (k\<lparr>pending := ps\<rparr>)" by blast
  let ?k = "k\<lparr>pending := ps\<rparr>"
  have k: "sys_ok inst ?k" "pending_ok ?k" "handlers_in inst ?k" "level ?k = IntOff" "due ?k = due k" "same_ticks k ?k"
    using h by (simp_all add: handled_def)
  have kb: "con_readFileNo k = 0" "\<forall>n. h_keys (host k) n \<noteq> EndOfInput"
    "\<forall>key. h_ready (host k) = Some key \<longrightarrow> (\<exists>c. key = Typed c)"
    using assms(1,5) by (simp_all add: sys_ok_def)
  show ?thesis
  proof (cases "con_incoming k \<noteq> EOF_char")
    case True
    then show ?thesis using ps h by (simp add: Console_CheckCharAvail_def)
  next
    case False
    from PollFile_keyboard [OF kb(2,3)] show ?thesis
    proof (elim disjE exE conjE)
      fix n assume "PollFile 0 (host k) = (False, (host k)\<lparr>h_polls := n\<rparr>)"
      then have "Console_CheckCharAvail k = Inr (?k\<lparr>host := (host k)\<lparr>h_polls := n\<rparr>\<rparr>)"
        using ps False kb(1) by (simp add: Console_CheckCharAvail_def)
      moreover have "handled inst k (?k\<lparr>host := (host k)\<lparr>h_polls := n\<rparr>\<rparr>)"
        using k by (simp add: handled_def prepared sys_ok_def waiters_ok_def)
      ultimately show ?thesis by blast
    next
      fix h1 c n
      assume p: "PollFile 0 (host k) = (True, h1)"
        "Read 0 1 h1 = Inr ([c], (host k)\<lparr>h_polls := n, h_ready := None\<rparr>)"
      let ?k1 = "on_stats (\<lambda>s. s\<lparr>numConsoleCharsRead := numConsoleCharsRead s + 1\<rparr>)
        (?k\<lparr>host := (host k)\<lparr>h_polls := n, h_ready := None\<rparr>, con_incoming := c\<rparr>)"
      have "Console_CheckCharAvail k = Semaphore_V plain_SetLevel (synchReadAvail ?k1) ?k1"
        using ps False kb(1) p by (simp add: Console_CheckCharAvail_def SynchReadFunct_def)
      moreover have "\<exists>k'. Semaphore_V plain_SetLevel (synchReadAvail ?k1) ?k1 = Inr k' \<and> handled inst k k'"
        by (rule then_V) (use k assms(5) in \<open>simp_all add: prepared sys_ok_def waiters_ok_def\<close>)
      ultimately show ?thesis by simp
    qed
  qed
qed

lemma PollSocket_packets:
  assumes "\<forall>n p. h_packets h n = Some p \<longrightarrow> packet_ok addr p" "\<forall>p. h_arrived h = Some p \<longrightarrow> packet_ok addr p"
  shows "(\<exists>n. PollSocket h = (False, h\<lparr>h_pkt_polls := n\<rparr>)) \<or>
    (\<exists>h1 p n. PollSocket h = (True, h1) \<and> packet_ok addr p \<and>
      ReadFromSocket MaxWireSize h1 = Inr (take MaxWireSize p, h\<lparr>h_pkt_polls := n, h_arrived := None\<rparr>))"
proof (cases "h_arrived h")
  case (Some p)
  then show ?thesis using assms(2) by (cases h) (auto simp: PollSocket_def ReadFromSocket_def packet_ok_def)
next
  case None
  then show ?thesis using assms(1)
    by (cases "h_packets h (h_pkt_polls h)"; cases h) (auto simp: PollSocket_def ReadFromSocket_def packet_ok_def)
qed

lemma packet_header_take [simp]: "packet_header (take MaxWireSize p) = packet_header p"
proof -
  have 4: "of_bytes (take n bs) = of_bytes bs" if "4 \<le> n" for n bs
  proof -
    have "n = Suc (Suc (Suc (Suc (n - 4))))" using that by simp
    then obtain m where "n = Suc (Suc (Suc (Suc m)))" ..
    then show ?thesis by (auto simp: of_bytes_def split: list.splits)
  qed
  show ?thesis by (simp add: packet_header_def drop_take 4 MaxWireSize_def)
qed

lemma Network_CheckPktAvail_handled:
  assumes "sys_ok inst k" "pending_ok k" "handlers_in inst k" "level k = IntOff" "inst NetworkReadPoll"
  shows "\<exists>k'. Network_CheckPktAvail k = Inr k' \<and> handled inst k k'"
proof -
  have "0 < NetworkTime" by (simp add: NetworkTime_def)
  from Schedule_handled [OF assms(1-4) this assms(5)] obtain ps where
    ps: "Interrupt_Schedule NetworkReadPoll NetworkTime NetworkRecvInt k = Inr (k\<lparr>pending := ps\<rparr>)"
    and h: "handled inst k (k\<lparr>pending := ps\<rparr>)" by blast
  let ?k = "k\<lparr>pending := ps\<rparr>"
  have k: "sys_ok inst ?k" "pending_ok ?k" "handlers_in inst ?k" "level ?k = IntOff" "due ?k = due k" "same_ticks k ?k"
    using h by (simp_all add: handled_def)
  have pk: "\<forall>n p. h_packets (host k) n = Some p \<longrightarrow> packet_ok (net_ident k) p"
    "\<forall>p. h_arrived (host k) = Some p \<longrightarrow> packet_ok (net_ident k) p"
    using assms(1,5) by (simp_all add: sys_ok_def)
  show ?thesis
  proof (cases "pkt_length (net_inHdr k) \<noteq> 0")
    case True
    then show ?thesis using ps h by (simp add: Network_CheckPktAvail_def)
  next
    case False
    from PollSocket_packets [OF pk] show ?thesis
    proof (elim disjE exE conjE)
      fix n assume "PollSocket (host k) = (False, (host k)\<lparr>h_pkt_polls := n\<rparr>)"
      then have "Network_CheckPktAvail k = Inr (?k\<lparr>host := (host k)\<lparr>h_pkt_polls := n\<rparr>\<rparr>)"
        using ps False by (simp add: Network_CheckPktAvail_def)
      moreover have "handled inst k (?k\<lparr>host := (host k)\<lparr>h_pkt_polls := n\<rparr>\<rparr>)"
        using k by (simp add: handled_def prepared sys_ok_def waiters_ok_def)
      ultimately show ?thesis by blast
    next
      fix h1 p n
      assume p: "PollSocket (host k) = (True, h1)" "packet_ok (net_ident k) p"
        "ReadFromSocket MaxWireSize h1 = Inr (take MaxWireSize p, (host k)\<lparr>h_pkt_polls := n, h_arrived := None\<rparr>)"
      let ?k1 = "on_stats (\<lambda>s. s\<lparr>numPacketsRecvd := numPacketsRecvd s + 1\<rparr>)
        (?k\<lparr>host := (host k)\<lparr>h_pkt_polls := n, h_arrived := None\<rparr>, net_inHdr := packet_header p,
          net_inbox := take (unat (pkt_length (packet_header p))) (drop PacketHeader_size (take MaxWireSize p))\<rparr>)"
      have "Network_CheckPktAvail k = Semaphore_V plain_SetLevel (messageAvailable ?k1) ?k1"
        using ps False p
        by (simp add: Network_CheckPktAvail_def PostOffice_IncomingPacket_def packet_ok_def Let_def)
      moreover have "\<exists>k'. Semaphore_V plain_SetLevel (messageAvailable ?k1) ?k1 = Inr k' \<and> handled inst k k'"
        by (rule then_V) (use k assms(5) in \<open>simp_all add: prepared sys_ok_def waiters_ok_def\<close>)
      ultimately show ?thesis by simp
    qed
  qed
qed

lemma TimerExpired_handled:
  assumes "sys_ok inst k" "pending_ok k" "handlers_in inst k" "level k = IntOff" "inst TimerHandler" "inHandler k"
  shows "\<exists>k'. Timer_TimerExpired k = Inr k' \<and> handled inst k k'"
proof -
  obtain t k1 where t: "Timer_TimeOfNextInterrupt k = (t, k1)" by fastforce
  have pos: "0 < t" using TimeOfNextInterrupt_range [OF _ t] assms(1) by (simp add: sys_ok_def)
  obtain n where k1: "k1 = k\<lparr>rand_pos := n\<rparr>"
    using t by (cases k) (auto simp: Timer_TimeOfNextInterrupt_def Random_def split: if_split_asm)
  have pre: "sys_ok inst k1" "pending_ok k1" "handlers_in inst k1" "level k1 = IntOff" "due k1 = due k" "same_ticks k k1"
    using assms(1-4) by (simp_all add: k1 prepared sys_ok_def waiters_ok_def)
  from Schedule_handled [OF pre(1-4) pos assms(5)] obtain ps where
    ps: "Interrupt_Schedule TimerHandler t TimerInt k1 = Inr (k1\<lparr>pending := ps\<rparr>)"
    and h: "handled inst k1 (k1\<lparr>pending := ps\<rparr>)" by blast
  have h: "handled inst k (k1\<lparr>pending := ps\<rparr>)" and
    hy: "handled inst k (k1\<lparr>pending := ps, yieldOnReturn := True\<rparr>)"
    using h pre by (simp_all add: handled_def prepared sys_ok_def waiters_ok_def k1)
  have "inHandler k1" using assms(6) k1 by simp
  with t ps h hy show ?thesis
    by (auto simp: Timer_TimerExpired_def TimerInterruptHandler_def Interrupt_YieldOnReturn_def)
qed

lemma device_call_handled:
  assumes "sys_ok inst k" "inHandler k" "status k = SystemMode" "level k = IntOff" "pending_ok k" "inst h"
    "handlers_in inst k"
  shows "\<exists>k'. device_call h k = Inr k' \<and> handled inst k k'"
  using assms
  by (cases h) (simp_all add: device_call_def TimerExpired_handled Disk_HandleInterrupt_handled
    Console_CheckCharAvail_handled Console_WriteDone_handled Network_CheckPktAvail_handled Network_SendDone_handled)

interpretation dev: device_handlers device_call "sys_ok inst" inst for inst
proof
  fix m :: "'a sys_scheme" and h
  assume "sys_ok inst m" "inHandler m" "status m = SystemMode" "level m = IntOff" "pending_ok m" "inst h" "handlers_in inst m"
  from device_call_handled [OF this] show "\<exists>m'. device_call h m = Inr m' \<and> sys_ok inst m' \<and> pending_ok m' \<and>
    handlers_in inst m' \<and> due m' = due m \<and> same_ticks m m' \<and> level m' = IntOff \<and> registers m' = registers m"
    by (simp add: handled_def)
qed (simp_all add: sys_ok_def waiters_ok_def)

section \<open>The geometry of the disk\<close>

definition head_sector :: "int \<Rightarrow> int" where
  "head_sector time = time div RotationTime mod SectorsPerTrack"

lemma abs_track_diff:
  assumes "0 \<le> a" "a < NumSectors" "0 \<le> b" "b < NumSectors"
  shows "\<bar>a div 32 - b div 32\<bar> \<le> 31"
proof -
  have "0 \<le> a div 32 \<and> a div 32 \<le> 31" "0 \<le> b div 32 \<and> b div 32 \<le> 31"
    using assms unfolding NumSectors_def SectorsPerTrack_def NumTracks_def by presburger+
  then show ?thesis by linarith
qed

lemma TimeToSeek_ok:
  assumes "0 \<le> newSector" "newSector < NumSectors" "0 \<le> disk_lastSector k" "disk_lastSector k < NumSectors"
    "0 \<le> totalTicks (stats k)" "Disk_TimeToSeek newSector k = (seek, rotation)"
  shows "0 \<le> seek \<and> seek \<le> 31 * SeekTime \<and> 0 \<le> rotation \<and> rotation < RotationTime \<and>
    (totalTicks (stats k) + seek + rotation) mod RotationTime = 0"
proof -
  let ?d = "\<bar>newSector div 32 - disk_lastSector k div 32\<bar>"
  have d: "0 \<le> ?d" "?d \<le> 31" using abs_track_diff [OF assms(1-4)] by simp_all
  have seek: "seek = ?d * 500"
    using assms by (simp add: Disk_TimeToSeek_def Let_def nachos_defs)
  have "0 \<le> totalTicks (stats k) + seek" using assms(5) d(1) seek by simp
  then have rot: "rotation = (let over = (totalTicks (stats k) + seek) mod 500 in if over > 0 then 500 - over else 0)"
    using assms seek by (auto simp: Disk_TimeToSeek_def Let_def nachos_defs)
  show ?thesis
  proof (intro conjI)
    show "0 \<le> seek" "seek \<le> 31 * SeekTime" using seek d by (simp_all add: nachos_defs)
    show "0 \<le> rotation" "rotation < RotationTime" using rot by (auto simp: Let_def nachos_defs)
    have "(n + (if n mod 500 > 0 then 500 - n mod 500 else 0)) mod 500 = 0" for n :: int by presburger
    then show "(totalTicks (stats k) + seek + rotation) mod RotationTime = 0"
      unfolding rot Let_def by (simp add: RotationTime_def)
  qed
qed

lemma ModuloDiff_ok:
  assumes "0 \<le> to" "0 \<le> from"
  shows "0 \<le> Disk_ModuloDiff to from \<and> Disk_ModuloDiff to from < 32 \<and> (from + Disk_ModuloDiff to from) mod 32 = to mod 32"
proof -
  have "0 \<le> to mod 32" "from mod 32 < 32" by simp_all
  then have "0 \<le> to mod 32 - from mod 32 + 32" by linarith
  then have e: "Disk_ModuloDiff to from = (to mod 32 - from mod 32 + 32) mod 32"
    using assms by (simp add: Disk_ModuloDiff_def Let_def nachos_defs)
  show ?thesis unfolding e by (simp add: mod_simps)
qed

section \<open>The contents of the disk\<close>

text \<open>The disk file is open, is no standard stream, and has its full size.\<close>

definition disk_ok :: "'z sys_scheme \<Rightarrow> bool" where
  "disk_ok k \<longleftrightarrow> 1 < disk_fileno k \<and> (\<exists>ino off. fd_entry (disk_fileno k) (host k) = Some (ino, off) \<and>
     int (length (h_data (host k) ino)) = DiskSize)"

definition sector :: "'z sys_scheme \<Rightarrow> nat \<Rightarrow> byte list" where
  "sector k s = (case fd_entry (disk_fileno k) (host k) of None \<Rightarrow> []
     | Some (ino, off) \<Rightarrow> read_at (SectorSize * s + MagicSize) SectorSize (h_data (host k) ino))"

definition head_ok :: "'z sys_scheme \<Rightarrow> bool" where
  "head_ok k \<longleftrightarrow> 0 \<le> totalTicks (stats k) \<and> 0 \<le> disk_bufferInit k \<and>
     0 \<le> disk_lastSector k \<and> disk_lastSector k < NumSectors"

lemma latency_positive:
  assumes "head_ok k" "0 \<le> s" "s < NumSectors"
  shows "0 < Disk_ComputeLatency s w k"
proof -
  obtain seek rot where t: "Disk_TimeToSeek s k = (seek, rot)" by fastforce
  from TimeToSeek_ok [OF assms(2,3) _ _ _ t] assms(1) have b: "0 \<le> seek" "0 \<le> rot" by (simp_all add: head_ok_def)
  have "0 \<le> c_div (totalTicks (stats k) + seek + rot) RotationTime"
    using assms(1) b by (simp add: head_ok_def RotationTime_def pos_imp_zdiv_nonneg_iff)
  from ModuloDiff_ok [OF assms(2) this] show ?thesis using t b
    by (auto simp: Disk_ComputeLatency_def Let_def RotationTime_def)
qed

lemma sector_in_file:
  assumes "disk_ok k" "fd_entry (disk_fileno k) (host k) = Some (ino, off)" "0 \<le> s" "s < NumSectors"
  shows "SectorSize * nat s + MagicSize + SectorSize \<le> length (h_data (host k) ino)"
proof -
  have "int (length (h_data (host k) ino)) = 524292" using assms(1,2) by (auto simp: disk_ok_def nachos_defs)
  moreover have "nat s < 1024" using assms(3,4) by (simp add: nachos_defs)
  ultimately show ?thesis by (simp add: nachos_defs)
qed

lemma UpdateLast_frame [simp]:
  "host (Disk_UpdateLast s k) = host k" "disk_fileno (Disk_UpdateLast s k) = disk_fileno k"
  "pending (Disk_UpdateLast s k) = pending k" "stats (Disk_UpdateLast s k) = stats k"
  "disk_active (Disk_UpdateLast s k) = disk_active k" "semaphores (Disk_UpdateLast s k) = semaphores k"
  "threads (Disk_UpdateLast s k) = threads k" "disk_semaphore (Disk_UpdateLast s k) = disk_semaphore k"
  by (simp_all add: Disk_UpdateLast_def split: prod.split)

lemma UpdateLast_head:
  assumes "head_ok k" "0 \<le> s" "s < NumSectors"
  shows "head_ok (Disk_UpdateLast s k)"
proof -
  obtain seek rot where t: "Disk_TimeToSeek s k = (seek, rot)" by fastforce
  from TimeToSeek_ok [OF assms(2,3) _ _ _ t] assms show ?thesis
    by (auto simp: head_ok_def Disk_UpdateLast_def t)
qed

lemma Schedule_some: "0 < t \<Longrightarrow> \<exists>ps. Interrupt_Schedule h t ty k = Inr (k\<lparr>pending := ps\<rparr>)"
  by (auto simp: Interrupt_Schedule_def Let_def seq_insert_def)

lemma ReadRequest_ok:
  assumes "disk_ok k" "head_ok k" "\<not> disk_active k" "0 \<le> s" "s < NumSectors"
  shows "\<exists>k'. Disk_ReadRequest s k = Inr (sector k (nat s), k') \<and> disk_active k' \<and> disk_ok k' \<and> sector k' = sector k"
proof -
  obtain ino off where e: "fd_entry (disk_fileno k) (host k) = Some (ino, off)" using assms(1) by (auto simp: disk_ok_def)
  note fit = sector_in_file [OF assms(1) e assms(4,5)]
  have fd: "disk_fileno k \<noteq> 0" using assms(1) by (simp add: disk_ok_def)
  let ?p = "SectorSize * nat s + MagicSize"
  define h where "h = set_fd (nat (disk_fileno k)) (Some (ino, ?p + SectorSize))
    (set_fd (nat (disk_fileno k)) (Some (ino, ?p)) (host k))"
  from Lseek_Read [OF e fd fit] have
    r: "bind_r (Lseek (disk_fileno k) (int ?p) 0 (host k)) (Read (disk_fileno k) (int SectorSize)) =
      Inr (sector k (nat s), h)" using e by (simp add: sector_def h_def)
  have he: "fd_entry (disk_fileno k) h = Some (ino, ?p + SectorSize)" "h_data h = h_data (host k)"
    using fd_set_same [OF fd_set_same [OF e]] by (simp_all add: h_def)
  have p: "int ?p = int SectorSize * s + int MagicSize" using assms(4) by simp
  let ?k = "on_stats (\<lambda>st. st\<lparr>numDiskReads := numDiskReads st + 1\<rparr>)
    (Disk_UpdateLast s (k\<lparr>host := h, disk_active := True\<rparr>))"
  from r have "Disk_ReadRequest s k = bind_r (Interrupt_Schedule DiskDone (Disk_ComputeLatency s False k) DiskInt ?k)
    (\<lambda>k1. Inr (sector k (nat s), k1))"
    unfolding p using assms(3-5) by (auto simp: Disk_ReadRequest_def Let_def elim!: bind_r_InrE)
  then obtain ps where "Disk_ReadRequest s k = Inr (sector k (nat s), ?k\<lparr>pending := ps\<rparr>)"
    using Schedule_some [OF latency_positive [OF assms(2,4,5)], of DiskDone False DiskInt ?k] by auto
  moreover have "disk_ok (?k\<lparr>pending := ps\<rparr>)" "sector (?k\<lparr>pending := ps\<rparr>) = sector k"
    using e he assms(1) by (auto simp: disk_ok_def sector_def on_stats_def fun_eq_iff)
  ultimately show ?thesis by (simp add: on_stats_def)
qed

lemma WriteRequest_ok:
  assumes "disk_ok k" "head_ok k" "\<not> disk_active k" "0 \<le> s" "s < NumSectors" "length d = SectorSize"
  shows "\<exists>k'. Disk_WriteRequest s d k = Inr k' \<and> disk_active k' \<and> disk_ok k' \<and> head_ok k' \<and>
    (waiters_ok k' \<longleftrightarrow> waiters_ok k) \<and> semaphores k' = semaphores k \<and> disk_semaphore k' = disk_semaphore k \<and>
    (\<forall>u < nat NumSectors. sector k' u = (if u = nat s then d else sector k u))"
proof -
  obtain ino off where e: "fd_entry (disk_fileno k) (host k) = Some (ino, off)" using assms(1) by (auto simp: disk_ok_def)
  note fit = sector_in_file [OF assms(1) e]
  have fd: "disk_fileno k \<noteq> 1" and d: "d \<noteq> []" using assms(1,6) by (auto simp: disk_ok_def nachos_defs)
  let ?p = "SectorSize * nat s + MagicSize"
  define h where "h = set_fd (nat (disk_fileno k)) (Some (ino, ?p + length d))
    ((set_fd (nat (disk_fileno k)) (Some (ino, ?p)) (host k))
      \<lparr>h_data := (h_data (host k))(ino := write_at ?p d (h_data (host k) ino))\<rparr>)"
  have w: "bind_r (Lseek (disk_fileno k) (int ?p) 0 (host k)) (WriteFile (disk_fileno k) d) = Inr h"
    unfolding h_def by (rule Lseek_WriteFile [OF e fd d])
  have he: "fd_entry (disk_fileno k) h = Some (ino, ?p + length d)"
    "h_data h = (h_data (host k))(ino := write_at ?p d (h_data (host k) ino))"
    using fd_set_same [of "disk_fileno k" "(set_fd (nat (disk_fileno k)) (Some (ino, ?p)) (host k))
      \<lparr>h_data := (h_data (host k))(ino := write_at ?p d (h_data (host k) ino))\<rparr>"] fd_set_same [OF e]
    by (simp_all add: h_def)
  have p: "int ?p = int SectorSize * s + int MagicSize" using assms(4) by simp
  let ?k = "on_stats (\<lambda>st. st\<lparr>numDiskWrites := numDiskWrites st + 1\<rparr>)
    (Disk_UpdateLast s (k\<lparr>host := h, disk_active := True\<rparr>))"
  from w have "Disk_WriteRequest s d k = Interrupt_Schedule DiskDone (Disk_ComputeLatency s True k) DiskInt ?k"
    unfolding p using assms(3-6) by (auto simp: Disk_WriteRequest_def Let_def elim!: bind_r_InrE)
  then obtain ps where k': "Disk_WriteRequest s d k = Inr (?k\<lparr>pending := ps\<rparr>)"
    using Schedule_some [OF latency_positive [OF assms(2,4,5)], of DiskDone True DiskInt ?k] by auto
  let ?k' = "?k\<lparr>pending := ps\<rparr>"
  have s: "sector ?k' u = read_at (SectorSize * u + MagicSize) SectorSize (write_at ?p d (h_data (host k) ino))" for u
    using he by (simp add: sector_def on_stats_def)
  have "sector ?k' u = (if u = nat s then d else sector k u)" if "u < nat NumSectors" for u
  proof (cases "u = nat s")
    case True
    then show ?thesis unfolding s using read_write_same [of ?p d] assms(6) by simp
  next
    case False
    have "SectorSize * u + MagicSize + SectorSize \<le> length (h_data (host k) ino)"
      using fit [of "int u"] that by simp
    moreover have "SectorSize * u + SectorSize \<le> SectorSize * nat s \<or> SectorSize * nat s + SectorSize \<le> SectorSize * u"
      using False by (metis Suc_leI linorder_neqE_nat mult_Suc_right mult_le_mono2 add.commute)
    ultimately show ?thesis unfolding s using False e assms(6)
      by (subst read_write_other) (auto simp: sector_def)
  qed
  moreover have "disk_ok ?k'"
    using assms(1) e he fit [OF assms(4,5)] assms(6) by (auto simp: disk_ok_def on_stats_def max_def)
  moreover have "head_ok ?k'"
    using UpdateLast_head [OF _ assms(4,5), of "k\<lparr>host := h, disk_active := True\<rparr>"] assms(2)
    by (simp add: head_ok_def on_stats_def)
  ultimately show ?thesis using k' by (auto simp: on_stats_def waiters_ok_def)
qed

section \<open>Properties\<close>


text \<open>
  C5: What is written to the disk is read back.  A write request for a sector of the disk is
  accepted when no other is in progress and changes exactly that sector; after its completion
  interrupt a read request returns the bytes written.
\<close>

theorem disk_write_read:
  assumes "disk_ok k" "head_ok k" "\<not> disk_active k" "0 \<le> s" "s < NumSectors" "length d = SectorSize"
    "waiters_ok k" "semaphores k (disk_semaphore k) \<noteq> None"
  shows "\<exists>k1 k2 k3. Disk_WriteRequest s d k = Inr k1 \<and>
    (\<forall>u < nat NumSectors. sector k1 u = (if u = nat s then d else sector k u)) \<and>
    Disk_HandleInterrupt (k1\<lparr>level := IntOff\<rparr>) = Inr k2 \<and> Disk_ReadRequest s k2 = Inr (d, k3)"
proof -
  from WriteRequest_ok [OF assms(1-6)] obtain k1 where
    k1: "Disk_WriteRequest s d k = Inr k1" "disk_ok k1" "head_ok k1" "waiters_ok k1" "semaphores k1 = semaphores k"
      "disk_semaphore k1 = disk_semaphore k"
      "\<forall>u < nat NumSectors. sector k1 u = (if u = nat s then d else sector k u)" using assms(7) by blast
  let ?k = "k1\<lparr>level := IntOff, disk_active := False\<rparr>"
  obtain sm where sm: "semaphores ?k (disk_semaphore ?k) = Some sm" using assms(8) k1(5,6) by auto
  have "level ?k = IntOff" "waiters_ok ?k" using k1(4) by (simp_all add: waiters_ok_def)
  from V_off [OF this sm] obtain T R S where
    v: "Disk_HandleInterrupt (k1\<lparr>level := IntOff\<rparr>) = Inr (?k\<lparr>threads := T, readyList := R, semaphores := S\<rparr>)"
    unfolding Disk_HandleInterrupt_def SynchDisk_RequestDone_def by auto
  let ?k2 = "?k\<lparr>threads := T, readyList := R, semaphores := S\<rparr>"
  have "disk_ok ?k2" "head_ok ?k2" "\<not> disk_active ?k2" "sector ?k2 (nat s) = sector k1 (nat s)"
    using k1(2,3) by (auto simp: disk_ok_def head_ok_def sector_def)
  moreover have "sector k1 (nat s) = d" using k1(7) assms(4,5) by simp
  ultimately obtain k3 where "Disk_ReadRequest s ?k2 = Inr (d, k3)"
    using ReadRequest_ok [of ?k2 s] assms(4,5) by auto
  then show ?thesis using k1(1,7) v by blast
qed



section \<open>A machine to try them on\<close>

definition demo_host :: host where
  "demo_host = \<lparr>h_dir = [''DISK'' \<mapsto> 0], h_data = (\<lambda>_. replicate (nat DiskSize) 0), h_next = 1,
     h_fds = [None, None, None, Some (0, 0)], h_denied = (\<lambda>_. False), h_keys = (\<lambda>_. NoKey), h_polls = 0,
     h_ready = None, h_display = [], h_packets = (\<lambda>_. None), h_pkt_polls = 0, h_arrived = None,
     h_peers = (\<lambda>_. False), h_sent = []\<rparr>"

definition demo_sys :: sys where
  "demo_sys = kern.extend (demo_kern\<lparr>threads := [0 \<mapsto> demo_main RUNNING], thread_brk := 1,
       semaphores := (\<lambda>s. if s < 7 then Some \<lparr>sem_name = ''s'', sem_value = 0, sem_queue = []\<rparr> else None),
       sem_brk := 7,
       pending := [(4, Some (PendingInterrupt_new ConsoleReadPoll 4 ConsoleReadInt))]\<rparr>)
     (sys.fields demo_host 0 1 False EOF_char 0 1 2 3 3 False 0 0 4 0 1 False
       \<lparr>pkt_to = 0, pkt_from = 0, pkt_length = 0\<rparr> [] 5 6)"

lemmas demo_sys_simps = demo_sys_def kern.extend_def sys.fields_def demo_kern_def demo_host_def

lemma demo_sys_ok: "sys_ok (\<lambda>_. True) demo_sys" "pending_ok demo_sys" "handlers_in (\<lambda>_. True) demo_sys"
  "cpu_ok demo_sys" "level demo_sys = IntOff" "status demo_sys = SystemMode"
  by (simp_all add: sys_ok_def waiters_ok_def pending_ok_def handlers_in_def cpu_ok_def demo_sys_simps
      PendingInterrupt_new_def)

lemma demo_disk_ok: "disk_ok demo_sys" "head_ok demo_sys" "\<not> disk_active demo_sys"
  by (simp_all add: disk_ok_def head_ok_def demo_sys_simps fd_entry_def nachos_defs Statistics_new_def)


theorem disk_write_read_witness:
  "\<exists>k1 k2 k3. Disk_WriteRequest 5 (replicate 512 7) demo_sys = Inr k1 \<and>
    Disk_HandleInterrupt (k1\<lparr>level := IntOff\<rparr>) = Inr k2 \<and> Disk_ReadRequest 5 k2 = Inr (replicate 512 7, k3)"
  using disk_write_read [OF demo_disk_ok, of 5 "replicate 512 7"] demo_sys_ok(1)
  by (fastforce simp: nachos_defs sys_ok_def)



end
