(* ===== verification/Post_Office.thy ===== *)
theory Post_Office
  imports Synch_Devices Device_Correct
begin

text \<open>
  The post office of \<^verbatim>\<open>network/post.cc\<close>: mailboxes on top of the unreliable network.  The theory
  shows that a message survives the way through the headers of both layers, the wire and the
  mailbox of the receiver.
\<close>

section \<open>State\<close>

definition MailHeader_size :: nat where "MailHeader_size = 12"
definition MaxMailSize :: nat where "MaxMailSize = MaxPacketSize - MailHeader_size"

declare MailHeader_size_def [nachos_defs] MaxMailSize_def [nachos_defs]

record MailHeader =
  mail_to :: "32 word"
  mail_from :: "32 word"
  mail_length :: "32 word"

record Mail =
  ml_pktHdr :: PacketHeader
  ml_mailHdr :: MailHeader
  ml_data :: "byte list"

record net = sys +
  po_netAddr :: "32 word"
  po_numBoxes :: int
  po_boxes :: "Mail synchlist list"

section \<open>Mail and mailboxes\<close>

definition mail_header :: "byte list \<Rightarrow> MailHeader" where
  "mail_header bs = \<lparr>mail_to = of_bytes bs, mail_from = of_bytes (drop 4 bs), mail_length = of_bytes (drop 8 bs)\<rparr>"

definition Mail_new :: "PacketHeader \<Rightarrow> MailHeader \<Rightarrow> byte list \<Rightarrow> Mail result" where
  "Mail_new pktH mailH msgData =
     bind_r (ASSERT (unat (mail_length mailH) \<le> MaxMailSize)) (\<lambda>_.
     if length msgData < unat (mail_length mailH) then Inl OutOfBounds
     else Inr \<lparr>ml_pktHdr = pktH, ml_mailHdr = mailH, ml_data = take (unat (mail_length mailH)) msgData\<rparr>)"

definition MailBox_Put :: "PacketHeader \<Rightarrow> MailHeader \<Rightarrow> byte list \<Rightarrow> Mail synchlist \<Rightarrow> Mail synchlist result" where
  "MailBox_Put pktHdr mailHdr data messages =
     bind_r (Mail_new pktHdr mailHdr data) (\<lambda>mail. SynchList_Append (Some mail) messages)"

definition MailBox_Get :: "Mail synchlist \<Rightarrow>
    ((PacketHeader \<times> MailHeader \<times> byte list) \<times> Mail synchlist) result" where
  "MailBox_Get messages =
     bind_r (SynchList_Remove messages) (\<lambda>(m, ms).
       case m of None \<Rightarrow> Inl BadPointer
       | Some mail \<Rightarrow> Inr ((ml_pktHdr mail, ml_mailHdr mail,
           take (unat (mail_length (ml_mailHdr mail))) (ml_data mail)), ms))"

section \<open>Post office\<close>

text \<open>
  \<open>helper\<close> is the address of \<^verbatim>\<open>PostalHelper\<close>, the function the postal worker's thread runs, and
  \<open>this\<close> that of the post office, its argument.
\<close>

definition PostOffice_new :: "(IntStatus \<Rightarrow> 'z net_scheme \<Rightarrow> (IntStatus \<times> 'z net_scheme) result) \<Rightarrow> nat \<Rightarrow> int \<Rightarrow>
    32 word \<Rightarrow> rat \<Rightarrow> int \<Rightarrow> 'z net_scheme \<Rightarrow> 'z net_scheme result" where
  "PostOffice_new setl helper this addr reliability nBoxes k =
     (case Semaphore_new ''message available'' 0 k of (ma, k1) \<Rightarrow>
      case Semaphore_new ''message sent'' 0 k1 of (ms, k2) \<Rightarrow>
      bind_r (Network_new addr reliability
        (k2\<lparr>messageAvailable := ma, messageSent := ms, po_netAddr := addr, po_numBoxes := nBoxes,
            po_boxes := replicate (nat nBoxes) SynchList_new\<rparr>)) (\<lambda>k3.
      case Thread_new ''postal worker'' k3 of (t, k4) \<Rightarrow> Thread_Fork setl t helper this k4))"

text \<open>
  One turn of the loop of \<^verbatim>\<open>PostalDelivery\<close>.  The buffer keeps the end of the previous packet when a
  shorter one arrives.
\<close>

definition PostalDelivery_step :: "'z net_scheme semop \<Rightarrow> byte list \<times> 'z net_scheme \<Rightarrow>
    (byte list \<times> 'z net_scheme) result" where
  "PostalDelivery_step P = (\<lambda>(buffer, k).
     bind_r (P (messageAvailable k) k) (\<lambda>k1.
       case Network_Receive k1 of (pktHdr, data, k2) \<Rightarrow>
       let buffer = data @ drop (length data) buffer; mailHdr = mail_header buffer in
       bind_r (ASSERT (0 \<le> sint (mail_to mailHdr) \<and> sint (mail_to mailHdr) < po_numBoxes k2)) (\<lambda>_.
       bind_r (ASSERT (unat (mail_length mailHdr) \<le> MaxMailSize)) (\<lambda>_.
       bind_r (arr_get (po_boxes k2) (sint (mail_to mailHdr))) (\<lambda>box.
       bind_r (MailBox_Put pktHdr mailHdr (drop MailHeader_size buffer) box) (\<lambda>box.
       bind_r (arr_set (po_boxes k2) (sint (mail_to mailHdr)) box) (\<lambda>boxes.
       Inr (buffer, k2\<lparr>po_boxes := boxes\<rparr>))))))))"

text \<open>\<^verbatim>\<open>for (;;)\<close>: the first \<open>n\<close> turns; \<open>buffer\<close> is the new array of \<^verbatim>\<open>MaxPacketSize\<close> bytes.\<close>

fun PostalDelivery :: "nat \<Rightarrow> 'z net_scheme semop \<Rightarrow> byte list \<times> 'z net_scheme \<Rightarrow>
    (byte list \<times> 'z net_scheme) result" where
  "PostalDelivery 0 P bk = Inr bk"
| "PostalDelivery (Suc n) P bk = bind_r (PostalDelivery_step P bk) (PostalDelivery n P)"

definition PostOffice_Send :: "byte list \<Rightarrow> 'z net_scheme semop \<Rightarrow> PacketHeader \<Rightarrow> MailHeader \<Rightarrow> byte list \<Rightarrow>
    'z net_scheme \<Rightarrow> 'z net_scheme result" where
  "PostOffice_Send junk P pktHdr mailHdr data k =
     bind_r (ASSERT (unat (mail_length mailHdr) \<le> MaxMailSize)) (\<lambda>_.
     bind_r (ASSERT (0 \<le> sint (mail_to mailHdr) \<and> sint (mail_to mailHdr) < po_numBoxes k)) (\<lambda>_.
     if length data < unat (mail_length mailHdr) then Inl OutOfBounds
     else
       let hdr = pktHdr\<lparr>pkt_from := po_netAddr k, pkt_length := mail_length mailHdr + of_nat MailHeader_size\<rparr>;
           buffer = header_bytes (mail_to mailHdr) (mail_from mailHdr) (mail_length mailHdr) @
             take (unat (mail_length mailHdr)) data @
             replicate (MaxMailSize - unat (mail_length mailHdr)) 0
       in bind_r (Lock_Acquire k) (\<lambda>k1.
          bind_r (Network_Send junk hdr buffer k1) (\<lambda>k2.
          bind_r (P (messageSent k2) k2) Lock_Release))))"

definition PostOffice_Receive :: "int \<Rightarrow> 'z net_scheme \<Rightarrow>
    ((PacketHeader \<times> MailHeader \<times> byte list) \<times> 'z net_scheme) result" where
  "PostOffice_Receive box k =
     bind_r (ASSERT (0 \<le> box \<and> box < po_numBoxes k)) (\<lambda>_.
     bind_r (arr_get (po_boxes k) box) (\<lambda>messages.
     bind_r (MailBox_Get messages) (\<lambda>((pktHdr, mailHdr, data), messages).
     bind_r (arr_set (po_boxes k) box messages) (\<lambda>boxes.
     bind_r (ASSERT (unat (mail_length mailHdr) \<le> MaxMailSize)) (\<lambda>_.
     Inr ((pktHdr, mailHdr, data), k\<lparr>po_boxes := boxes\<rparr>))))))"

section \<open>A message on its way\<close>

text \<open>\<^verbatim>\<open>P\<close> on a semaphore that is available returns at once.\<close>

lemma P_alone_available:
  assumes "semaphores k s = Some sm" "sem_value sm \<noteq> 0" "\<not> inHandler k \<or> level k = IntOff"
  shows "P_alone fuel idle plain_SetLevel s k =
    Inr (k\<lparr>semaphores := (semaphores k)(s \<mapsto> sm\<lparr>sem_value := sem_value sm - 1\<rparr>)\<rparr>)"
proof -
  have "level k = IntOff \<or> \<not> inHandler k" using assms(3) by blast
  moreover have "k\<lparr>level := level k\<rparr> = k" by simp
  ultimately show ?thesis using assms(1,2)
    by (auto simp: P_alone_def Semaphore_P_def P_loop_def P_test_def plain_SetLevel_def upd_sem_def numeral_2_eq_2
        ASSERT_def)
qed

definition mail_buffer :: "MailHeader \<Rightarrow> byte list \<Rightarrow> byte list" where
  "mail_buffer mh data = header_bytes (mail_to mh) (mail_from mh) (mail_length mh) @
     take (unat (mail_length mh)) data @ replicate (MaxMailSize - unat (mail_length mh)) 0"

definition mail_packet :: "byte list \<Rightarrow> PacketHeader \<Rightarrow> MailHeader \<Rightarrow> byte list \<Rightarrow> byte list" where
  "mail_packet junk hdr mh data = wire_packet junk hdr (mail_buffer mh data)"

definition mail_hdr :: "PacketHeader \<Rightarrow> MailHeader \<Rightarrow> 32 word \<Rightarrow> PacketHeader" where
  "mail_hdr ph mh addr = ph\<lparr>pkt_from := addr, pkt_length := mail_length mh + of_nat MailHeader_size\<rparr>"

lemma header_drop:
  "of_bytes (header_bytes a b c @ bs) = a" "of_bytes (drop 4 (header_bytes a b c @ bs)) = b"
  "of_bytes (drop 8 (header_bytes a b c @ bs)) = c" "length (header_bytes a b c) = 12"
  "drop 12 (header_bytes a b c @ bs) = bs"
  by (simp_all add: header_bytes_def)

lemma mail_hdr_length:
  assumes "unat (mail_length mh) \<le> MaxMailSize"
  shows "unat (pkt_length (mail_hdr ph mh addr)) = unat (mail_length mh) + 12"
proof -
  have "unat (mail_length mh) + unat (12 :: 32 word) < 2 ^ 32" using assms by (simp add: nachos_defs)
  then show ?thesis by (simp add: mail_hdr_def MailHeader_size_def unat_word_ariths)
qed

lemma packet_on_wire:
  assumes "unat (mail_length mh) \<le> MaxMailSize" "length data = unat (mail_length mh)" "hdr = mail_hdr ph mh addr"
  shows "packet_header (mail_packet junk hdr mh data) = hdr" "length (mail_packet junk hdr mh data) = MaxWireSize"
    "take (unat (pkt_length hdr)) (drop PacketHeader_size (mail_packet junk hdr mh data)) =
      header_bytes (mail_to mh) (mail_from mh) (mail_length mh) @ data"
proof -
  let ?n = "unat (mail_length mh)"
  have len: "unat (pkt_length hdr) = ?n + 12" unfolding assms(3) by (rule mail_hdr_length [OF assms(1)])
  let ?h = "header_bytes (pkt_to hdr) (pkt_from hdr) (pkt_length hdr)"
  let ?m = "header_bytes (mail_to mh) (mail_from mh) (mail_length mh)"
  have "take (?n + 12) (mail_buffer mh data) = ?m @ data"
    using assms(2) by (simp add: mail_buffer_def header_drop)
  then have w: "mail_packet junk hdr mh data = take 64 (?h @ (?m @ data) @ junk @ replicate 64 0)"
    unfolding mail_packet_def wire_packet_def len by (simp add: MaxWireSize_def)
  have "?n \<le> 40" using assms(1) by (simp add: nachos_defs)
  then have cut: "mail_packet junk hdr mh data =
      ?h @ (?m @ data) @ take (40 - ?n) (junk @ replicate 64 0)"
    unfolding w using assms(2) by (simp add: header_drop)
  show "packet_header (mail_packet junk hdr mh data) = hdr"
    unfolding packet_header_def cut header_drop by simp
  show "length (mail_packet junk hdr mh data) = MaxWireSize"
    unfolding w by (simp add: MaxWireSize_def)
  show "take (unat (pkt_length hdr)) (drop PacketHeader_size (mail_packet junk hdr mh data)) = ?m @ data"
    unfolding cut len PacketHeader_size_def using assms(2) by (simp add: header_drop)
qed

text \<open>What the sender puts on the wire.\<close>

lemma Send_wire:
  assumes "PostOffice_Send junk P ph mh data a = Inr a'" "\<forall>s k k'. P s k = Inr k' \<longrightarrow> h_sent (host k') = h_sent (host k)"
    "h_sent (host a') = h_sent (host a) @ [(nm, pkt)]"
  shows "unat (mail_length mh) \<le> MaxMailSize" "unat (mail_length mh) \<le> length data"
    "0 \<le> sint (mail_to mh)" "nm = socket_name (pkt_to ph)"
    "pkt = mail_packet junk (mail_hdr ph mh (po_netAddr a)) mh (take (unat (mail_length mh)) data)"
proof -
  let ?hdr = "mail_hdr ph mh (po_netAddr a)"
  have buf: "mail_buffer mh data = mail_buffer mh (take (unat (mail_length mh)) data)"
    by (simp add: mail_buffer_def)
  from assms(1) obtain k2 k3 where
    c: "unat (mail_length mh) \<le> MaxMailSize" "unat (mail_length mh) \<le> length data" "0 \<le> sint (mail_to mh)"
    and k2: "Network_Send junk ?hdr (mail_buffer mh data) a = Inr k2" and k3: "P (messageSent k2) k2 = Inr a'"
    by (auto simp: PostOffice_Send_def Let_def Lock_Acquire_def Lock_Release_def mail_hdr_def mail_buffer_def ASSERT_def
        elim!: bind_r_InrE split: if_split_asm)
  have "h_sent (host k2) = h_sent (host a) @ [(nm, pkt)]" using assms(2,3) k3 by metis
  with k2 have "nm = socket_name (pkt_to ?hdr)" "pkt = wire_packet junk ?hdr (mail_buffer mh data)"
    by (auto simp: Network_Send_def Random_def SendToSocket_def Interrupt_Schedule_def Let_def
        elim!: bind_r_InrE split: if_split_asm)
  then show "unat (mail_length mh) \<le> MaxMailSize" "unat (mail_length mh) \<le> length data"
    "0 \<le> sint (mail_to mh)" "nm = socket_name (pkt_to ph)"
    "pkt = mail_packet junk ?hdr mh (take (unat (mail_length mh)) data)"
    using c buf by (simp_all add: mail_packet_def) (simp add: mail_hdr_def)
qed

text \<open>The arrival of a packet, up to waking the postal worker.\<close>

lemma CheckPktAvail_arrives:
  assumes "h_arrived (host b) = Some pkt" "length pkt = MaxWireSize" "pkt_length (net_inHdr b) = 0"
    "pkt_to (packet_header pkt) = net_ident b" "unat (pkt_length (packet_header pkt)) \<le> MaxPacketSize"
    "level b = IntOff" "waiters_ok b" "semaphores b (messageAvailable b) = Some sm" "0 \<le> sem_value sm"
  shows "\<exists>b' sm'. Network_CheckPktAvail b = Inr b' \<and> net_inHdr b' = packet_header pkt \<and>
    net_inbox b' = take (unat (pkt_length (packet_header pkt))) (drop PacketHeader_size pkt) \<and>
    level b' = IntOff \<and> messageAvailable b' = messageAvailable b \<and> net.more b' = net.more b \<and>
    po_boxes b' = po_boxes b \<and> po_numBoxes b' = po_numBoxes b \<and>
    semaphores b' (messageAvailable b') = Some sm' \<and> sem_value sm' \<noteq> 0"
proof -
  have "0 < NetworkTime" by (simp add: NetworkTime_def)
  from Schedule_some [OF this] obtain ps where
    ps: "Interrupt_Schedule NetworkReadPoll NetworkTime NetworkRecvInt b = Inr (b\<lparr>pending := ps\<rparr>)" by blast
  let ?hdr = "packet_header pkt"
  let ?b = "on_stats (\<lambda>s. s\<lparr>numPacketsRecvd := numPacketsRecvd s + 1\<rparr>)
    (b\<lparr>pending := ps, host := (host b)\<lparr>h_arrived := None\<rparr>, net_inHdr := ?hdr,
      net_inbox := take (unat (pkt_length ?hdr)) (drop PacketHeader_size pkt)\<rparr>)"
  have "Network_CheckPktAvail b = Semaphore_V plain_SetLevel (messageAvailable ?b) ?b"
    using ps assms(1-5)
    by (simp add: Network_CheckPktAvail_def PollSocket_def ReadFromSocket_def PostOffice_IncomingPacket_def Let_def)
  moreover have "level ?b = IntOff" "waiters_ok ?b" "semaphores ?b (messageAvailable ?b) = Some sm"
    using assms(6-8) by (simp_all add: on_stats_def waiters_ok_def)
  from V_off [OF this] obtain T R S sm' where
    "Semaphore_V plain_SetLevel (messageAvailable ?b) ?b = Inr (?b\<lparr>threads := T, readyList := R, semaphores := S\<rparr>)"
    "S (messageAvailable ?b) = Some sm'" "sem_value sm' = sem_value sm + 1" by blast
  ultimately show ?thesis using assms(6,9) by (simp add: on_stats_def)
qed

text \<open>The postal worker's turn.\<close>

lemma PostalDelivery_step_ok:
  assumes "unat (mail_length mh) \<le> MaxMailSize" "length data = unat (mail_length mh)" "hdr = mail_hdr ph mh addr"
    "0 \<le> sint (mail_to mh)" "sint (mail_to mh) < po_numBoxes b" "length (po_boxes b) = nat (po_numBoxes b)"
    "net_inHdr b = hdr" "net_inbox b = header_bytes (mail_to mh) (mail_from mh) (mail_length mh) @ data"
    "semaphores b (messageAvailable b) = Some sm" "sem_value sm \<noteq> 0" "level b = IntOff"
  shows "\<exists>buf b'. PostalDelivery_step (P_alone fuel idle plain_SetLevel) (buffer, b) = Inr (buf, b') \<and>
    po_numBoxes b' = po_numBoxes b \<and> po_boxes b' = (po_boxes b)[nat (sint (mail_to mh)) :=
      po_boxes b ! nat (sint (mail_to mh)) @ [(0, Some \<lparr>ml_pktHdr = hdr, ml_mailHdr = mh, ml_data = data\<rparr>)]]"
proof -
  let ?i = "sint (mail_to mh)"
  let ?msg = "header_bytes (mail_to mh) (mail_from mh) (mail_length mh) @ data"
  let ?k = "b\<lparr>semaphores := (semaphores b)(messageAvailable b \<mapsto> sm\<lparr>sem_value := sem_value sm - 1\<rparr>)\<rparr>"
  have len: "unat (pkt_length hdr) = unat (mail_length mh) + 12" unfolding assms(3) by (rule mail_hdr_length [OF assms(1)])
  have msg: "length ?msg = unat (mail_length mh) + 12" using assms(2) by (simp add: header_drop)
  have "pkt_length hdr \<noteq> 0" using len by auto
  then have r: "Network_Receive ?k = (hdr, ?msg, ?k\<lparr>net_inHdr := hdr\<lparr>pkt_length := 0\<rparr>\<rparr>)"
    using assms(7,8) len msg by (simp add: Network_Receive_def Let_def)
  have h: "mail_header (?msg @ rest) = mh" for rest
    unfolding mail_header_def append_assoc header_drop by simp
  have i: "nat ?i < length (po_boxes b)" "arr_get (po_boxes b) ?i = Inr (po_boxes b ! nat ?i)"
    "arr_set (po_boxes b) ?i x = Inr ((po_boxes b)[nat ?i := x])" for x
    using assms(4-6) by (auto simp: arr_get_def arr_set_def)
  from P_alone_available [OF assms(9,10), of fuel idle] assms(11) have
    p: "P_alone fuel idle plain_SetLevel (messageAvailable b) b = Inr ?k" by simp
  show ?thesis
    using assms(1,2,4,5) i
    by (simp add: PostalDelivery_step_def p r Let_def h [unfolded append_assoc] header_drop(4)
        MailHeader_size_def MailBox_Put_def Mail_new_def
        SynchList_Append_def Lock_Acquire_def Lock_Release_def Condition_Signal_def seq_append_def)
qed

section \<open>Properties\<close>

text \<open>
  C14: Mail arrives.  If the packet that \<^verbatim>\<open>PostOffice::Send\<close> hands to the network reaches the machine it
  is addressed to, then the network interrupt there accepts it, the postal worker puts it into the
  addressed mailbox, and \<^verbatim>\<open>PostOffice::Receive\<close> on that mailbox, when no other mail waits in it, returns
  the sender's address, the mail header and the bytes that were sent.
\<close>

theorem mail_arrives:
  fixes a b :: "'z net_scheme"
  assumes "PostOffice_Send junk P ph mh data a = Inr a'" "\<forall>s k k'. P s k = Inr k' \<longrightarrow> h_sent (host k') = h_sent (host k)"
    "h_sent (host a') = h_sent (host a) @ [(nm, pkt)]"
    and "h_arrived (host b) = Some pkt" "pkt_length (net_inHdr b) = 0" "net_ident b = pkt_to ph"
    "level b = IntOff" "waiters_ok b" "semaphores b (messageAvailable b) = Some sm" "0 \<le> sem_value sm"
    "sint (mail_to mh) < po_numBoxes b" "length (po_boxes b) = nat (po_numBoxes b)"
    "po_boxes b ! nat (sint (mail_to mh)) = []"
  shows "nm = socket_name (net_ident b) \<and> (\<exists>b1 buf b2 b3. Network_CheckPktAvail b = Inr b1 \<and>
    PostalDelivery_step (P_alone fuel idle plain_SetLevel) (buffer, b1) = Inr (buf, b2) \<and>
    PostOffice_Receive (sint (mail_to mh)) b2 =
      Inr ((mail_hdr ph mh (po_netAddr a), mh, take (unat (mail_length mh)) data), b3))"
proof -
  define d where "d = take (unat (mail_length mh)) data"
  let ?hdr = "mail_hdr ph mh (po_netAddr a)" and ?i = "sint (mail_to mh)"
  note w = Send_wire [OF assms(1-3)]
  have d: "length d = unat (mail_length mh)" using w(2) by (simp add: d_def)
  have pkt: "pkt = mail_packet junk ?hdr mh d" using w(5) by (simp add: d_def)
  note on_wire = packet_on_wire [OF w(1) d refl, where junk = junk and ph = ph and addr = "po_netAddr a", folded pkt]
  have n: "unat (pkt_length ?hdr) \<le> MaxPacketSize"
    using mail_hdr_length [OF w(1)] w(1) by (simp add: nachos_defs)
  have "pkt_to (packet_header pkt) = net_ident b" "unat (pkt_length (packet_header pkt)) \<le> MaxPacketSize"
    unfolding on_wire(1) using assms(6) n by (simp_all add: mail_hdr_def)
  from CheckPktAvail_arrives [OF assms(4) on_wire(2) assms(5) this assms(7-10)] obtain b1 sm' where
    b1: "Network_CheckPktAvail b = Inr b1" "net_inHdr b1 = ?hdr" "level b1 = IntOff"
      "net_inbox b1 = header_bytes (mail_to mh) (mail_from mh) (mail_length mh) @ d"
      "po_boxes b1 = po_boxes b" "po_numBoxes b1 = po_numBoxes b"
      "semaphores b1 (messageAvailable b1) = Some sm'" "sem_value sm' \<noteq> 0"
    unfolding on_wire(1,3) by blast
  from PostalDelivery_step_ok [OF w(1) d refl w(3) _ _ b1(2,4,7,8,3), of fuel idle buffer] assms(11,12) b1(5,6)
  obtain buf b2 where b2: "PostalDelivery_step (P_alone fuel idle plain_SetLevel) (buffer, b1) = Inr (buf, b2)"
    "po_numBoxes b2 = po_numBoxes b" "po_boxes b2 = (po_boxes b)[nat ?i :=
      po_boxes b ! nat ?i @ [(0, Some \<lparr>ml_pktHdr = ?hdr, ml_mailHdr = mh, ml_data = d\<rparr>)]]" by auto
  have i: "nat ?i < length (po_boxes b)" using w(3) assms(11,12) by simp
  have g: "arr_get (po_boxes b2) ?i = Inr [(0, Some \<lparr>ml_pktHdr = ?hdr, ml_mailHdr = mh, ml_data = d\<rparr>)]"
    "arr_set (po_boxes b2) ?i x = Inr ((po_boxes b2)[nat ?i := x])" for x
    using b2(3) i w(3) assms(13) by (simp_all add: arr_get_def arr_set_def nat_less_iff)
  have "\<exists>b3. PostOffice_Receive ?i b2 = Inr ((?hdr, mh, d), b3)"
    using g w(1,3) assms(11) b2(2) d
    by (simp add: PostOffice_Receive_def MailBox_Get_def SynchList_Remove_def Lock_Acquire_def Lock_Release_def
        seq_remove_def)
  moreover have "nm = socket_name (net_ident b)" using w(4) assms(6) by simp
  ultimately show ?thesis using b1(1) b2(1) unfolding d_def by blast
qed


section \<open>Two machines to try it on\<close>

definition demo_net :: "32 word \<Rightarrow> host \<Rightarrow> net" where
  "demo_net addr h = sys.extend (demo_sys\<lparr>host := h, net_ident := addr\<rparr>)
     (net.fields addr 2 [[], []])"

definition demo_mh :: MailHeader where
  "demo_mh = \<lparr>mail_to = 1, mail_from = 0, mail_length = 2\<rparr>"

definition demo_ph :: PacketHeader where
  "demo_ph = \<lparr>pkt_to = 7, pkt_from = 0, pkt_length = 0\<rparr>"

definition demo_pkt :: "byte list" where
  "demo_pkt = mail_packet [] (mail_hdr demo_ph demo_mh 3) demo_mh [72, 105]"

definition demo_sender :: net where
  "demo_sender = demo_net 3 (demo_host\<lparr>h_peers := (\<lambda>_. True)\<rparr>)"

definition demo_receiver :: net where
  "demo_receiver = demo_net 7 (demo_host\<lparr>h_arrived := Some demo_pkt\<rparr>)"

lemmas demo_net_simps = demo_net_def sys.extend_def net.fields_def demo_sys_simps

text \<open>\<^verbatim>\<open>P\<close> without waiting: the interrupt that reports the packet as sent has already happened.\<close>

lemma demo_send:
  "\<exists>a'. PostOffice_Send [] (\<lambda>_. Inr) demo_ph demo_mh [72, 105] demo_sender = Inr a' \<and>
     h_sent (host a') = h_sent (host demo_sender) @ [(socket_name 7, demo_pkt)]"
proof -
  have s: "sint (1 :: 32 word) = 1" by simp
  have n: "unat (2 :: 32 word) = 2" "unat (14 :: 32 word) = 14" by simp_all
  show ?thesis
    by (simp add: PostOffice_Send_def demo_sender_def demo_net_simps demo_mh_def demo_ph_def Let_def Lock_Acquire_def
        Lock_Release_def Network_Send_def Interrupt_Schedule_def seq_insert_def Random_def SendToSocket_def
        demo_pkt_def mail_packet_def mail_hdr_def mail_buffer_def nachos_defs s n)
qed

theorem mail_arrives_witness:
  "\<exists>b1 buf b2 b3. Network_CheckPktAvail demo_receiver = Inr b1 \<and>
    PostalDelivery_step (P_alone 1 Inr plain_SetLevel) (replicate 52 0, b1) = Inr (buf, b2) \<and>
    PostOffice_Receive 1 b2 = Inr ((mail_hdr demo_ph demo_mh 3, demo_mh, [72, 105]), b3)"
proof -
  obtain a' where a: "PostOffice_Send [] (\<lambda>_. Inr) demo_ph demo_mh [72, 105] demo_sender = Inr a'"
    "h_sent (host a') = h_sent (host demo_sender) @ [(socket_name 7, demo_pkt)]" using demo_send by blast
  have "sint (1 :: 32 word) = 1" "unat (2 :: 32 word) = 2" by simp_all
  then show ?thesis
    using mail_arrives [OF a(1) _ a(2), of demo_receiver "\<lparr>sem_name = ''s'', sem_value = 0, sem_queue = []\<rparr>" 1 Inr
        "replicate 52 0"]
    by (simp add: demo_receiver_def demo_sender_def demo_net_simps demo_mh_def demo_ph_def waiters_ok_def)
qed


end
