(* ===== verification/Slot_Alloc.thy ===== *)
theory Slot_Alloc
  imports Nachos_Prelude
begin

text \<open>
  The contract between the kernel and its slot tables.  Disk sectors, physical pages, process
  numbers and semaphore numbers are all handed out by an object that finds a free slot, marks it
  and returns its number.  The locale \<open>slot_allocator\<close> states what the users of such an object
  rely on; \<open>alloc_slots\<close> and \<open>free_slots\<close> are the loops in which \<^verbatim>\<open>FileHeader::Allocate\<close>,
  \<^verbatim>\<open>AddrSpace::AddrSpace\<close>, \<^verbatim>\<open>FileHeader::Deallocate\<close> and \<^verbatim>\<open>AddrSpace::~AddrSpace\<close> use it.
\<close>

section \<open>The allocation loops\<close>

text \<open>\<^verbatim>\<open>for (i = 0; i < k; i++) a[i] = FindFreeSlot();\<close>: the numbers found, in order.\<close>

fun alloc_slots :: "('b \<Rightarrow> (int \<times> 'b) result) \<Rightarrow> nat \<Rightarrow> 'b \<Rightarrow> (int list \<times> 'b) result" where
  "alloc_slots grab 0 b = Inr ([], b)"
| "alloc_slots grab (Suc k) b =
     bind_r (grab b) (\<lambda>(s, b1).
     bind_r (alloc_slots grab k b1) (\<lambda>(ss, b2). Inr (s # ss, b2)))"

text \<open>\<^verbatim>\<open>for (i = 0; i < n; i++) clear(a[i]);\<close>\<close>

fun free_slots :: "(int \<Rightarrow> 'b \<Rightarrow> 'b result) \<Rightarrow> int list \<Rightarrow> 'b \<Rightarrow> 'b result" where
  "free_slots clear [] b = Inr b"
| "free_slots clear (s # ss) b = bind_r (clear s b) (free_slots clear ss)"

section \<open>The contract\<close>

locale slot_allocator =
  fixes invar :: "'b \<Rightarrow> bool"
    and cap :: "'b \<Rightarrow> nat"
    and used :: "'b \<Rightarrow> nat set"
    and grab :: "'b \<Rightarrow> (int \<times> 'b) result"
    and clear :: "int \<Rightarrow> 'b \<Rightarrow> 'b result"
  assumes used_cap: "invar b \<Longrightarrow> used b \<subseteq> {..<cap b}"
    and find_full: "invar b \<Longrightarrow> used b = {..<cap b} \<Longrightarrow> grab b = Inr (-1, b)"
    and find_free: "invar b \<Longrightarrow> n < cap b \<Longrightarrow> n \<notin> used b \<Longrightarrow> {..<n} \<subseteq> used b \<Longrightarrow>
      \<exists>b'. grab b = Inr (int n, b') \<and> invar b' \<and> cap b' = cap b \<and> used b' = insert n (used b)"
    and clear_slot: "invar b \<Longrightarrow> n < cap b \<Longrightarrow>
      \<exists>b'. clear (int n) b = Inr b' \<and> invar b' \<and> cap b' = cap b \<and> used b' = used b - {n}"
begin

lemma finite_used: "invar b \<Longrightarrow> finite (used b)"
  using used_cap by (meson finite_lessThan finite_subset)

lemma card_used_le: "invar b \<Longrightarrow> card (used b) \<le> cap b"
  by (metis card_lessThan card_mono finite_lessThan used_cap)

lemma full_iff_card: "invar b \<Longrightarrow> used b = {..<cap b} \<longleftrightarrow> card (used b) = cap b"
  by (metis card_lessThan card_subset_eq finite_lessThan used_cap)

text \<open>A free slot exists exactly when the table is not full, and then the least one is found.\<close>

lemma find_least:
  assumes "invar b" and "card (used b) < cap b"
  shows "\<exists>n b'. grab b = Inr (int n, b') \<and> n < cap b \<and> n \<notin> used b \<and> {..<n} \<subseteq> used b \<and>
    invar b' \<and> cap b' = cap b \<and> used b' = insert n (used b)"
proof -
  define n where "n = (LEAST n. n \<notin> used b)"
  have ex: "\<exists>m. m \<notin> used b \<and> m < cap b"
  proof (rule ccontr)
    assume "\<nexists>m. m \<notin> used b \<and> m < cap b"
    then have "{..<cap b} \<subseteq> used b" by auto
    then have "cap b \<le> card (used b)"
      by (metis assms(1) card_lessThan card_mono finite_used)
    with assms(2) show False by simp
  qed
  then obtain m where m: "m \<notin> used b" "m < cap b" by blast
  have 1: "n \<notin> used b" unfolding n_def using m(1) by (rule LeastI)
  have "n \<le> m" unfolding n_def using m(1) by (rule Least_le)
  with m(2) have 2: "n < cap b" by simp
  have 3: "{..<n} \<subseteq> used b" using not_less_Least unfolding n_def by blast
  from find_free [OF assms(1) 2 1 3] 1 2 3 show ?thesis by blast
qed

text \<open>Enough free slots: the loop returns as many different fresh ones as it was asked for.\<close>

lemma alloc_slots_enough:
  assumes "invar b" and "k \<le> cap b - card (used b)"
  shows "\<exists>ns b'. alloc_slots grab k b = Inr (map int ns, b') \<and> length ns = k \<and> distinct ns \<and>
    set ns \<inter> used b = {} \<and> set ns \<subseteq> {..<cap b} \<and> used b' = used b \<union> set ns \<and>
    invar b' \<and> cap b' = cap b"
  using assms
proof (induction k arbitrary: b)
  case 0
  then show ?case by simp
next
  case (Suc k)
  then have "card (used b) < cap b" by simp
  from find_least [OF Suc.prems(1) this] obtain n b1 where
    n: "grab b = Inr (int n, b1)" "n < cap b" "n \<notin> used b"
    and b1: "invar b1" "cap b1 = cap b" "used b1 = insert n (used b)" by blast
  have "card (used b1) = Suc (card (used b))"
    using b1(3) n(3) finite_used [OF Suc.prems(1)] by simp
  with Suc.prems(2) b1(2) have "k \<le> cap b1 - card (used b1)" by simp
  from Suc.IH [OF b1(1) this] obtain ns b2 where
    ns: "alloc_slots grab k b1 = Inr (map int ns, b2)" "length ns = k" "distinct ns"
      "set ns \<inter> used b1 = {}" "set ns \<subseteq> {..<cap b1}"
    and b2: "used b2 = used b1 \<union> set ns" "invar b2" "cap b2 = cap b1" by blast
  show ?case
    by (rule exI [of _ "n # ns"], rule exI [of _ b2]) (use n ns b1 b2 in auto)
qed

text \<open>Freeing different slots gives exactly those slots back.\<close>

lemma free_slots_exact:
  assumes "invar b" and "set ns \<subseteq> {..<cap b}"
  shows "\<exists>b'. free_slots clear (map int ns) b = Inr b' \<and> used b' = used b - set ns \<and>
    invar b' \<and> cap b' = cap b"
  using assms
proof (induction ns arbitrary: b)
  case Nil
  then show ?case by simp
next
  case (Cons n ns)
  then have "n < cap b" by simp
  from clear_slot [OF Cons.prems(1) this] obtain b1 where
    b1: "clear (int n) b = Inr b1" "invar b1" "cap b1 = cap b" "used b1 = used b - {n}" by blast
  with Cons.prems(2) have "set ns \<subseteq> {..<cap b1}" by simp
  from Cons.IH [OF b1(2) this] b1 show ?case by auto
qed

lemma alloc_free_roundtrip:
  assumes "invar b" and "k \<le> cap b - card (used b)"
  shows "\<exists>ss b' b''. alloc_slots grab k b = Inr (ss, b') \<and> free_slots clear ss b' = Inr b'' \<and>
    used b'' = used b \<and> cap b'' = cap b \<and> invar b''"
proof -
  from alloc_slots_enough [OF assms] obtain ns b' where
    a: "alloc_slots grab k b = Inr (map int ns, b')" "set ns \<inter> used b = {}"
      "set ns \<subseteq> {..<cap b}" "used b' = used b \<union> set ns" "invar b'" "cap b' = cap b" by blast
  from a(3,6) have "set ns \<subseteq> {..<cap b'}" by simp
  from free_slots_exact [OF a(5) this] obtain b'' where
    "free_slots clear (map int ns) b' = Inr b''" "used b'' = used b' - set ns"
    "invar b''" "cap b'' = cap b'" by blast
  moreover from this(2) a(2,4) have "used b'' = used b" by auto
  ultimately show ?thesis using a(1,6) by auto
qed

end

end
