(* ===== verification/Bitmap.thy ===== *)
theory Bitmap
  imports Slot_Alloc
begin

text \<open>
  The class \<^verbatim>\<open>BitMap\<close> of \<^verbatim>\<open>userprog/bitmap.cc\<close>: an array of bits packed into 32-bit words.
  \<open>bits\<close> is the set of slots a bitmap marks as used and \<open>bitmap_ok\<close> its representation
  invariant; every operation is proved against the set, and the class is an instance of the
  allocator contract \<open>slot_allocator\<close>.
\<close>

unbundle bit_operations_syntax

section \<open>State and operations\<close>

definition BitsInByte :: int where "BitsInByte = 8"
definition BitsInWord :: int where "BitsInWord = 32"

declare BitsInByte_def [nachos_defs] BitsInWord_def [nachos_defs]

record BitMap =
  numBits :: int
  numWords :: int
  bm_words :: "32 word list"

definition BitMap_Mark :: "int \<Rightarrow> BitMap \<Rightarrow> BitMap result" where
  "BitMap_Mark which b =
     bind_r (ASSERT (which \<ge> 0 \<and> which < numBits b)) (\<lambda>_.
     bind_r (arr_get (bm_words b) (which div BitsInWord)) (\<lambda>w.
     bind_r (arr_set (bm_words b) (which div BitsInWord)
              (w OR push_bit (nat (which mod BitsInWord)) 1)) (\<lambda>ws.
     Inr (b\<lparr>bm_words := ws\<rparr>))))"

definition BitMap_Clear :: "int \<Rightarrow> BitMap \<Rightarrow> BitMap result" where
  "BitMap_Clear which b =
     bind_r (ASSERT (which \<ge> 0 \<and> which < numBits b)) (\<lambda>_.
     bind_r (arr_get (bm_words b) (which div BitsInWord)) (\<lambda>w.
     bind_r (arr_set (bm_words b) (which div BitsInWord)
              (w AND NOT (push_bit (nat (which mod BitsInWord)) 1))) (\<lambda>ws.
     Inr (b\<lparr>bm_words := ws\<rparr>))))"

definition BitMap_Test :: "int \<Rightarrow> BitMap \<Rightarrow> bool result" where
  "BitMap_Test which b =
     bind_r (ASSERT (which \<ge> 0 \<and> which < numBits b)) (\<lambda>_.
     bind_r (arr_get (bm_words b) (which div BitsInWord)) (\<lambda>w.
     Inr (w AND push_bit (nat (which mod BitsInWord)) 1 \<noteq> 0)))"

text \<open>
  The constructor.  \<open>raw\<close> is the content of the freshly allocated, uninitialised array; the
  constructor clears the bits one at a time and leaves the rest of the last word as it was.
\<close>

definition BitMap_new :: "int \<Rightarrow> 32 word list \<Rightarrow> BitMap result" where
  "BitMap_new nitems raw =
     for_loop 0 (nat nitems) (\<lambda>i. BitMap_Clear (int i))
       \<lparr>numBits = nitems, numWords = divRoundUp nitems BitsInWord, bm_words = raw\<rparr>"

fun find_free_loop :: "nat \<Rightarrow> nat \<Rightarrow> BitMap \<Rightarrow> (int \<times> BitMap) result" where
  "find_free_loop i 0 b = Inr (-1, b)"
| "find_free_loop i (Suc k) b =
     bind_r (BitMap_Test (int i) b) (\<lambda>t.
       if \<not> t then bind_r (BitMap_Mark (int i) b) (\<lambda>b'. Inr (int i, b'))
       else find_free_loop (Suc i) k b)"

definition BitMap_FindFreeSlot :: "BitMap \<Rightarrow> (int \<times> BitMap) result" where
  "BitMap_FindFreeSlot b = find_free_loop 0 (nat (numBits b)) b"

definition BitMap_NumClear :: "BitMap \<Rightarrow> int result" where
  "BitMap_NumClear b =
     for_loop 0 (nat (numBits b))
       (\<lambda>i count. bind_r (BitMap_Test (int i) b) (\<lambda>t. Inr (if \<not> t then count + 1 else count))) 0"

text \<open>\<^verbatim>\<open>BitMap::Print\<close>: the numbers it prints.\<close>

definition BitMap_Print :: "BitMap \<Rightarrow> int list result" where
  "BitMap_Print b =
     for_loop 0 (nat (numBits b))
       (\<lambda>i out. bind_r (BitMap_Test (int i) b) (\<lambda>t. Inr (if t then out @ [int i] else out))) []"

section \<open>The set a bitmap denotes\<close>

definition bits :: "BitMap \<Rightarrow> nat set" where
  "bits b = {n. int n < numBits b \<and> bit (bm_words b ! (n div 32)) (n mod 32)}"

definition bitmap_ok :: "BitMap \<Rightarrow> bool" where
  "bitmap_ok b \<longleftrightarrow> 0 \<le> numBits b \<and> numWords b = divRoundUp (numBits b) BitsInWord \<and>
     int (length (bm_words b)) = numWords b"

abbreviation bm_size :: "BitMap \<Rightarrow> nat" where
  "bm_size b \<equiv> nat (numBits b)"

lemma bits_bound: "bits b \<subseteq> {..<bm_size b}"
  by (auto simp: bits_def)

lemma finite_bits [simp]: "finite (bits b)"
  by (rule finite_subset [OF bits_bound]) simp

text \<open>The word and the bit position of a slot exist.\<close>

lemma slot_word:
  assumes "bitmap_ok b" "n < bm_size b"
  shows "n div 32 < length (bm_words b)"
    and "int n < numBits b"
    and "arr_get (bm_words b) (int n div BitsInWord) = Inr (bm_words b ! (n div 32))"
    and "arr_set (bm_words b) (int n div BitsInWord) w = Inr ((bm_words b)[n div 32 := w])"
proof -
  have "int n div 32 < divRoundUp (numBits b) 32"
    using assms by (intro divRoundUp_index) auto
  then have "int (n div 32) < int (length (bm_words b))"
    using assms(1) by (simp add: bitmap_ok_def BitsInWord_def zdiv_int)
  show "int n < numBits b" using assms(2) by simp
  from \<open>int (n div 32) < int (length (bm_words b))\<close>
  show len: "n div 32 < length (bm_words b)" by simp
  have eq: "int n div BitsInWord = int (n div 32)" by (simp add: BitsInWord_def zdiv_int)
  show "arr_get (bm_words b) (int n div BitsInWord) = Inr (bm_words b ! (n div 32))"
    and "arr_set (bm_words b) (int n div BitsInWord) w = Inr ((bm_words b)[n div 32 := w])"
    unfolding eq using len by simp_all
qed

lemma slot_bit [simp]: "nat (int n mod BitsInWord) = n mod 32"
  by (simp add: BitsInWord_def nat_mod_distrib)

lemma bit_slot_mask [simp]: "bit (2 ^ (n mod 32) :: 32 word) m \<longleftrightarrow> m = n mod 32"
  by (auto simp: bit_exp_iff possible_bit_def)

lemma same_slot: "n div 32 = m div 32 \<Longrightarrow> n mod 32 = m mod 32 \<Longrightarrow> n = (m::nat)"
  by (metis div_mult_mod_eq)

lemma BitMap_Test_correct:
  assumes "bitmap_ok b" "n < bm_size b"
  shows "BitMap_Test (int n) b = Inr (n \<in> bits b)"
  using assms slot_word [OF assms]
  by (simp add: BitMap_Test_def bits_def bit_iff_and_push_bit_not_eq_0 del: push_bit_eq_0_iff)

lemma BitMap_Mark_correct:
  assumes "bitmap_ok b" "n < bm_size b"
  shows "\<exists>b'. BitMap_Mark (int n) b = Inr b' \<and> bitmap_ok b' \<and> numBits b' = numBits b \<and>
    bits b' = insert n (bits b)"
proof -
  let ?ws = "(bm_words b)[n div 32 := bm_words b ! (n div 32) OR push_bit (n mod 32) 1]"
  have eq: "BitMap_Mark (int n) b = Inr (b\<lparr>bm_words := ?ws\<rparr>)"
    using assms slot_word [OF assms] by (simp add: BitMap_Mark_def)
  have "bits (b\<lparr>bm_words := ?ws\<rparr>) = insert n (bits b)"
    using assms(2) slot_word(1) [OF assms]
    by (auto simp: bits_def nth_list_update bit_or_iff
        dest: same_slot split: if_splits)
  then show ?thesis using eq assms(1) by (simp add: bitmap_ok_def)
qed

lemma BitMap_Clear_correct:
  assumes "bitmap_ok b" "n < bm_size b"
  shows "\<exists>b'. BitMap_Clear (int n) b = Inr b' \<and> bitmap_ok b' \<and> numBits b' = numBits b \<and>
    bits b' = bits b - {n}"
proof -
  let ?ws = "(bm_words b)[n div 32 := bm_words b ! (n div 32) AND NOT (push_bit (n mod 32) 1)]"
  have eq: "BitMap_Clear (int n) b = Inr (b\<lparr>bm_words := ?ws\<rparr>)"
    using assms slot_word [OF assms] by (simp add: BitMap_Clear_def)
  have "bits (b\<lparr>bm_words := ?ws\<rparr>) = bits b - {n}"
    using assms(2) slot_word(1) [OF assms]
    by (auto simp: bits_def nth_list_update bit_and_iff bit_not_iff possible_bit_def
        dest: same_slot split: if_splits)
  then show ?thesis using eq assms(1) by (simp add: bitmap_ok_def)
qed

text \<open>Out-of-range slots: the assertion of each operation fails.\<close>

lemma BitMap_range_assert:
  assumes "which < 0 \<or> numBits b \<le> which"
  shows "BitMap_Mark which b = Inl AssertFail"
    and "BitMap_Clear which b = Inl AssertFail"
    and "BitMap_Test which b = Inl AssertFail"
  using assms by (auto simp: BitMap_Mark_def BitMap_Clear_def BitMap_Test_def ASSERT_def)

section \<open>The operations against the set\<close>

lemma find_free_loop_full:
  assumes "bitmap_ok b" "i + k = bm_size b" "{i..<bm_size b} \<subseteq> bits b"
  shows "find_free_loop i k b = Inr (-1, b)"
  using assms
proof (induction k arbitrary: i)
  case 0
  then show ?case by simp
next
  case (Suc k)
  then have "i < bm_size b" "i \<in> bits b" by auto
  moreover have "find_free_loop (Suc i) k b = Inr (-1, b)"
    by (rule Suc.IH) (use Suc.prems in auto)
  ultimately show ?case using Suc.prems(1) by (simp add: BitMap_Test_correct)
qed

lemma find_free_loop_free:
  assumes "bitmap_ok b" "i + k = bm_size b" "n < bm_size b" "n \<notin> bits b" "i \<le> n"
    "{i..<n} \<subseteq> bits b"
  shows "find_free_loop i k b = bind_r (BitMap_Mark (int n) b) (\<lambda>b'. Inr (int n, b'))"
  using assms
proof (induction k arbitrary: i)
  case 0
  then show ?case by simp
next
  case (Suc k)
  then have i: "i < bm_size b" by simp
  show ?case
  proof (cases "i = n")
    case True
    with Suc.prems i show ?thesis by (simp add: BitMap_Test_correct)
  next
    case False
    with Suc.prems have "i \<in> bits b" by auto
    moreover have "find_free_loop (Suc i) k b =
        bind_r (BitMap_Mark (int n) b) (\<lambda>b'. Inr (int n, b'))"
      by (rule Suc.IH) (use Suc.prems False in auto)
    ultimately show ?thesis using Suc.prems(1) i by (simp add: BitMap_Test_correct)
  qed
qed

interpretation bm: slot_allocator bitmap_ok bm_size bits BitMap_FindFreeSlot BitMap_Clear
proof
  fix b assume "bitmap_ok b"
  show "bits b \<subseteq> {..<bm_size b}" by (rule bits_bound)
next
  fix b assume ok: "bitmap_ok b" and full: "bits b = {..<bm_size b}"
  have "{0..<bm_size b} \<subseteq> bits b" by (simp add: full atLeast0LessThan)
  with ok show "BitMap_FindFreeSlot b = Inr (-1, b)"
    unfolding BitMap_FindFreeSlot_def by (simp add: find_free_loop_full)
next
  fix b n
  assume b: "bitmap_ok b" "n < bm_size b" "n \<notin> bits b" "{..<n} \<subseteq> bits b"
  from b(4) have "{0..<n} \<subseteq> bits b" by (simp add: atLeast0LessThan)
  with b have "BitMap_FindFreeSlot b = bind_r (BitMap_Mark (int n) b) (\<lambda>b'. Inr (int n, b'))"
    unfolding BitMap_FindFreeSlot_def by (simp add: find_free_loop_free)
  with BitMap_Mark_correct [OF b(1,2)]
  show "\<exists>b'. BitMap_FindFreeSlot b = Inr (int n, b') \<and> bitmap_ok b' \<and> bm_size b' = bm_size b \<and>
      bits b' = insert n (bits b)" by auto
next
  fix b n
  assume "bitmap_ok b" "n < bm_size b"
  from BitMap_Clear_correct [OF this]
  show "\<exists>b'. BitMap_Clear (int n) b = Inr b' \<and> bitmap_ok b' \<and> bm_size b' = bm_size b \<and>
      bits b' = bits b - {n}" by auto
qed

lemma lessThan_Suc_minus: "{..<Suc j} - A = (if j \<in> A then {..<j} - A else insert j ({..<j} - A))"
  by (auto simp: less_Suc_eq)

lemma BitMap_NumClear_card:
  assumes "bitmap_ok b"
  shows "BitMap_NumClear b = Inr (int (card ({..<bm_size b} - bits b)))"
proof -
  let ?I = "\<lambda>j c. c = int (card ({..<j} - bits b))"
  have "\<exists>c. BitMap_NumClear b = Inr c \<and> ?I (0 + bm_size b) c"
    unfolding BitMap_NumClear_def
  proof (rule for_loop_rule)
    fix j c assume "j < 0 + bm_size b" "?I j c"
    then show "\<exists>c'. bind_r (BitMap_Test (int j) b) (\<lambda>t. Inr (if \<not> t then c + 1 else c)) = Inr c' \<and>
        ?I (Suc j) c'"
      using assms by (simp add: BitMap_Test_correct lessThan_Suc_minus)
  qed simp
  then show ?thesis by auto
qed

lemma BitMap_NumClear_eq:
  assumes "bitmap_ok b"
  shows "BitMap_NumClear b = Inr (int (bm_size b - card (bits b)))"
  using BitMap_NumClear_card [OF assms] bits_bound [of b] by (simp add: card_Diff_subset)

lemma BitMap_Print_eq:
  assumes "bitmap_ok b"
  shows "BitMap_Print b = Inr (map int (filter (\<lambda>n. n \<in> bits b) [0..<bm_size b]))"
proof -
  let ?I = "\<lambda>j out. out = map int (filter (\<lambda>n. n \<in> bits b) [0..<j])"
  have "\<exists>out. BitMap_Print b = Inr out \<and> ?I (0 + bm_size b) out"
    unfolding BitMap_Print_def
  proof (rule for_loop_rule)
    fix j out assume "j < 0 + bm_size b" "?I j out"
    then show "\<exists>out'. bind_r (BitMap_Test (int j) b)
          (\<lambda>t. Inr (if t then out @ [int j] else out)) = Inr out' \<and> ?I (Suc j) out'"
      using assms by (simp add: BitMap_Test_correct)
  qed simp
  then show ?thesis by auto
qed

lemma BitMap_new_correct:
  assumes "0 \<le> nitems" "int (length raw) = divRoundUp nitems BitsInWord"
  shows "\<exists>b. BitMap_new nitems raw = Inr b \<and> bitmap_ok b \<and> numBits b = nitems \<and> bits b = {}"
proof -
  let ?I = "\<lambda>j b. bitmap_ok b \<and> numBits b = nitems \<and> bits b \<inter> {..<j} = {}"
  have "\<exists>b. BitMap_new nitems raw = Inr b \<and> ?I (0 + nat nitems) b"
    unfolding BitMap_new_def
  proof (rule for_loop_rule)
    show "?I 0 \<lparr>numBits = nitems, numWords = divRoundUp nitems BitsInWord, bm_words = raw\<rparr>"
      using assms by (simp add: bitmap_ok_def)
  next
    fix j b assume j: "j < 0 + nat nitems" and I: "?I j b"
    from j I have "j < bm_size b" by simp
    from BitMap_Clear_correct [OF _ this] I obtain b' where
      b': "BitMap_Clear (int j) b = Inr b'" "bitmap_ok b'" "numBits b' = numBits b"
        "bits b' = bits b - {j}" by blast
    moreover from b'(4) I have "bits b' \<inter> {..<Suc j} = {}" by (auto simp: less_Suc_eq)
    ultimately show "\<exists>b'. BitMap_Clear (int j) b = Inr b' \<and> ?I (Suc j) b'" using I by auto
  qed
  then obtain b where b: "BitMap_new nitems raw = Inr b" "bitmap_ok b" "numBits b = nitems"
    "bits b \<inter> {..<nat nitems} = {}" by auto
  with bits_bound [of b] have "bits b = {}" by auto
  with b show ?thesis by blast
qed

text \<open>A bitmap of four bits whose first two are set.\<close>

definition demo_bm :: BitMap where
  "demo_bm = \<lparr>numBits = 4, numWords = 1, bm_words = [3]\<rparr>"

lemma demo_bm_ok: "bitmap_ok demo_bm"
  by (simp add: bitmap_ok_def demo_bm_def divRoundUp_def BitsInWord_def)

lemma demo_bm_eval:
  "BitMap_FindFreeSlot demo_bm = Inr (2, demo_bm\<lparr>bm_words := [7]\<rparr>)" "BitMap_NumClear demo_bm = Inr 2"
  by code_simp+

section \<open>Properties\<close>

text \<open>
  C15: \<^verbatim>\<open>BitMap::FindFreeSlot\<close>.  On every well-formed bitmap it returns -1 and changes nothing when
  all bits are set; otherwise it returns the least clear bit, and the resulting bitmap is
  well-formed, has the same size and has exactly that bit set in addition.
\<close>

theorem BitMap_FindFreeSlot_correct:
  assumes "bitmap_ok b"
  shows "if bits b = {..<bm_size b} then BitMap_FindFreeSlot b = Inr (-1, b)
    else \<exists>n b'. BitMap_FindFreeSlot b = Inr (int n, b') \<and> n < bm_size b \<and> n \<notin> bits b \<and>
      {..<n} \<subseteq> bits b \<and> bitmap_ok b' \<and> numBits b' = numBits b \<and> bits b' = insert n (bits b)"
proof (cases "bits b = {..<bm_size b}")
  case True
  with bm.find_full [OF assms] show ?thesis by simp
next
  case False
  then have "card (bits b) < bm_size b"
    using bm.full_iff_card [OF assms] bm.card_used_le [OF assms] by linarith
  from bm.find_least [OF assms this] obtain n b' where
    n: "BitMap_FindFreeSlot b = Inr (int n, b')" "n < bm_size b" "n \<notin> bits b" "{..<n} \<subseteq> bits b"
      "bitmap_ok b'" "bm_size b' = bm_size b" "bits b' = insert n (bits b)" by blast
  moreover have "numBits b' = numBits b" using n(5,6) assms by (simp add: bitmap_ok_def nat_eq_iff)
  ultimately show ?thesis using False by auto
qed

theorem BitMap_FindFreeSlot_correct_witness:
  "bitmap_ok demo_bm \<and> BitMap_FindFreeSlot demo_bm = Inr (2, demo_bm\<lparr>bm_words := [7]\<rparr>) \<and>
   2 \<notin> bits demo_bm \<and> bits (demo_bm\<lparr>bm_words := [7]\<rparr>) = insert 2 (bits demo_bm)"
proof -
  have "bits demo_bm \<noteq> {..<bm_size demo_bm}"
  proof
    assume "bits demo_bm = {..<bm_size demo_bm}"
    with BitMap_FindFreeSlot_correct [OF demo_bm_ok] show False by (simp add: demo_bm_eval)
  qed
  with BitMap_FindFreeSlot_correct [OF demo_bm_ok] show ?thesis by (auto simp: demo_bm_eval demo_bm_ok)
qed

text \<open>
  C16: allocation and release are inverse.  As long as \<^verbatim>\<open>BitMap::NumClear\<close> reports at least \<open>k\<close>
  clear bits, \<open>k\<close> calls of \<^verbatim>\<open>BitMap::FindFreeSlot\<close> succeed with \<open>k\<close> different slots that were all
  free, and clearing these slots with \<^verbatim>\<open>BitMap::Clear\<close> restores the set of used slots.
\<close>

theorem BitMap_alloc_release:
  assumes "bitmap_ok b" "BitMap_NumClear b = Inr c" "int k \<le> c"
  shows "\<exists>ns b' b''. alloc_slots BitMap_FindFreeSlot k b = Inr (map int ns, b') \<and>
    length ns = k \<and> distinct ns \<and> set ns \<inter> bits b = {} \<and> set ns \<subseteq> {..<bm_size b} \<and>
    bits b' = bits b \<union> set ns \<and>
    free_slots BitMap_Clear (map int ns) b' = Inr b'' \<and> bits b'' = bits b"
proof -
  have k: "k \<le> bm_size b - card (bits b)"
    using assms(2,3) BitMap_NumClear_eq [OF assms(1)] by simp
  from bm.alloc_slots_enough [OF assms(1) k] obtain ns b' where
    a: "alloc_slots BitMap_FindFreeSlot k b = Inr (map int ns, b')" "length ns = k" "distinct ns"
      "set ns \<inter> bits b = {}" "set ns \<subseteq> {..<bm_size b}" "bits b' = bits b \<union> set ns" "bitmap_ok b'"
      "bm_size b' = bm_size b" by blast
  from a(5,8) have "set ns \<subseteq> {..<bm_size b'}" by simp
  from bm.free_slots_exact [OF a(7) this] obtain b'' where
    "free_slots BitMap_Clear (map int ns) b' = Inr b''" "bits b'' = bits b' - set ns" by blast
  moreover from this(2) a(4,6) have "bits b'' = bits b" by auto
  ultimately show ?thesis using a(1-6) by blast
qed

theorem BitMap_alloc_release_witness:
  "bitmap_ok demo_bm \<and> BitMap_NumClear demo_bm = Inr 2 \<and>
   (\<exists>ns b'. alloc_slots BitMap_FindFreeSlot 2 demo_bm = Inr (map int ns, b') \<and> distinct ns \<and> length ns = 2)"
  using BitMap_alloc_release [OF demo_bm_ok demo_bm_eval(2), of 2]
  by (auto simp: demo_bm_ok demo_bm_eval(2))

end
