(* ===== verification/User_Files.thy ===== *)
theory User_Files
  imports Post_Office Bitmap
begin

text \<open>
  The state of the kernel that runs user programs, and its files.  In this configuration
  (\<^verbatim>\<open>FILESYS_STUB\<close>) a file of Nachos is a file of the host: the classes \<^verbatim>\<open>OpenFile\<close> of
  \<^verbatim>\<open>filesys/openfile.h\<close> and \<^verbatim>\<open>FileSystem\<close> of \<^verbatim>\<open>filesys/filesys.h\<close> call \<^verbatim>\<open>machine/sysdep.cc\<close>.
\<close>

section \<open>State\<close>

text \<open>\<open>of_type\<close> is \<open>None\<close> where the constructor leaves the member uninitialised.\<close>

record OpenFile =
  of_file :: int
  of_currentOffset :: int
  of_type :: "int option"

record Sem =
  sm_name :: string
  sm_sem :: nat

record PCB =
  joinsem :: nat
  exitsem :: nat
  mutex :: nat
  exitcode :: int
  pcb_thread :: "nat option"
  pid :: int
  numwait :: int
  parentID :: int
  JoinStatus :: int

record os = net +
  files :: "nat \<Rightarrow> OpenFile option"
  file_brk :: nat
  file_table :: "nat option list"
  addrLock :: nat
  gPhysPageBitMap :: BitMap
  table_brk :: nat
  pTab_bm :: BitMap
  pTab_pcb :: "nat option list"
  pTab_psize :: int
  pTab_bmsem :: nat
  pcbs :: "nat \<Rightarrow> PCB option"
  pcb_brk :: nat
  semTab_bm :: BitMap
  semTab_tab :: "Sem option list"

definition N_FILES_IN_TABLE :: int where "N_FILES_IN_TABLE = 100"
definition MAX_SEMAPHORE :: int where "MAX_SEMAPHORE = 10"
definition MAXPROCESS :: int where "MAXPROCESS = 10"

declare N_FILES_IN_TABLE_def [nachos_defs] MAX_SEMAPHORE_def [nachos_defs] MAXPROCESS_def [nachos_defs]

text \<open>The string in a \<^verbatim>\<open>char\<close> array.\<close>

definition c_string :: "byte list \<Rightarrow> string" where
  "c_string bs = map (\<lambda>b. char_of (unat b)) (takeWhile (\<lambda>b. b \<noteq> 0) bs)"

section \<open>Open files\<close>

definition OpenFile_new :: "int \<Rightarrow> int option \<Rightarrow> 'z os_scheme \<Rightarrow> nat \<times> 'z os_scheme" where
  "OpenFile_new f type k =
     (file_brk k, k\<lparr>files := (files k)(file_brk k \<mapsto> \<lparr>of_file = f, of_currentOffset = 0, of_type = type\<rparr>),
        file_brk := Suc (file_brk k)\<rparr>)"

definition OpenFile_delete :: "nat \<Rightarrow> 'z os_scheme \<Rightarrow> 'z os_scheme result" where
  "OpenFile_delete p k =
     bind_r (obj (files k) p) (\<lambda>f.
     bind_r (Close (of_file f) (host k)) (\<lambda>h. Inr (k\<lparr>host := h, files := (files k)(p := None)\<rparr>)))"

text \<open>\<^verbatim>\<open>ReadAt\<close>: the result and the bytes stored at \<^verbatim>\<open>into\<close>.\<close>

definition OpenFile_ReadAt :: "nat \<Rightarrow> int \<Rightarrow> int \<Rightarrow> 'z os_scheme \<Rightarrow> (int \<times> byte list \<times> 'z os_scheme) result" where
  "OpenFile_ReadAt p numBytes position k =
     bind_r (obj (files k) p) (\<lambda>f.
     bind_r (Lseek (of_file f) position 0 (host k)) (\<lambda>h1.
     bind_r (ReadPartial (of_file f) numBytes h1) (\<lambda>(r, h2).
       Inr (case r of None \<Rightarrow> (- 1, [], k\<lparr>host := h2\<rparr>) | Some bs \<Rightarrow> (int (length bs), bs, k\<lparr>host := h2\<rparr>)))))"

text \<open>
  A negative count makes the host's \<^verbatim>\<open>write\<close> fail with \<open>-1\<close>, which \<^verbatim>\<open>WriteFile\<close> compares with the count.
\<close>

definition OpenFile_WriteAt :: "nat \<Rightarrow> byte list \<Rightarrow> int \<Rightarrow> int \<Rightarrow> 'z os_scheme \<Rightarrow> (int \<times> 'z os_scheme) result" where
  "OpenFile_WriteAt p from numBytes position k =
     bind_r (obj (files k) p) (\<lambda>f.
     bind_r (Lseek (of_file f) position 0 (host k)) (\<lambda>h1.
     if numBytes < 0 then bind_r (ASSERT (numBytes = - 1)) (\<lambda>_. Inr (numBytes, k\<lparr>host := h1\<rparr>))
     else if int (length from) < numBytes then Inl OutOfBounds
     else bind_r (WriteFile (of_file f) (take (nat numBytes) from) h1) (\<lambda>h2. Inr (numBytes, k\<lparr>host := h2\<rparr>))))"

definition set_offset :: "nat \<Rightarrow> (int \<Rightarrow> int) \<Rightarrow> 'z os_scheme \<Rightarrow> 'z os_scheme result" where
  "set_offset p f k = bind_r (obj (files k) p) (\<lambda>x.
     Inr (k\<lparr>files := (files k)(p \<mapsto> x\<lparr>of_currentOffset := f (of_currentOffset x)\<rparr>)\<rparr>))"

definition OpenFile_Read :: "nat \<Rightarrow> int \<Rightarrow> 'z os_scheme \<Rightarrow> (int \<times> byte list \<times> 'z os_scheme) result" where
  "OpenFile_Read p numBytes k =
     bind_r (obj (files k) p) (\<lambda>f.
     bind_r (OpenFile_ReadAt p numBytes (of_currentOffset f) k) (\<lambda>(numRead, bs, k1).
     bind_r (set_offset p (\<lambda>o'. o' + numRead) k1) (\<lambda>k2. Inr (numRead, bs, k2))))"

definition OpenFile_Write :: "nat \<Rightarrow> byte list \<Rightarrow> int \<Rightarrow> 'z os_scheme \<Rightarrow> (int \<times> 'z os_scheme) result" where
  "OpenFile_Write p from numBytes k =
     bind_r (obj (files k) p) (\<lambda>f.
     bind_r (OpenFile_WriteAt p from numBytes (of_currentOffset f) k) (\<lambda>(numWritten, k1).
     bind_r (set_offset p (\<lambda>o'. o' + numWritten) k1) (\<lambda>k2. Inr (numWritten, k2))))"

text \<open>\<^verbatim>\<open>f->CurPos() = 0\<close>\<close>

definition OpenFile_CurPos_set :: "nat \<Rightarrow> int \<Rightarrow> 'z os_scheme \<Rightarrow> 'z os_scheme result" where
  "OpenFile_CurPos_set p v k = set_offset p (\<lambda>_. v) k"

definition OpenFile_Length :: "nat \<Rightarrow> 'z os_scheme \<Rightarrow> (int \<times> 'z os_scheme) result" where
  "OpenFile_Length p k =
     bind_r (obj (files k) p) (\<lambda>f.
     bind_r (Lseek (of_file f) 0 2 (host k)) (\<lambda>h. Inr (Tell (of_file f) h, k\<lparr>host := h\<rparr>)))"

section \<open>File system\<close>

definition FileSystem_Create :: "string \<Rightarrow> 'z os_scheme \<Rightarrow> (bool \<times> 'z os_scheme) result" where
  "FileSystem_Create name k =
     bind_r (OpenForWrite name (host k)) (\<lambda>(fd, h1).
       if fd = - 1 then Inr (False, k\<lparr>host := h1\<rparr>)
       else bind_r (Close fd h1) (\<lambda>h2. Inr (True, k\<lparr>host := h2\<rparr>)))"

text \<open>\<^verbatim>\<open>Open(char*)\<close> and \<^verbatim>\<open>Open(char*, int)\<close>\<close>

definition FileSystem_Open :: "string \<Rightarrow> 'z os_scheme \<Rightarrow> (nat option \<times> 'z os_scheme) result" where
  "FileSystem_Open name k =
     bind_r (OpenForReadWrite name False (host k)) (\<lambda>(fd, h1).
       if fd = - 1 then Inr (None, k\<lparr>host := h1\<rparr>)
       else case OpenFile_new fd None (k\<lparr>host := h1\<rparr>) of (p, k1) \<Rightarrow> Inr (Some p, k1))"

fun free_slot_loop :: "nat \<Rightarrow> nat \<Rightarrow> nat option list \<Rightarrow> int result" where
  "free_slot_loop i 0 tab = Inr (- 1)"
| "free_slot_loop i (Suc n) tab =
     bind_r (arr_get tab (int i)) (\<lambda>e. if e = None then Inr (int i) else free_slot_loop (Suc i) n tab)"

definition FileSystem_getIdxFreeSlot :: "'z os_scheme \<Rightarrow> int result" where
  "FileSystem_getIdxFreeSlot k = free_slot_loop 2 (nat N_FILES_IN_TABLE - 2) (file_table k)"

definition FileSystem_Open_type :: "string \<Rightarrow> int \<Rightarrow> 'z os_scheme \<Rightarrow> (int \<times> 'z os_scheme) result" where
  "FileSystem_Open_type name type k =
     bind_r (if type = 2 then Inr 0 else if type = 3 then Inr 1
             else if type = 0 \<or> type = 1 then FileSystem_getIdxFreeSlot k else Inr (- 1)) (\<lambda>freeslot.
       if freeslot = - 1 then Inr (- 1, k)
       else bind_r (OpenForReadWrite name False (host k)) (\<lambda>(fd, h1).
         if fd = - 1 then Inr (- 1, k\<lparr>host := h1\<rparr>)
         else case OpenFile_new fd (Some type) (k\<lparr>host := h1\<rparr>) of (p, k1) \<Rightarrow>
           bind_r (arr_set (file_table k1) freeslot (Some p)) (\<lambda>tab.
           Inr (freeslot, k1\<lparr>file_table := tab\<rparr>))))"

definition FileSystem_Remove :: "string \<Rightarrow> 'z os_scheme \<Rightarrow> bool \<times> 'z os_scheme" where
  "FileSystem_Remove name k = (case Unlink name (host k) of (failed, h1) \<Rightarrow> (\<not> failed, k\<lparr>host := h1\<rparr>))"

definition FileSystem_new :: "'z os_scheme \<Rightarrow> 'z os_scheme result" where
  "FileSystem_new k =
     bind_r (FileSystem_Create ''stdin'' (k\<lparr>file_table := replicate (nat N_FILES_IN_TABLE) None\<rparr>)) (\<lambda>(_, k1).
     bind_r (FileSystem_Create ''stdout'' k1) (\<lambda>(_, k2).
     bind_r (FileSystem_Open_type ''stdin'' 2 k2) (\<lambda>(_, k3).
     bind_r (FileSystem_Open_type ''stdout'' 3 k3) (\<lambda>(_, k4). Inr k4))))"

definition FileSystem_delete :: "'z os_scheme \<Rightarrow> 'z os_scheme result" where
  "FileSystem_delete k =
     for_loop 0 (nat N_FILES_IN_TABLE) (\<lambda>i k.
       bind_r (arr_get (file_table k) (int i)) (\<lambda>e.
         case e of None \<Rightarrow> Inr k | Some p \<Rightarrow> OpenFile_delete p k)) k"

section \<open>A kernel to try things on\<close>

definition demo_bits :: "int \<Rightarrow> nat \<Rightarrow> BitMap" where
  "demo_bits n w = \<lparr>numBits = n, numWords = int w, bm_words = replicate w 0\<rparr>"

definition demo_os :: os where
  "demo_os = net.extend (demo_net 3 demo_host)
     (os.fields (\<lambda>_. None) 0 (replicate 100 None) 7 (demo_bits 256 8) 0 (demo_bits 10 1) (replicate 10 None) 10 8
       (\<lambda>_. None) 0 (demo_bits 10 1) (replicate 10 None))"

lemmas demo_os_simps = demo_os_def net.extend_def os.fields_def demo_net_simps

lemma demo_bits_empty [simp]: "bits (demo_bits n w) = {}" if "n \<le> int (32 * w)"
proof -
  have "m div 32 < w" if "int m < n" for m using that \<open>n \<le> int (32 * w)\<close> by (simp add: div_less_iff_less_mult mult.commute)
  then show ?thesis by (auto simp: bits_def demo_bits_def)
qed

end
