(* ===== verification/Addr_Space.thy ===== *)
theory Addr_Space
  imports User_Files
begin

text \<open>
  Address spaces of user programs, \<^verbatim>\<open>userprog/addrspace.cc\<close>: the NOFF header of an executable, the
  two constructors, which claim page frames and read the program into them, the destructor and the
  initial registers.  \<open>junk\<close> stands for what the members of a new object hold before they are
  assigned, \<open>raw\<close> for the uninitialised header on the stack.
\<close>

section \<open>Executables\<close>

definition NOFFMAGIC :: "32 word" where "NOFFMAGIC = 0xbadfad"
definition UserStackSize :: "32 word" where "UserStackSize = 1024"

record Segment =
  virtualAddr :: "32 word"
  inFileAddr :: "32 word"
  seg_size :: "32 word"

record NoffHeader =
  noffMagic :: "32 word"
  code_seg :: Segment
  initData :: Segment
  uninitData :: Segment

definition NoffHeader_size :: nat where "NoffHeader_size = 40"

definition segment_at :: "nat \<Rightarrow> byte list \<Rightarrow> Segment" where
  "segment_at i bs = \<lparr>virtualAddr = of_bytes (drop i bs), inFileAddr = of_bytes (drop (i + 4) bs),
     seg_size = of_bytes (drop (i + 8) bs)\<rparr>"

definition noff_header :: "byte list \<Rightarrow> NoffHeader" where
  "noff_header bs = \<lparr>noffMagic = of_bytes bs, code_seg = segment_at 4 bs, initData = segment_at 16 bs,
     uninitData = segment_at 28 bs\<rparr>"

definition SwapSegment :: "Segment \<Rightarrow> Segment" where
  "SwapSegment s = \<lparr>virtualAddr = WordToHost (virtualAddr s), inFileAddr = WordToHost (inFileAddr s),
     seg_size = WordToHost (seg_size s)\<rparr>"

definition SwapHeader :: "NoffHeader \<Rightarrow> NoffHeader" where
  "SwapHeader h = \<lparr>noffMagic = WordToHost (noffMagic h), code_seg = SwapSegment (code_seg h),
     initData = SwapSegment (initData h), uninitData = SwapSegment (uninitData h)\<rparr>"

text \<open>Reading the header; a short file leaves the rest of the variable as it was.\<close>

definition read_header :: "byte list \<Rightarrow> nat \<Rightarrow> 'z os_scheme \<Rightarrow> (NoffHeader \<times> 'z os_scheme) result" where
  "read_header raw f k =
     bind_r (OpenFile_ReadAt f (int NoffHeader_size) 0 k) (\<lambda>(_, bs, k1).
     let h0 = noff_header (bs @ drop (length bs) raw);
         h = (if noffMagic h0 \<noteq> NOFFMAGIC \<and> WordToHost (noffMagic h0) = NOFFMAGIC then SwapHeader h0 else h0)
     in bind_r (ASSERT (noffMagic h = NOFFMAGIC)) (\<lambda>_. Inr (h, k1)))"

text \<open>The number of pages, in unsigned arithmetic.\<close>

definition pages_needed :: "NoffHeader \<Rightarrow> 32 word" where
  "pages_needed h =
     (let size = seg_size (code_seg h) + seg_size (initData h) + seg_size (uninitData h) + UserStackSize;
          page = of_nat PageSize
      in size div page + (if size mod page > 0 then 1 else 0))"

section \<open>Loading\<close>

definition new_entry :: "nat \<times> int \<Rightarrow> TranslationEntry" where
  "new_entry = (\<lambda>(i, frame). \<lparr>virtualPage = of_nat i, physicalPage = of_int frame, valid = True,
     readOnly = False, use = False, dirty = False\<rparr>)"

text \<open>The loop that fills the page table, taking one frame from the bitmap per page.\<close>

definition map_pages :: "nat \<Rightarrow> 'z os_scheme \<Rightarrow> (TranslationEntry list \<times> 'z os_scheme) result" where
  "map_pages n k =
     bind_r (alloc_slots BitMap_FindFreeSlot n (gPhysPageBitMap k)) (\<lambda>(frames, b).
       Inr (map new_entry (enumerate 0 frames), k\<lparr>gPhysPageBitMap := b\<rparr>))"

text \<open>Storing bytes read from a file into \<^verbatim>\<open>machine->mainMemory\<close>.\<close>

definition store_bytes :: "int \<Rightarrow> byte list \<Rightarrow> 'z hw_scheme \<Rightarrow> 'z hw_scheme result" where
  "store_bytes base bs k =
     (if bs = [] then Inr k
      else if base < 0 \<or> int MemorySize < base + int (length bs) then Inl OutOfBounds
      else Inr (k\<lparr>mainMemory := (\<lambda>a. if nat base \<le> a \<and> a < nat base + length bs then bs ! (a - nat base)
                                   else mainMemory k a)\<rparr>))"

definition load_segment :: "nat \<Rightarrow> Segment \<Rightarrow> TranslationEntry list \<Rightarrow> 'z os_scheme \<Rightarrow> 'z os_scheme result" where
  "load_segment f seg table k =
     (if sint (seg_size seg) > 0
      then for_loop 0 (length table) (\<lambda>i k.
        bind_r (OpenFile_ReadAt f (int PageSize) (sint (inFileAddr seg + of_nat (i * PageSize))) k) (\<lambda>(_, bs, k1).
        store_bytes (sint (virtualAddr seg) + sint (physicalPage (table ! i)) * int PageSize) bs k1)) k
      else Inr k)"

definition AddrSpace_alloc :: "AddrSpace \<Rightarrow> 'z os_scheme \<Rightarrow> nat \<times> 'z os_scheme" where
  "AddrSpace_alloc a k = (space_brk k, k\<lparr>spaces := (spaces k)(space_brk k \<mapsto> a), space_brk := Suc (space_brk k)\<rparr>)"

definition table_alloc :: "TranslationEntry list \<Rightarrow> 'z os_scheme \<Rightarrow> nat \<times> 'z os_scheme" where
  "table_alloc t k = (table_brk k, k\<lparr>pageTables := (pageTables k)(table_brk k \<mapsto> t), table_brk := Suc (table_brk k)\<rparr>)"

text \<open>The constructor \<^verbatim>\<open>AddrSpace(OpenFile *)\<close>; the result is the address of the new object.\<close>

definition AddrSpace_new_file :: "AddrSpace \<Rightarrow> byte list \<Rightarrow> 'z os_scheme semop \<Rightarrow> 'z os_scheme semop \<Rightarrow>
    nat option \<Rightarrow> 'z os_scheme \<Rightarrow> (nat \<times> 'z os_scheme) result" where
  "AddrSpace_new_file junk raw P V executable k =
     (case executable of
        None \<Rightarrow> Inr (AddrSpace_alloc junk k)
      | Some f \<Rightarrow>
          bind_r (read_header raw f k) (\<lambda>(h, k1).
          bind_r (P (addrLock k1) k1) (\<lambda>k2.
          let numPages = pages_needed h in
          bind_r (ASSERT (unat numPages \<le> NumPhysPages)) (\<lambda>_.
          bind_r (BitMap_NumClear (gPhysPageBitMap k2)) (\<lambda>clear.
          if uint numPages > clear
          then bind_r (OpenFile_delete f k2) (\<lambda>k3.
               bind_r (V (addrLock k3) k3) (\<lambda>k4.
               Inr (AddrSpace_alloc (junk\<lparr>as_numPages := 0\<rparr>) k4)))
          else
            bind_r (map_pages (unat numPages) k2) (\<lambda>(table, k3).
            bind_r (V (addrLock k3) k3) (\<lambda>k4.
            bind_r (load_segment f (code_seg h) table k4) (\<lambda>k5.
            bind_r (load_segment f (initData h) table k5) (\<lambda>k6.
            case table_alloc table k6 of (pt, k7) \<Rightarrow>
            Inr (AddrSpace_alloc \<lparr>as_pageTable = pt, as_numPages = numPages\<rparr> k7))))))))))"

text \<open>
  The constructor \<^verbatim>\<open>AddrSpace(char *)\<close>.  When memory does not suffice it closes the executable,
  releases the lock and goes on with no pages; then it releases the lock and closes the executable
  once more.
\<close>

definition AddrSpace_new :: "AddrSpace \<Rightarrow> byte list \<Rightarrow> 'z os_scheme semop \<Rightarrow> 'z os_scheme semop \<Rightarrow>
    string \<Rightarrow> 'z os_scheme \<Rightarrow> (nat \<times> 'z os_scheme) result" where
  "AddrSpace_new junk raw P V filename k =
     bind_r (FileSystem_Open filename k) (\<lambda>(executable, k0).
     case executable of
       None \<Rightarrow> Inr (AddrSpace_alloc junk k0)
     | Some f \<Rightarrow>
         bind_r (read_header raw f k0) (\<lambda>(h, k1).
         bind_r (P (addrLock k1) k1) (\<lambda>k2.
         bind_r (BitMap_NumClear (gPhysPageBitMap k2)) (\<lambda>numclear.
         bind_r (if uint (pages_needed h) > numclear
                 then bind_r (OpenFile_delete f k2) (\<lambda>k3. bind_r (V (addrLock k3) k3) (\<lambda>k4. Inr (0, k4)))
                 else Inr (pages_needed h, k2)) (\<lambda>(numPages, k3).
         bind_r (map_pages (unat numPages) k3) (\<lambda>(table, k4).
         bind_r (V (addrLock k4) k4) (\<lambda>k5.
         bind_r (load_segment f (code_seg h) table k5) (\<lambda>k6.
         bind_r (load_segment f (initData h) table k6) (\<lambda>k7.
         bind_r (OpenFile_delete f k7) (\<lambda>k8.
         case table_alloc table k8 of (pt, k9) \<Rightarrow>
         Inr (AddrSpace_alloc \<lparr>as_pageTable = pt, as_numPages = numPages\<rparr> k9)))))))))))"

definition AddrSpace_delete :: "nat \<Rightarrow> 'z os_scheme \<Rightarrow> 'z os_scheme result" where
  "AddrSpace_delete sp k =
     bind_r (obj (spaces k) sp) (\<lambda>a.
     bind_r (obj (pageTables k) (as_pageTable a)) (\<lambda>table.
     bind_r (for_loop 0 (unat (as_numPages a)) (\<lambda>i b.
       bind_r (arr_get table (int i)) (\<lambda>e. BitMap_Clear (sint (physicalPage e)) b)) (gPhysPageBitMap k)) (\<lambda>b.
     Inr (k\<lparr>gPhysPageBitMap := b, pageTables := (pageTables k)(as_pageTable a := None),
            spaces := (spaces k)(sp := None)\<rparr>))))"

text \<open>\<^verbatim>\<open>Thread::FreeSpace\<close>: the pointer is not cleared.\<close>

definition Thread_FreeSpace :: "nat \<Rightarrow> 'z os_scheme \<Rightarrow> 'z os_scheme result" where
  "Thread_FreeSpace t k =
     bind_r (obj (threads k) t) (\<lambda>th. case thr_space th of None \<Rightarrow> Inr k | Some sp \<Rightarrow> AddrSpace_delete sp k)"

definition AddrSpace_InitRegisters :: "nat \<Rightarrow> 'z os_scheme \<Rightarrow> 'z os_scheme result" where
  "AddrSpace_InitRegisters sp k =
     bind_r (obj (spaces k) sp) (\<lambda>a.
     bind_r (for_loop 0 NumTotalRegs (\<lambda>i. Machine_WriteRegister (int i) 0) k) (\<lambda>k1.
     bind_r (Machine_WriteRegister (int PCReg) 0 k1) (\<lambda>k2.
     bind_r (Machine_WriteRegister (int NextPCReg) 4 k2) (\<lambda>k3.
     Machine_WriteRegister (int StackReg) (as_numPages a * of_nat PageSize - 16) k3))))"

section \<open>Page frames\<close>

definition frames :: "TranslationEntry list \<Rightarrow> nat list" where
  "frames t = map (\<lambda>e. unat (physicalPage e)) t"

text \<open>The frames of an address space.\<close>

definition space_frames :: "nat \<Rightarrow> 'z os_scheme \<Rightarrow> nat list option" where
  "space_frames sp k = Option.bind (spaces k sp) (\<lambda>a.
     Option.bind (pageTables k (as_pageTable a)) (\<lambda>t.
       if length t = unat (as_numPages a) then Some (frames t) else None))"

definition phys_ok :: "'z os_scheme \<Rightarrow> bool" where
  "phys_ok k \<longleftrightarrow> bitmap_ok (gPhysPageBitMap k) \<and> numBits (gPhysPageBitMap k) < 2 ^ 31"

abbreviation used_frames :: "'z os_scheme \<Rightarrow> nat set" where
  "used_frames k \<equiv> bits (gPhysPageBitMap k)"

lemma frames_new_entry:
  assumes "set ns \<subseteq> {..<2 ^ 31}"
  shows "frames (map new_entry (enumerate i (map int ns))) = ns"
    "map (\<lambda>e. sint (physicalPage e)) (map new_entry (enumerate i (map int ns))) = map int ns"
  using assms
proof (induction ns arbitrary: i)
  case (Cons n ns)
  { case 1
    then have "unat (of_int (int n) :: 32 word) = n" using unat_of_nat_small [of n] by simp
    then show ?case using Cons.IH(1) [of "Suc i"] 1 by (simp add: frames_def new_entry_def)
  next
    case 2
    then have "unat (of_int (int n) :: 32 word) = n" using unat_of_nat_small [of n] by simp
    then have "sint (of_int (int n) :: 32 word) = int n" using sint_small [of "of_int (int n)"] 2 by simp
    then show ?case using Cons.IH(2) [of "Suc i"] 2 by (simp add: new_entry_def) }
qed (simp_all add: frames_def)

lemma map_pages_ok:
  assumes "phys_ok k" "n \<le> bm_size (gPhysPageBitMap k) - card (used_frames k)"
  shows "\<exists>t b. map_pages n k = Inr (t, k\<lparr>gPhysPageBitMap := b\<rparr>) \<and> length t = n \<and> distinct (frames t) \<and>
    set (frames t) \<inter> used_frames k = {} \<and> set (frames t) \<subseteq> {..<bm_size b} \<and> bits b = used_frames k \<union> set (frames t) \<and>
    phys_ok (k\<lparr>gPhysPageBitMap := b\<rparr>) \<and> map (\<lambda>e. sint (physicalPage e)) t = map int (frames t)"
proof -
  have ok: "bitmap_ok (gPhysPageBitMap k)" using assms(1) by (simp add: phys_ok_def)
  from bm.alloc_slots_enough [OF ok assms(2)] obtain ns b where
    ns: "alloc_slots BitMap_FindFreeSlot n (gPhysPageBitMap k) = Inr (map int ns, b)" "length ns = n" "distinct ns"
      "set ns \<inter> used_frames k = {}" "set ns \<subseteq> {..<bm_size (gPhysPageBitMap k)}" "bits b = used_frames k \<union> set ns"
      "bitmap_ok b" "bm_size b = bm_size (gPhysPageBitMap k)" by blast
  have "bm_size (gPhysPageBitMap k) < 2 ^ 31" using assms(1) by (simp add: phys_ok_def bitmap_ok_def nat_less_iff)
  then have small: "set ns \<subseteq> {..<2 ^ 31}" using ns(5) by auto
  have "numBits b = numBits (gPhysPageBitMap k)" using ns(7,8) ok by (auto simp: bitmap_ok_def nat_eq_iff)
  then have "numBits b < 2 ^ 31" using assms(1) by (simp add: phys_ok_def)
  with frames_new_entry [OF small, of 0] ns show ?thesis
    by (intro exI [of _ "map new_entry (enumerate 0 (map int ns))"] exI [of _ b])
      (simp add: map_pages_def phys_ok_def)
qed

text \<open>The loop of the destructor.\<close>

lemma for_loop_free:
  assumes "i + n \<le> length xs"
  shows "for_loop i n (\<lambda>j b. bind_r (arr_get xs (int j)) (\<lambda>e. clear (g e) b)) b =
    free_slots clear (map g (take n (drop i xs))) b"
  using assms
proof (induction n arbitrary: i b)
  case (Suc n)
  then have "drop i xs = xs ! i # drop (Suc i) xs" by (simp add: Cons_nth_drop_Suc)
  then show ?case using Suc by (cases "clear (g (xs ! i)) b") auto
qed simp

lemma AddrSpace_delete_ok:
  assumes "phys_ok k" "spaces k sp = Some a" "pageTables k (as_pageTable a) = Some t" "length t = unat (as_numPages a)"
    "map (\<lambda>e. sint (physicalPage e)) t = map int (frames t)" "set (frames t) \<subseteq> {..<bm_size (gPhysPageBitMap k)}"
  shows "\<exists>k'. AddrSpace_delete sp k = Inr k' \<and> used_frames k' = used_frames k - set (frames t) \<and> phys_ok k' \<and>
    spaces k' = (spaces k)(sp := None)"
proof -
  have ok: "bitmap_ok (gPhysPageBitMap k)" using assms(1) by (simp add: phys_ok_def)
  from bm.free_slots_exact [OF ok assms(6)] obtain b where
    b: "free_slots BitMap_Clear (map int (frames t)) (gPhysPageBitMap k) = Inr b"
      "bits b = used_frames k - set (frames t)" "bitmap_ok b" "bm_size b = bm_size (gPhysPageBitMap k)" by blast
  have "numBits b = numBits (gPhysPageBitMap k)" using b(3,4) ok by (auto simp: bitmap_ok_def nat_eq_iff)
  moreover have "for_loop 0 (unat (as_numPages a)) (\<lambda>i b.
      bind_r (arr_get t (int i)) (\<lambda>e. BitMap_Clear (sint (physicalPage e)) b)) (gPhysPageBitMap k) = Inr b"
    using for_loop_free [of 0 "length t" t BitMap_Clear "\<lambda>e. sint (physicalPage e)" "gPhysPageBitMap k"] b(1) assms(4,5) by simp
  ultimately show ?thesis using b(2,3) assms(1-3) by (simp add: AddrSpace_delete_def phys_ok_def)
qed

lemma NumClear_count:
  assumes "phys_ok k"
  shows "BitMap_NumClear (gPhysPageBitMap k) = Inr (int (bm_size (gPhysPageBitMap k) - card (used_frames k)))"
  using BitMap_NumClear_eq [of "gPhysPageBitMap k"] assms by (simp add: phys_ok_def)

text \<open>Reading the executable only touches the host's offsets and the memory.\<close>

definition same_frames :: "'z os_scheme \<Rightarrow> 'z os_scheme \<Rightarrow> bool" where
  "same_frames k k' \<longleftrightarrow> gPhysPageBitMap k' = gPhysPageBitMap k \<and> spaces k' = spaces k \<and> pageTables k' = pageTables k \<and>
     space_brk k' = space_brk k \<and> table_brk k' = table_brk k \<and> files k' = files k \<and> addrLock k' = addrLock k"

lemma same_frames_refl [simp]: "same_frames k k"
  by (simp add: same_frames_def)

lemma same_frames_trans: "same_frames k k1 \<Longrightarrow> same_frames k1 k2 \<Longrightarrow> same_frames k k2"
  by (simp add: same_frames_def)

lemma ReadAt_frames: "OpenFile_ReadAt f n pos k = Inr (r, bs, k') \<Longrightarrow> same_frames k k'"
  by (auto simp: OpenFile_ReadAt_def same_frames_def elim!: bind_r_InrE split: option.split_asm)

lemma read_header_frames: "read_header raw f k = Inr (h, k') \<Longrightarrow> same_frames k k'"
  by (auto simp: read_header_def Let_def elim!: bind_r_InrE dest!: ReadAt_frames)

lemma store_bytes_frames: "store_bytes a bs k = Inr k' \<Longrightarrow> same_frames k k'"
  by (auto simp: store_bytes_def same_frames_def split: if_split_asm)

lemma load_segment_frames:
  assumes "load_segment f seg t k = Inr k'"
  shows "same_frames k k'"
proof (cases "sint (seg_size seg) > 0")
  case True
  with assms show ?thesis unfolding load_segment_def
    by (simp, elim for_loop_keeps [where R = same_frames])
      (auto elim!: bind_r_InrE dest!: ReadAt_frames store_bytes_frames intro: same_frames_trans)
qed (use assms in \<open>simp add: load_segment_def\<close>)

definition semops_keep_frames :: "'z os_scheme semop \<Rightarrow> bool" where
  "semops_keep_frames P \<longleftrightarrow> (\<forall>s k k'. P s k = Inr k' \<longrightarrow> same_frames k k')"

lemma Open_frames:
  assumes "FileSystem_Open name k = Inr (Some f, k')"
  shows "gPhysPageBitMap k' = gPhysPageBitMap k" "spaces k' = spaces k" "pageTables k' = pageTables k"
  using assms by (auto simp: FileSystem_Open_def OpenFile_new_def elim!: bind_r_InrE split: if_split_asm)

lemma AddrSpace_new_frames:
  assumes "AddrSpace_new junk raw P V name k = Inr (sp, k')" "FileSystem_Open name k = Inr (Some f, k0)" "phys_ok k"
    "semops_keep_frames P" "semops_keep_frames V"
  shows "\<exists>t. space_frames sp k' = Some (frames t) \<and> distinct (frames t) \<and> set (frames t) \<inter> used_frames k = {} \<and>
    used_frames k' = used_frames k \<union> set (frames t) \<and> phys_ok k' \<and>
    (\<exists>a. spaces k' sp = Some a \<and> pageTables k' (as_pageTable a) = Some t \<and> length t = unat (as_numPages a)) \<and>
    map (\<lambda>e. sint (physicalPage e)) t = map int (frames t) \<and> set (frames t) \<subseteq> {..<bm_size (gPhysPageBitMap k')}"
proof -
  from assms(1,2) obtain h k1 k2 numclear numPages k3 t k4 k5 k6 k7 k8 pt k9 where
    h: "read_header raw f k0 = Inr (h, k1)" and k2: "P (addrLock k1) k1 = Inr k2"
    and nc: "BitMap_NumClear (gPhysPageBitMap k2) = Inr numclear"
    and k3: "(if uint (pages_needed h) > numclear
        then bind_r (OpenFile_delete f k2) (\<lambda>k3. bind_r (V (addrLock k3) k3) (\<lambda>k4. Inr (0, k4)))
        else Inr (pages_needed h, k2)) = Inr (numPages, k3)"
    and t: "map_pages (unat numPages) k3 = Inr (t, k4)" and k5: "V (addrLock k4) k4 = Inr k5"
    and k6: "load_segment f (code_seg h) t k5 = Inr k6" and k7: "load_segment f (initData h) t k6 = Inr k7"
    and k8: "OpenFile_delete f k7 = Inr k8" and pt: "table_alloc t k8 = (pt, k9)"
    and sp: "(sp, k') = AddrSpace_alloc \<lparr>as_pageTable = pt, as_numPages = numPages\<rparr> k9"
    unfolding AddrSpace_new_def by (auto elim!: bind_r_InrE split: prod.split_asm)
  have s2: "same_frames k0 k2" using read_header_frames [OF h] k2 assms(4) same_frames_trans
    unfolding semops_keep_frames_def by blast
  have g2: "gPhysPageBitMap k2 = gPhysPageBitMap k"
    using s2 Open_frames(1) [OF assms(2)] by (simp add: same_frames_def)
  then have ok2: "phys_ok k2" using assms(3) by (simp add: phys_ok_def)
  have s7: "same_frames k5 k7" using load_segment_frames [OF k6] load_segment_frames [OF k7] same_frames_trans by blast
  have s5: "same_frames k4 k5" using k5 assms(5) by (simp add: semops_keep_frames_def)
  have enough: "\<not> uint (pages_needed h) > numclear"
  proof
    assume "uint (pages_needed h) > numclear"
    with k3 obtain k3' where d: "OpenFile_delete f k2 = Inr k3'" "V (addrLock k3') k3' = Inr k3" by (auto elim!: bind_r_InrE)
    then have "files k3 f = None" using assms(5)
      by (auto simp: OpenFile_delete_def semops_keep_frames_def same_frames_def elim!: bind_r_InrE)
    moreover have "files k4 = files k3" using t by (auto simp: map_pages_def elim!: bind_r_InrE)
    ultimately have "files k7 f = None" using s5 s7 by (simp add: same_frames_def)
    with k8 show False by (simp add: OpenFile_delete_def obj_def)
  qed
  with k3 have k3: "numPages = pages_needed h" "k3 = k2" by simp_all
  have "int (unat numPages) \<le> int (bm_size (gPhysPageBitMap k2) - card (used_frames k2))"
    using enough k3(1) nc NumClear_count [OF ok2] by simp
  then have "unat numPages \<le> bm_size (gPhysPageBitMap k2) - card (used_frames k2)" by (simp only: of_nat_le_iff)
  from map_pages_ok [OF ok2 this] t k3(2) obtain b where
    m: "k4 = k2\<lparr>gPhysPageBitMap := b\<rparr>" "length t = unat numPages" "distinct (frames t)" "set (frames t) \<inter> used_frames k2 = {}"
      "set (frames t) \<subseteq> {..<bm_size b}" "bits b = used_frames k2 \<union> set (frames t)" "phys_ok k4"
      "map (\<lambda>e. sint (physicalPage e)) t = map int (frames t)" by auto
  have b8: "gPhysPageBitMap k8 = b" "gPhysPageBitMap k' = gPhysPageBitMap k8"
    using k8 s5 s7 m(1) pt sp
    by (auto simp: OpenFile_delete_def same_frames_def table_alloc_def AddrSpace_alloc_def elim!: bind_r_InrE)
  have sp': "spaces k' sp = Some \<lparr>as_pageTable = pt, as_numPages = numPages\<rparr>" "pageTables k' pt = Some t"
    using pt sp by (auto simp: table_alloc_def AddrSpace_alloc_def)
  have "phys_ok k'" using m(1,7) b8 by (simp add: phys_ok_def)
  moreover have "space_frames sp k' = Some (frames t)" using sp' m(2) by (simp add: space_frames_def)
  moreover have "used_frames k' = used_frames k \<union> set (frames t)" "set (frames t) \<inter> used_frames k = {}"
    using b8 m(4,6) g2 by simp_all
  ultimately show ?thesis using m(2,3,5,8) b8 sp' by (intro exI [of _ t]) simp
qed

section \<open>Properties\<close>

text \<open>
  C4: Address spaces do not share memory.  When \<^verbatim>\<open>AddrSpace::AddrSpace(char *)\<close> has created an
  address space and no other thread changed the table of frames meanwhile, the page frames of the
  new page table are pairwise different, none of them was in use before, exactly they have become
  used, and deleting the address space makes the set of used frames what it was.
\<close>

theorem AddrSpace_new_delete:
  assumes "AddrSpace_new junk raw P V name k = Inr (sp, k')" "FileSystem_Open name k = Inr (Some f, k0)" "phys_ok k"
    "semops_keep_frames P" "semops_keep_frames V"
  shows "\<exists>fs k''. space_frames sp k' = Some fs \<and> distinct fs \<and> set fs \<inter> used_frames k = {} \<and>
    used_frames k' = used_frames k \<union> set fs \<and> AddrSpace_delete sp k' = Inr k'' \<and> used_frames k'' = used_frames k"
proof -
  from AddrSpace_new_frames [OF assms] obtain t a where
    t: "space_frames sp k' = Some (frames t)" "distinct (frames t)" "set (frames t) \<inter> used_frames k = {}"
      "used_frames k' = used_frames k \<union> set (frames t)" "phys_ok k'"
    and a: "spaces k' sp = Some a" "pageTables k' (as_pageTable a) = Some t" "length t = unat (as_numPages a)"
      "map (\<lambda>e. sint (physicalPage e)) t = map int (frames t)" "set (frames t) \<subseteq> {..<bm_size (gPhysPageBitMap k')}" by blast
  from AddrSpace_delete_ok [OF t(5) a] obtain k'' where
    "AddrSpace_delete sp k' = Inr k''" "used_frames k'' = used_frames k' - set (frames t)" by blast
  then show ?thesis using t by auto
qed

section \<open>A program to load\<close>

text \<open>The header of an executable with four bytes of code at address 0, and the code.\<close>

definition demo_noff :: "byte list" where
  "demo_noff = [0xad, 0xdf, 0xba, 0, 0, 0, 0, 0, 40, 0, 0, 0, 4, 0, 0, 0] @ replicate 24 0 @ [12, 0, 0, 0]"

definition demo_exec :: os where
  "demo_exec = demo_os\<lparr>host := demo_host\<lparr>h_dir := [''prog'' \<mapsto> 1], h_data := (\<lambda>_. demo_noff),
     h_fds := [Some (0, 0), Some (0, 0), Some (0, 0)]\<rparr>\<rparr>"

definition demo_junk :: AddrSpace where
  "demo_junk = \<lparr>as_pageTable = 0, as_numPages = 0\<rparr>"


lemmas demo_exec_simps = demo_exec_def demo_os_simps


definition demo_opened :: "nat \<Rightarrow> os" where
  "demo_opened off = demo_exec\<lparr>host := (host demo_exec)\<lparr>h_fds := [Some (0, 0), Some (0, 0), Some (0, 0), Some (1, off)]\<rparr>,
     files := [0 \<mapsto> \<lparr>of_file = 3, of_currentOffset = 0, of_type = None\<rparr>], file_brk := 1\<rparr>"

lemma demo_open: "FileSystem_Open ''prog'' demo_exec = Inr (Some 0, demo_opened 0)"
  by (simp add: demo_opened_def FileSystem_Open_def OpenForReadWrite_def OpenFile_new_def set_fd_def demo_exec_simps)

lemma demo_alloc: "alloc_slots BitMap_FindFreeSlot 3 (demo_bits 256 8) =
   Inr ([0, 1, 2], \<lparr>numBits = 256, numWords = 8, bm_words = [7, 0, 0, 0, 0, 0, 0, 0]\<rparr>)"
  by code_simp


lemma demo_clear: "BitMap_NumClear (demo_bits 256 8) = Inr 256"
proof -
  have "bitmap_ok (demo_bits 256 8)" by (simp add: bitmap_ok_def demo_bits_def divRoundUp_def BitsInWord_def)
  moreover have "bits (demo_bits 256 8) = {}" by simp
  moreover have "bm_size (demo_bits 256 8) = 256" by (simp add: demo_bits_def)
  ultimately show ?thesis using BitMap_NumClear_eq [of "demo_bits 256 8"] by simp
qed

definition demo_hdr :: NoffHeader where
  "demo_hdr = \<lparr>noffMagic = NOFFMAGIC, code_seg = \<lparr>virtualAddr = 0, inFileAddr = 40, seg_size = 4\<rparr>,
     initData = \<lparr>virtualAddr = 0, inFileAddr = 0, seg_size = 0\<rparr>, uninitData = \<lparr>virtualAddr = 0, inFileAddr = 0, seg_size = 0\<rparr>\<rparr>"

lemma demo_noff_hdr: "noff_header (take 40 demo_noff) = demo_hdr"
  by code_simp
lemma demo_pages: "pages_needed demo_hdr = 3"
  by code_simp

lemma demo_read: "read_header [] 0 (demo_opened 0) = Inr (demo_hdr, demo_opened 40)"
proof -
 have "length demo_noff = 44" by code_simp
 then show ?thesis using demo_noff_hdr
  by (simp add: read_header_def OpenFile_ReadAt_def Lseek_def ReadPartial_def host_read_def read_at_def fd_entry_def NoffHeader_size_def set_fd_def
    demo_opened_def demo_exec_simps demo_hdr_def)
qed

abbreviation demo_at :: "nat \<Rightarrow> (nat \<Rightarrow> byte) \<Rightarrow> os" where
  "demo_at off m \<equiv> (demo_opened off)\<lparr>gPhysPageBitMap := \<lparr>numBits = 256, numWords = 8,
     bm_words = [7, 0, 0, 0, 0, 0, 0, 0]\<rparr>, mainMemory := m\<rparr>"

lemma demo_ReadAt:
  "OpenFile_ReadAt 0 512 (int pos) (demo_at off m) =
     Inr (int (length (read_at pos 512 demo_noff)), read_at pos 512 demo_noff,
       demo_at (pos + length (read_at pos 512 demo_noff)) m)"
  by (simp add: OpenFile_ReadAt_def Lseek_def ReadPartial_def host_read_def fd_entry_def set_fd_def
      demo_opened_def demo_exec_simps)

lemma demo_store:
  assumes "bs = [] \<or> a = 0 \<and> length bs \<le> 512"
  shows "\<exists>m'. store_bytes a bs (k\<lparr>mainMemory := m\<rparr>) = Inr (k\<lparr>mainMemory := m'\<rparr>)"
  using assms by (cases "bs = []") (auto simp: store_bytes_def nachos_defs)

lemma demo_step:
  assumes "i < 3" "\<exists>off m. k = demo_at off m"
  shows "\<exists>k'. (bind_r (OpenFile_ReadAt 0 (int PageSize) (sint (40 + of_nat (i * PageSize) :: 32 word)) k) (\<lambda>(_, bs, k1).
      store_bytes (sint (0 :: 32 word) + sint (physicalPage (map new_entry (enumerate 0 [0, 1, 2]) ! i)) * int PageSize) bs k1)) = Inr k' \<and>
      (\<exists>off m. k' = demo_at off m)"
proof -
  obtain off m where k: "k = demo_at off m" using assms(2) by blast
  have len: "length demo_noff = 44" by code_simp
  from \<open>i < 3\<close> consider "i = 0" | "i = 1" | "i = 2" by linarith
  then have pos: "sint (40 + of_nat (i * PageSize) :: 32 word) = int (40 + i * 512)"
    by cases (simp_all add: nachos_defs)
  let ?bs = "read_at (40 + i * 512) 512 demo_noff"
  have "OpenFile_ReadAt 0 (int PageSize) (int (40 + i * 512)) k = Inr (int (length ?bs), ?bs, demo_at (40 + i * 512 + length ?bs) m)"
    using demo_ReadAt [where pos = "40 + i * 512" and off = off and m = m] unfolding k by (simp add: nachos_defs)
  moreover have "?bs = [] \<or> i = 0 \<and> length ?bs \<le> 512" by (cases i) (simp_all add: len read_at_def)
  then have "\<exists>m'. store_bytes (sint (0 :: 32 word) + sint (physicalPage (map new_entry (enumerate 0 [0, 1, 2]) ! i)) * int PageSize)
      ?bs (demo_at (40 + i * 512 + length ?bs) m) = Inr (demo_at (40 + i * 512 + length ?bs) m')"
    by (intro demo_store) (auto simp: new_entry_def)
  ultimately show ?thesis unfolding pos by auto
qed

lemma demo_load:
  "\<exists>off m. load_segment 0 (code_seg demo_hdr) (map new_entry (enumerate 0 [0, 1, 2])) (demo_at 40 m0) = Inr (demo_at off m)"
proof -
  have "\<exists>k'. for_loop 0 3 (\<lambda>i k. bind_r (OpenFile_ReadAt 0 (int PageSize) (sint (40 + of_nat (i * PageSize) :: 32 word)) k) (\<lambda>(_, bs, k1).
      store_bytes (sint (0 :: 32 word) + sint (physicalPage (map new_entry (enumerate 0 [0, 1, 2]) ! i)) * int PageSize) bs k1))
      (demo_at 40 m0) = Inr k' \<and> (\<exists>off m. k' = demo_at off m)"
    by (rule for_loop_rule) (blast, use demo_step in simp)
  then show ?thesis by (auto simp add: load_segment_def demo_hdr_def numeral_3_eq_3 simp del: for_loop.simps)
qed

lemma demo_space: "\<exists>sp k'. AddrSpace_new demo_junk [] (\<lambda>_. Inr) (\<lambda>_. Inr) ''prog'' demo_exec = Inr (sp, k')"
proof -
  let ?b = "\<lparr>numBits = 256, numWords = 8, bm_words = [7, 0, 0, 0, 0, 0, 0, 0]\<rparr>"
  obtain off m where m: "load_segment 0 (code_seg demo_hdr) (map new_entry (enumerate 0 [0, 1, 2]))
      (demo_at 40 (mainMemory demo_exec)) = Inr (demo_at off m)" using demo_load by blast
  have "(demo_opened 40)\<lparr>gPhysPageBitMap := ?b\<rparr> = demo_at 40 (mainMemory demo_exec)"
    by (simp add: demo_opened_def demo_exec_simps)
  then have "map_pages 3 (demo_opened 40) = Inr (map new_entry (enumerate 0 [0, 1, 2]), demo_at 40 (mainMemory demo_exec))"
    by (simp add: map_pages_def demo_alloc demo_opened_def demo_exec_simps)
  moreover obtain k8 where "OpenFile_delete 0 (demo_at off m) = Inr k8"
    by (simp add: OpenFile_delete_def Close_def demo_opened_def demo_exec_simps fd_entry_def)
  moreover have "load_segment f (initData demo_hdr) t k = Inr k" for f t and k :: os
    by (simp add: load_segment_def demo_hdr_def)
  moreover have "BitMap_NumClear (gPhysPageBitMap (demo_opened 40)) = Inr 256"
    using demo_clear by (simp add: demo_opened_def demo_exec_simps)
  ultimately show ?thesis using m unfolding AddrSpace_new_def demo_open
    by (simp add: demo_read demo_pages table_alloc_def AddrSpace_alloc_def del: enumerate_simps)
qed

theorem AddrSpace_new_delete_witness:
  "\<exists>sp k' fs k''. AddrSpace_new demo_junk [] (\<lambda>_. Inr) (\<lambda>_. Inr) ''prog'' demo_exec = Inr (sp, k') \<and>
    space_frames sp k' = Some fs \<and> distinct fs \<and> used_frames k' = set fs \<and>
    AddrSpace_delete sp k' = Inr k'' \<and> used_frames k'' = {}"
proof -
  obtain sp k' where k': "AddrSpace_new demo_junk [] (\<lambda>_. Inr) (\<lambda>_. Inr) ''prog'' demo_exec = Inr (sp, k')"
    using demo_space by blast
  have g: "gPhysPageBitMap demo_exec = demo_bits 256 8" by (simp add: demo_exec_simps)
  then have "phys_ok demo_exec"
    by (simp add: phys_ok_def bitmap_ok_def demo_bits_def divRoundUp_def BitsInWord_def)
  moreover have "semops_keep_frames (\<lambda>_. Inr)" by (simp add: semops_keep_frames_def)
  moreover have "used_frames demo_exec = {}" by (simp add: g)
  ultimately show ?thesis using AddrSpace_new_delete [OF k' demo_open] k' by auto
qed

end
