(* ===== verification/Sem_Table.thy ===== *)
theory Sem_Table
  imports User_Files
begin

text \<open>
  The table of the semaphores of user programs, \<^verbatim>\<open>userprog/stable.h\<close> and \<^verbatim>\<open>userprog/stable.cc\<close>.  A
  bitmap says which slots are in use.  The table is proved to implement a finite map from names to
  semaphores with room for \<^verbatim>\<open>MAX_SEMAPHORE\<close> of them.
\<close>

section \<open>Operations\<close>

definition Semaphore_delete :: "nat \<Rightarrow> 'z kern_scheme \<Rightarrow> 'z kern_scheme result" where
  "Semaphore_delete s k =
     bind_r (obj (semaphores k) s) (\<lambda>_. Inr (k\<lparr>semaphores := (semaphores k)(s := None)\<rparr>))"

text \<open>\<^verbatim>\<open>strcpy\<close> into \<^verbatim>\<open>char name[50]\<close>\<close>

definition Sem_new :: "string \<Rightarrow> int \<Rightarrow> 'z kern_scheme \<Rightarrow> (Sem \<times> 'z kern_scheme) result" where
  "Sem_new na i k =
     (if 50 \<le> length na then Inl OutOfBounds
      else case Semaphore_new na i k of (s, k1) \<Rightarrow> Inr (\<lparr>sm_name = na, sm_sem = s\<rparr>, k1))"

definition STable_new :: "32 word list \<Rightarrow> 'z os_scheme \<Rightarrow> 'z os_scheme result" where
  "STable_new raw k =
     bind_r (BitMap_new MAX_SEMAPHORE raw) (\<lambda>b.
       Inr (k\<lparr>semTab_bm := b, semTab_tab := replicate (nat MAX_SEMAPHORE) None\<rparr>))"

definition STable_delete :: "'z os_scheme \<Rightarrow> 'z os_scheme result" where
  "STable_delete k =
     for_loop 0 (nat MAX_SEMAPHORE) (\<lambda>i k.
       bind_r (arr_get (semTab_tab k) (int i)) (\<lambda>e.
         case e of None \<Rightarrow> Inr k
         | Some sem \<Rightarrow> bind_r (Semaphore_delete (sm_sem sem) k) (\<lambda>k1.
             bind_r (arr_set (semTab_tab k1) (int i) None) (\<lambda>tab. Inr (k1\<lparr>semTab_tab := tab\<rparr>))))) k"

text \<open>The loop that all operations start with: the first used slot with this name.\<close>

fun find_sem :: "nat \<Rightarrow> nat \<Rightarrow> string \<Rightarrow> 'z os_scheme \<Rightarrow> Sem option result" where
  "find_sem i 0 name k = Inr None"
| "find_sem i (Suc n) name k =
     bind_r (BitMap_Test (int i) (semTab_bm k)) (\<lambda>used.
       if used
       then bind_r (arr_get (semTab_tab k) (int i)) (\<lambda>e.
              case e of None \<Rightarrow> Inl BadPointer
              | Some sem \<Rightarrow> if name = sm_name sem then Inr (Some sem) else find_sem (Suc i) n name k)
       else find_sem (Suc i) n name k)"

definition STable_FindFreeSlot :: "'z os_scheme \<Rightarrow> (int \<times> 'z os_scheme) result" where
  "STable_FindFreeSlot k =
     bind_r (BitMap_FindFreeSlot (semTab_bm k)) (\<lambda>(id, b). Inr (id, k\<lparr>semTab_bm := b\<rparr>))"

definition STable_Create :: "string \<Rightarrow> int \<Rightarrow> 'z os_scheme \<Rightarrow> (int \<times> 'z os_scheme) result" where
  "STable_Create name init k =
     bind_r (find_sem 0 (nat MAX_SEMAPHORE) name k) (\<lambda>found.
       case found of Some _ \<Rightarrow> Inr (- 1, k)
       | None \<Rightarrow>
           bind_r (STable_FindFreeSlot k) (\<lambda>(id, k1).
             if id < 0 then Inr (- 1, k1)
             else bind_r (Sem_new name init k1) (\<lambda>(sem, k2).
                  bind_r (arr_set (semTab_tab k2) id (Some sem)) (\<lambda>tab.
                  Inr (0, k2\<lparr>semTab_tab := tab\<rparr>)))))"

definition STable_Wait :: "'z os_scheme semop \<Rightarrow> string \<Rightarrow> 'z os_scheme \<Rightarrow> (int \<times> 'z os_scheme) result" where
  "STable_Wait P name k =
     bind_r (find_sem 0 (nat MAX_SEMAPHORE) name k) (\<lambda>found.
       case found of None \<Rightarrow> Inr (- 1, k) | Some sem \<Rightarrow> bind_r (P (sm_sem sem) k) (\<lambda>k1. Inr (0, k1)))"

definition STable_Signal :: "'z os_scheme semop \<Rightarrow> string \<Rightarrow> 'z os_scheme \<Rightarrow> (int \<times> 'z os_scheme) result" where
  "STable_Signal V name k =
     bind_r (find_sem 0 (nat MAX_SEMAPHORE) name k) (\<lambda>found.
       case found of None \<Rightarrow> Inr (- 1, k) | Some sem \<Rightarrow> bind_r (V (sm_sem sem) k) (\<lambda>k1. Inr (0, k1)))"

section \<open>The map the table denotes\<close>

definition stab_ok :: "'z os_scheme \<Rightarrow> bool" where
  "stab_ok k \<longleftrightarrow> bitmap_ok (semTab_bm k) \<and> numBits (semTab_bm k) = MAX_SEMAPHORE \<and>
     length (semTab_tab k) = nat MAX_SEMAPHORE \<and>
     (\<forall>i < nat MAX_SEMAPHORE. i \<in> bits (semTab_bm k) \<longleftrightarrow> semTab_tab k ! i \<noteq> None) \<and>
     (\<forall>i < nat MAX_SEMAPHORE. \<forall>j < nat MAX_SEMAPHORE. \<forall>x y. semTab_tab k ! i = Some x \<longrightarrow> semTab_tab k ! j = Some y \<longrightarrow>
        sm_name x = sm_name y \<longrightarrow> i = j)"

definition stab :: "'z os_scheme \<Rightarrow> string \<Rightarrow> nat option" where
  "stab k name = map_option sm_sem (find (\<lambda>x. sm_name x = name) (List.map_filter id (semTab_tab k)))"

lemma find_sem_correct:
  assumes "stab_ok k" "i + n = nat MAX_SEMAPHORE"
  shows "find_sem i n name k = Inr (find (\<lambda>x. sm_name x = name) (List.map_filter id (drop i (semTab_tab k))))"
  using assms(2)
proof (induction n arbitrary: i)
  case 0
  then show ?case using assms(1) by (simp add: stab_ok_def List.map_filter_def)
next
  case (Suc n)
  then have i: "i < nat MAX_SEMAPHORE" by simp
  have sz: "i < bm_size (semTab_bm k)" "i < length (semTab_tab k)" using assms(1) i by (simp_all add: stab_ok_def)
  have t: "BitMap_Test (int i) (semTab_bm k) = Inr (semTab_tab k ! i \<noteq> None)"
    using BitMap_Test_correct [OF _ sz(1)] assms(1) i by (simp add: stab_ok_def)
  have d: "drop i (semTab_tab k) = semTab_tab k ! i # drop (Suc i) (semTab_tab k)"
    using sz(2) by (simp add: Cons_nth_drop_Suc)
  show ?case using t Suc sz(2)
    by (cases "semTab_tab k ! i") (auto simp: d List.map_filter_simps arr_get_def)
qed

lemma find_sem_stab:
  assumes "stab_ok k"
  shows "\<exists>r. find_sem 0 (nat MAX_SEMAPHORE) name k = Inr r \<and> stab k name = map_option sm_sem r"
  using find_sem_correct [OF assms, of 0 "nat MAX_SEMAPHORE"] by (simp add: stab_def)

lemma stab_iff:
  assumes "stab_ok k"
  shows "stab k name = Some s \<longleftrightarrow>
    (\<exists>i < nat MAX_SEMAPHORE. \<exists>x. semTab_tab k ! i = Some x \<and> sm_name x = name \<and> sm_sem x = s)"
proof -
  let ?xs = "List.map_filter id (semTab_tab k)"
  have len: "length (semTab_tab k) = nat MAX_SEMAPHORE" using assms by (simp add: stab_ok_def)
  have mem: "x \<in> set ?xs \<longleftrightarrow> (\<exists>i < nat MAX_SEMAPHORE. semTab_tab k ! i = Some x)" for x
    unfolding len [symmetric] by (force simp: List.map_filter_def in_set_conv_nth)
  have uniq: "x = y" if "x \<in> set ?xs" "y \<in> set ?xs" "sm_name x = sm_name y" for x y
    using that assms unfolding mem stab_ok_def by (metis option.inject)
  show ?thesis
  proof
    assume "stab k name = Some s"
    then obtain x where x: "find (\<lambda>x. sm_name x = name) ?xs = Some x" "sm_sem x = s" by (auto simp: stab_def)
    then have "x \<in> set ?xs" "sm_name x = name" by (auto simp: find_Some_iff)
    then show "\<exists>i < nat MAX_SEMAPHORE. \<exists>x. semTab_tab k ! i = Some x \<and> sm_name x = name \<and> sm_sem x = s"
      using x(2) mem by blast
  next
    assume "\<exists>i < nat MAX_SEMAPHORE. \<exists>x. semTab_tab k ! i = Some x \<and> sm_name x = name \<and> sm_sem x = s"
    then obtain x where x: "x \<in> set ?xs" "sm_name x = name" "sm_sem x = s" using mem by blast
    then obtain y where y: "find (\<lambda>x. sm_name x = name) ?xs = Some y"
      by (metis (mono_tags, lifting) find_None_iff not_None_eq)
    then have "y \<in> set ?xs" "sm_name y = name" by (auto simp: find_Some_iff)
    then have "y = x" using uniq x by blast
    then show "stab k name = Some s" using x y by (simp add: stab_def)
  qed
qed

lemma stab_None_iff:
  assumes "stab_ok k"
  shows "stab k name = None \<longleftrightarrow> (\<forall>i < nat MAX_SEMAPHORE. \<forall>x. semTab_tab k ! i = Some x \<longrightarrow> sm_name x \<noteq> name)"
  using stab_iff [OF assms, of name] by (metis not_None_eq)

lemma card_stab:
  assumes "stab_ok k"
  shows "card (dom (stab k)) = card (bits (semTab_bm k))"
proof -
  let ?f = "\<lambda>i. sm_name (the (semTab_tab k ! i))"
  have b: "i \<in> bits (semTab_bm k) \<longleftrightarrow> i < nat MAX_SEMAPHORE \<and> semTab_tab k ! i \<noteq> None" for i
    using assms bits_bound [of "semTab_bm k"] unfolding stab_ok_def by auto
  have "dom (stab k) = ?f ` bits (semTab_bm k)"
  proof (intro set_eqI iffI)
    fix n assume "n \<in> dom (stab k)"
    then obtain s where "stab k n = Some s" by blast
    then obtain i x where "i < nat MAX_SEMAPHORE" "semTab_tab k ! i = Some x" "sm_name x = n"
      unfolding stab_iff [OF assms] by blast
    then show "n \<in> ?f ` bits (semTab_bm k)" using b by force
  next
    fix n assume "n \<in> ?f ` bits (semTab_bm k)"
    then obtain i x where "i < nat MAX_SEMAPHORE" "semTab_tab k ! i = Some x" "sm_name x = n" using b by auto
    then have "stab k n = Some (sm_sem x)" unfolding stab_iff [OF assms] by blast
    then show "n \<in> dom (stab k)" by blast
  qed
  moreover have "inj_on ?f (bits (semTab_bm k))"
    using assms b unfolding inj_on_def stab_ok_def by (metis option.collapse)
  ultimately show ?thesis by (simp add: card_image)
qed

text \<open>Filling a free slot with a new name.\<close>

lemma stab_insert:
  assumes "stab_ok k" "stab k name = None" "i < nat MAX_SEMAPHORE" "semTab_tab k ! i = None"
    "semTab_tab k' = (semTab_tab k)[i := Some \<lparr>sm_name = name, sm_sem = s\<rparr>]"
    "bitmap_ok (semTab_bm k')" "numBits (semTab_bm k') = MAX_SEMAPHORE" "bits (semTab_bm k') = insert i (bits (semTab_bm k))"
  shows "stab_ok k' \<and> stab k' = (stab k)(name \<mapsto> s)"
proof -
  have len: "i < length (semTab_tab k)" using assms(1,3) by (simp add: stab_ok_def)
  have fresh: "sm_name x \<noteq> name" if "j < nat MAX_SEMAPHORE" "semTab_tab k ! j = Some x" for j x
    using assms(2) that unfolding stab_None_iff [OF assms(1)] by blast
  have nth: "semTab_tab k' ! j = (if j = i then Some \<lparr>sm_name = name, sm_sem = s\<rparr> else semTab_tab k ! j)" for j
    using len by (simp add: assms(5))
  have ok: "stab_ok k'"
    unfolding stab_ok_def
  proof (intro conjI allI impI)
    fix a b x y
    assume "a < nat MAX_SEMAPHORE" "b < nat MAX_SEMAPHORE" "semTab_tab k' ! a = Some x" "semTab_tab k' ! b = Some y"
      "sm_name x = sm_name y"
    then show "a = b" using fresh assms(1) unfolding nth stab_ok_def
      by (metis Sem.select_convs(1) option.inject)
  qed (use assms nth in \<open>auto simp: stab_ok_def\<close>)
  moreover have "stab k' n = Some u \<longleftrightarrow> ((stab k)(name \<mapsto> s)) n = Some u" for n u
  proof -
    have "stab k' n = Some u \<longleftrightarrow> n = name \<and> u = s \<or>
        (\<exists>j < nat MAX_SEMAPHORE. j \<noteq> i \<and> (\<exists>x. semTab_tab k ! j = Some x \<and> sm_name x = n \<and> sm_sem x = u))"
      unfolding stab_iff [OF ok] nth using assms(3) by auto
    also have "\<dots> \<longleftrightarrow> n = name \<and> u = s \<or> n \<noteq> name \<and> stab k n = Some u"
      unfolding stab_iff [OF assms(1)] using fresh assms(4) by (metis option.distinct(1))
    finally show ?thesis by auto
  qed
  then have "stab k' = (stab k)(name \<mapsto> s)" by (intro ext option.expand) (metis option.collapse option.distinct(1), metis option.collapse option.sel)
  with ok show ?thesis by blast
qed

section \<open>Properties\<close>

lemma FindFreeSlot_sem:
  assumes "stab_ok k"
  shows "if card (dom (stab k)) = nat MAX_SEMAPHORE then STable_FindFreeSlot k = Inr (- 1, k)
    else \<exists>i b. STable_FindFreeSlot k = Inr (int i, k\<lparr>semTab_bm := b\<rparr>) \<and> i < nat MAX_SEMAPHORE \<and>
      semTab_tab k ! i = None \<and> bitmap_ok b \<and> numBits b = MAX_SEMAPHORE \<and> bits b = insert i (bits (semTab_bm k))"
proof -
  have b: "bitmap_ok (semTab_bm k)" "bm_size (semTab_bm k) = nat MAX_SEMAPHORE" "numBits (semTab_bm k) = MAX_SEMAPHORE"
    using assms by (simp_all add: stab_ok_def)
  show ?thesis
  proof (cases "card (dom (stab k)) = nat MAX_SEMAPHORE")
    case True
    then have "bits (semTab_bm k) = {..<bm_size (semTab_bm k)}"
      using bm.full_iff_card [OF b(1)] card_stab [OF assms] b(2) by simp
    from bm.find_full [OF b(1) this] True show ?thesis
      by (simp add: STable_FindFreeSlot_def)
  next
    case False
    then have "card (bits (semTab_bm k)) < bm_size (semTab_bm k)"
      using bm.card_used_le [OF b(1)] card_stab [OF assms] b(2) by simp
    from bm.find_least [OF b(1) this] obtain n b' where
      n: "BitMap_FindFreeSlot (semTab_bm k) = Inr (int n, b')" "n < nat MAX_SEMAPHORE" "n \<notin> bits (semTab_bm k)"
        "bitmap_ok b'" "bm_size b' = bm_size (semTab_bm k)" "bits b' = insert n (bits (semTab_bm k))"
      unfolding b(2) by blast
    have "numBits b' = MAX_SEMAPHORE" using n(4,5) b(2,3) by (simp add: bitmap_ok_def MAX_SEMAPHORE_def)
    moreover have "semTab_tab k ! n = None" using n(2,3) assms by (simp add: stab_ok_def)
    ultimately show ?thesis using False n by (auto simp: STable_FindFreeSlot_def)
  qed
qed

text \<open>
  C13: The semaphore table is a map from names to semaphores with ten places.  \<^verbatim>\<open>STable::Create\<close>
  refuses a name that is taken and refuses any name when the table is full, in both cases without
  changing anything; otherwise it creates a semaphore with the given value and enters it under the
  name, and nothing else in the table changes.
\<close>

theorem STable_Create_refines:
  assumes "stab_ok k" "length name < 50"
  shows "if name \<in> dom (stab k) \<or> card (dom (stab k)) = nat MAX_SEMAPHORE
    then STable_Create name init k = Inr (- 1, k)
    else \<exists>k'. STable_Create name init k = Inr (0, k') \<and> stab_ok k' \<and> stab k' = (stab k)(name \<mapsto> sem_brk k) \<and>
      semaphores k' = (semaphores k)(sem_brk k \<mapsto> \<lparr>sem_name = name, sem_value = init, sem_queue = []\<rparr>)"
proof -
  obtain r where r: "find_sem 0 (nat MAX_SEMAPHORE) name k = Inr r" "stab k name = map_option sm_sem r"
    using find_sem_stab [OF assms(1)] by blast
  show ?thesis
  proof (cases r)
    case (Some x)
    then show ?thesis using r by (auto simp: STable_Create_def)
  next
    case None
    then have new: "stab k name = None" using r by simp
    show ?thesis
    proof (cases "card (dom (stab k)) = nat MAX_SEMAPHORE")
      case True
      then show ?thesis using FindFreeSlot_sem [OF assms(1)] r None by (simp add: STable_Create_def)
    next
      case False
      then obtain i b where i: "STable_FindFreeSlot k = Inr (int i, k\<lparr>semTab_bm := b\<rparr>)" "i < nat MAX_SEMAPHORE"
        "semTab_tab k ! i = None" "bitmap_ok b" "numBits b = MAX_SEMAPHORE" "bits b = insert i (bits (semTab_bm k))"
        using FindFreeSlot_sem [OF assms(1)] by auto
      let ?k' = "k\<lparr>semTab_bm := b, semaphores := (semaphores k)(sem_brk k \<mapsto>
          \<lparr>sem_name = name, sem_value = init, sem_queue = []\<rparr>), sem_brk := Suc (sem_brk k),
          semTab_tab := (semTab_tab k)[i := Some \<lparr>sm_name = name, sm_sem = sem_brk k\<rparr>]\<rparr>"
      have "i < length (semTab_tab k)" using assms(1) i(2) by (simp add: stab_ok_def)
      then have "STable_Create name init k = Inr (0, ?k')"
        using r(1) None i(1) assms(2) by (simp add: STable_Create_def Sem_new_def Semaphore_new_def)
      moreover have "stab_ok ?k' \<and> stab ?k' = (stab k)(name \<mapsto> sem_brk k)"
        by (rule stab_insert [OF assms(1) new i(2,3)]) (use i in simp_all)
      ultimately show ?thesis using False new by auto
    qed
  qed
qed

text \<open>
  C28: \<^verbatim>\<open>STable::Wait\<close> and \<^verbatim>\<open>STable::Signal\<close> call \<^verbatim>\<open>P\<close> and \<^verbatim>\<open>V\<close> of the semaphore that is entered under the
  name and return 0; an unknown name is answered with -1 and changes nothing.
\<close>

theorem STable_Wait_Signal:
  assumes "stab_ok k"
  shows "STable_Wait P name k =
      (case stab k name of None \<Rightarrow> Inr (- 1, k) | Some s \<Rightarrow> bind_r (P s k) (\<lambda>k1. Inr (0, k1))) \<and>
    STable_Signal V name k =
      (case stab k name of None \<Rightarrow> Inr (- 1, k) | Some s \<Rightarrow> bind_r (V s k) (\<lambda>k1. Inr (0, k1)))"
proof -
  obtain r where "find_sem 0 (nat MAX_SEMAPHORE) name k = Inr r" "stab k name = map_option sm_sem r"
    using find_sem_stab [OF assms] by blast
  then show ?thesis by (cases r) (simp_all add: STable_Wait_def STable_Signal_def)
qed

text \<open>A name of fifty or more characters overruns the array for the name.\<close>

lemma Sem_name_overrun:
  assumes "stab_ok k" "stab k name = None" "card (dom (stab k)) \<noteq> nat MAX_SEMAPHORE" "50 \<le> length name"
  shows "STable_Create name init k = Inl OutOfBounds"
proof -
  obtain r where "find_sem 0 (nat MAX_SEMAPHORE) name k = Inr r" "stab k name = map_option sm_sem r"
    using find_sem_stab [OF assms(1)] by blast
  then show ?thesis using FindFreeSlot_sem [OF assms(1)] assms(2-4) by (auto simp: STable_Create_def Sem_new_def)
qed

lemma demo_stab_ok: "stab_ok demo_os" "stab demo_os = Map.empty"
proof -
  have t: "semTab_bm demo_os = demo_bits 10 1" "semTab_tab demo_os = replicate 10 None" by (simp_all add: demo_os_simps)
  show "stab_ok demo_os" unfolding stab_ok_def t
    by (simp add: MAX_SEMAPHORE_def bitmap_ok_def demo_bits_def divRoundUp_def BitsInWord_def bits_def nth_Cons')
  show "stab demo_os = Map.empty" by (simp add: fun_eq_iff stab_def t List.map_filter_def)
qed

theorem STable_Create_refines_witness:
  "\<exists>k'. STable_Create ''m'' 1 demo_os = Inr (0, k') \<and> stab k' = [''m'' \<mapsto> sem_brk demo_os]"
  using STable_Create_refines [OF demo_stab_ok(1), of "''m''" 1] by (auto simp: demo_stab_ok(2) MAX_SEMAPHORE_def)

theorem STable_Wait_Signal_witness: "STable_Wait (\<lambda>_. Inr) ''m'' demo_os = Inr (- 1, demo_os)"
  using STable_Wait_Signal [OF demo_stab_ok(1), of "\<lambda>_. Inr" "''m''"] by (simp add: demo_stab_ok(2))

end
