(* ===== verification/Proc_Table.thy ===== *)
theory Proc_Table
  imports Addr_Space Sem_Table
begin

text \<open>
  Processes: the process control blocks of \<^verbatim>\<open>userprog/pcb.cc\<close> and the process table of
  \<^verbatim>\<open>userprog/ptable.cc\<close>.  The calls of the thread system these routines make are the argument \<open>c\<close>;
  \<open>alone_calls\<close> are the routines of \<open>Threads\<close>, with \<^verbatim>\<open>P\<close> called by the only thread.

  The destructor of a process control block finishes the thread of the process, which is the
  thread that runs the destructor.  A routine that may do so has a result of type \<open>flow\<close>: it
  returns, or its thread is gone and the state is the one in which the next thread goes on.
\<close>

section \<open>Calls of the thread system\<close>

record 's kcalls =
  cP :: "nat \<Rightarrow> 's \<Rightarrow> 's result"
  cV :: "nat \<Rightarrow> 's \<Rightarrow> 's result"
  cFork :: "nat \<Rightarrow> nat \<Rightarrow> int \<Rightarrow> 's \<Rightarrow> 's result"
  cFinish :: "nat \<Rightarrow> 's \<Rightarrow> 's result"

definition alone_calls :: "nat \<Rightarrow> ('z kern_scheme \<Rightarrow> 'z kern_scheme result) \<Rightarrow> 'z setlevel \<Rightarrow>
    'z kern_scheme kcalls" where
  "alone_calls fuel idle setl = \<lparr>cP = P_alone fuel idle setl, cV = Semaphore_V setl, cFork = Thread_Fork setl,
     cFinish = Thread_Finish fuel idle setl\<rparr>"

datatype ('a, 's) flow = Back 'a 's | Gone 's

definition bind_f :: "('a, 's) flow result \<Rightarrow> ('a \<Rightarrow> 's \<Rightarrow> ('b, 's) flow result) \<Rightarrow> ('b, 's) flow result" where
  "bind_f r f = bind_r r (\<lambda>x. case x of Back a k \<Rightarrow> f a k | Gone k \<Rightarrow> Inr (Gone k))"

lemma bind_f_simps [simp]:
  "bind_f (Inl e) f = Inl e" "bind_f (Inr (Back a k)) f = f a k" "bind_f (Inr (Gone k)) f = Inr (Gone k)"
  by (simp_all add: bind_f_def)

section \<open>Process control blocks\<close>

definition upd_pcb :: "nat \<Rightarrow> (PCB \<Rightarrow> PCB) \<Rightarrow> 'z os_scheme \<Rightarrow> 'z os_scheme result" where
  "upd_pcb p f k = bind_r (obj (pcbs k) p) (\<lambda>c. Inr (k\<lparr>pcbs := (pcbs k)(p \<mapsto> f c)\<rparr>))"

definition cur_pid :: "'z kern_scheme \<Rightarrow> int result" where
  "cur_pid k = bind_r (obj (threads k) (currentThread k)) (\<lambda>th. Inr (processID th))"

definition PCB_new :: "int \<Rightarrow> 'z os_scheme \<Rightarrow> (nat \<times> 'z os_scheme) result" where
  "PCB_new ID k =
     bind_r (if ID \<noteq> 0 then cur_pid k else Inr 0) (\<lambda>par.
       case Semaphore_new ''JoinSem'' 0 k of (js, k1) \<Rightarrow>
       case Semaphore_new ''ExitSem'' 0 k1 of (es, k2) \<Rightarrow>
       case Semaphore_new ''Mutex'' 1 k2 of (mx, k3) \<Rightarrow>
       let c = \<lparr>joinsem = js, exitsem = es, mutex = mx, exitcode = 0, pcb_thread = None, pid = ID, numwait = 0,
                parentID = par, JoinStatus = - 1\<rparr>
       in Inr (pcb_brk k3, k3\<lparr>pcbs := (pcbs k3)(pcb_brk k3 \<mapsto> c), pcb_brk := Suc (pcb_brk k3)\<rparr>))"

text \<open>The destructor; the object itself is only freed if \<^verbatim>\<open>thread->Finish()\<close> is not called.\<close>

definition PCB_delete :: "'z os_scheme kcalls \<Rightarrow> nat \<Rightarrow> 'z os_scheme \<Rightarrow> (unit, 'z os_scheme) flow result" where
  "PCB_delete c p k =
     bind_r (obj (pcbs k) p) (\<lambda>b.
     bind_r (Semaphore_delete (joinsem b) k) (\<lambda>k1.
     bind_r (Semaphore_delete (exitsem b) k1) (\<lambda>k2.
     bind_r (Semaphore_delete (mutex b) k2) (\<lambda>k3.
       case pcb_thread b of
         None \<Rightarrow> Inr (Back () (k3\<lparr>pcbs := (pcbs k3)(p := None)\<rparr>))
       | Some t \<Rightarrow>
           bind_r (Thread_FreeSpace t k3) (\<lambda>k4.
           bind_r (cFinish c t k4) (\<lambda>k5. Inr (Gone k5)))))))"

definition PCB_GetID :: "nat \<Rightarrow> 'z os_scheme \<Rightarrow> int result" where
  "PCB_GetID p k =
     bind_r (obj (pcbs k) p) (\<lambda>b.
       case pcb_thread b of None \<Rightarrow> Inl BadPointer
       | Some t \<Rightarrow> bind_r (obj (threads k) t) (\<lambda>th. Inr (processID th)))"

definition PCB_GetNumWait :: "nat \<Rightarrow> 'z os_scheme \<Rightarrow> int result" where
  "PCB_GetNumWait p k = bind_r (obj (pcbs k) p) (\<lambda>b. Inr (numwait b))"

definition PCB_GetExitCode :: "nat \<Rightarrow> 'z os_scheme \<Rightarrow> int result" where
  "PCB_GetExitCode p k = bind_r (obj (pcbs k) p) (\<lambda>b. Inr (exitcode b))"

definition PCB_SetExitCode :: "nat \<Rightarrow> int \<Rightarrow> 'z os_scheme \<Rightarrow> 'z os_scheme result" where
  "PCB_SetExitCode p ec k = upd_pcb p (\<lambda>b. b\<lparr>exitcode := ec\<rparr>) k"

definition PCB_IncNumWait :: "nat \<Rightarrow> 'z os_scheme \<Rightarrow> 'z os_scheme result" where
  "PCB_IncNumWait p k = upd_pcb p (\<lambda>b. b\<lparr>numwait := numwait b + 1\<rparr>) k"

definition PCB_DecNumWait :: "nat \<Rightarrow> 'z os_scheme \<Rightarrow> 'z os_scheme result" where
  "PCB_DecNumWait p k = upd_pcb p (\<lambda>b. if numwait b \<noteq> 0 then b\<lparr>numwait := numwait b - 1\<rparr> else b) k"

definition PCB_GetNameThread :: "nat \<Rightarrow> 'z os_scheme \<Rightarrow> string result" where
  "PCB_GetNameThread p k =
     bind_r (obj (pcbs k) p) (\<lambda>b.
       case pcb_thread b of None \<Rightarrow> Inl BadPointer
       | Some t \<Rightarrow> bind_r (obj (threads k) t) (\<lambda>th. Inr (thr_name th)))"

definition PCB_JoinWait :: "'z os_scheme kcalls \<Rightarrow> nat \<Rightarrow> 'z os_scheme \<Rightarrow> 'z os_scheme result" where
  "PCB_JoinWait c p k =
     bind_r (upd_pcb p (\<lambda>b. b\<lparr>JoinStatus := parentID b\<rparr>) k) (\<lambda>k1.
     bind_r (PCB_IncNumWait p k1) (\<lambda>k2.
     bind_r (obj (pcbs k2) p) (\<lambda>b. cP c (joinsem b) k2)))"

definition PCB_JoinRelease :: "'z os_scheme kcalls \<Rightarrow> nat \<Rightarrow> 'z os_scheme \<Rightarrow> 'z os_scheme result" where
  "PCB_JoinRelease c p k =
     bind_r (PCB_DecNumWait p k) (\<lambda>k1.
     bind_r (obj (pcbs k1) p) (\<lambda>b. cV c (joinsem b) k1))"

definition PCB_ExitWait :: "'z os_scheme kcalls \<Rightarrow> nat \<Rightarrow> 'z os_scheme \<Rightarrow> 'z os_scheme result" where
  "PCB_ExitWait c p k = bind_r (obj (pcbs k) p) (\<lambda>b. cP c (exitsem b) k)"

definition PCB_ExitRelease :: "'z os_scheme kcalls \<Rightarrow> nat \<Rightarrow> 'z os_scheme \<Rightarrow> 'z os_scheme result" where
  "PCB_ExitRelease c p k = bind_r (obj (pcbs k) p) (\<lambda>b. cV c (exitsem b) k)"

text \<open>The functions a new thread may be started in, by number.\<close>

definition fun_MyStartProcess :: nat where "fun_MyStartProcess = 1"

text \<open>\<^verbatim>\<open>new\<close> does not return the null pointer, so the first branch of \<^verbatim>\<open>PCB::Exec\<close> is never taken.\<close>

definition PCB_Exec :: "'z os_scheme kcalls \<Rightarrow> nat \<Rightarrow> string \<Rightarrow> int \<Rightarrow> 'z os_scheme \<Rightarrow>
    (int \<times> 'z os_scheme) result" where
  "PCB_Exec c p filename pID k =
     bind_r (obj (pcbs k) p) (\<lambda>b.
     bind_r (cP c (mutex b) k) (\<lambda>k1.
       case Thread_new filename k1 of (t, k2) \<Rightarrow>
       bind_r (upd_pcb p (\<lambda>b. b\<lparr>pcb_thread := Some t\<rparr>) k2) (\<lambda>k3.
       bind_r (upd_thread t (\<lambda>th. th\<lparr>processID := pID\<rparr>) k3) (\<lambda>k4.
       bind_r (cur_pid k4) (\<lambda>par.
       bind_r (upd_pcb p (\<lambda>b. b\<lparr>parentID := par\<rparr>) k4) (\<lambda>k5.
       bind_r (PCB_GetID p k5) (\<lambda>id.
       bind_r (cFork c t fun_MyStartProcess id k5) (\<lambda>k6.
       bind_r (obj (pcbs k6) p) (\<lambda>b.
       bind_r (cV c (mutex b) k6) (\<lambda>k7. Inr (pID, k7)))))))))))"

section \<open>The process table\<close>

text \<open>\<^verbatim>\<open>pcb[i]->\<dots>\<close>: the null pointer and an index outside the array are errors.\<close>

definition pcb_at :: "int \<Rightarrow> 'z os_scheme \<Rightarrow> nat result" where
  "pcb_at i k = bind_r (arr_get (pTab_pcb k) i) (\<lambda>e. case e of None \<Rightarrow> Inl BadPointer | Some p \<Rightarrow> Inr p)"

definition set_pcb :: "int \<Rightarrow> nat option \<Rightarrow> 'z os_scheme \<Rightarrow> 'z os_scheme result" where
  "set_pcb i p k = bind_r (arr_set (pTab_pcb k) i p) (\<lambda>tab. Inr (k\<lparr>pTab_pcb := tab\<rparr>))"

definition PTable_new :: "32 word list \<Rightarrow> int \<Rightarrow> 'z os_scheme \<Rightarrow> 'z os_scheme result" where
  "PTable_new raw sz k =
     (if sz < 0 then Inr k
      else
        bind_r (BitMap_new sz raw) (\<lambda>b0.
          case Semaphore_new ''bmsem'' 1 k of (s, k1) \<Rightarrow>
          bind_r (BitMap_Mark 0 b0) (\<lambda>b1.
          bind_r (PCB_new 0 (k1\<lparr>pTab_psize := sz, pTab_bm := b1, pTab_bmsem := s,
                                pTab_pcb := replicate (nat MAXPROCESS) None\<rparr>)) (\<lambda>(p, k2).
          bind_r (set_pcb 0 (Some p) k2) (\<lambda>k3.
          upd_pcb p (\<lambda>b. b\<lparr>parentID := - 1\<rparr>) k3)))))"

fun delete_pcbs :: "'z os_scheme kcalls \<Rightarrow> nat \<Rightarrow> nat \<Rightarrow> 'z os_scheme \<Rightarrow> (unit, 'z os_scheme) flow result" where
  "delete_pcbs c i 0 k = Inr (Back () k)"
| "delete_pcbs c i (Suc n) k =
     bind_r (arr_get (pTab_pcb k) (int i)) (\<lambda>e.
       bind_f (case e of None \<Rightarrow> Inr (Back () k) | Some p \<Rightarrow> PCB_delete c p k) (\<lambda>_. delete_pcbs c (Suc i) n))"

text \<open>The destructor; the bitmap is an object of its own and goes away with the table.\<close>

definition PTable_delete :: "'z os_scheme kcalls \<Rightarrow> 'z os_scheme \<Rightarrow> (unit, 'z os_scheme) flow result" where
  "PTable_delete c k =
     bind_r (Semaphore_delete (pTab_bmsem k) k) (\<lambda>k1. delete_pcbs c 0 (nat (pTab_psize k1)) k1)"

definition PTable_GetFreeSlot :: "'z os_scheme \<Rightarrow> (int \<times> 'z os_scheme) result" where
  "PTable_GetFreeSlot k = bind_r (BitMap_FindFreeSlot (pTab_bm k)) (\<lambda>(i, b). Inr (i, k\<lparr>pTab_bm := b\<rparr>))"

definition PTable_IsExist :: "int \<Rightarrow> 'z os_scheme \<Rightarrow> bool result" where
  "PTable_IsExist pID k = (if pID < 0 \<or> pID > 9 then Inr False else BitMap_Test pID (pTab_bm k))"

definition PTable_Remove :: "'z os_scheme kcalls \<Rightarrow> int \<Rightarrow> 'z os_scheme \<Rightarrow> (unit, 'z os_scheme) flow result" where
  "PTable_Remove c pID k =
     (if pID < 0 \<or> pID > 9 then Inr (Back () k)
      else bind_r (BitMap_Test pID (pTab_bm k)) (\<lambda>used.
        if used
        then bind_r (BitMap_Clear pID (pTab_bm k)) (\<lambda>b.
             bind_r (arr_get (pTab_pcb k) pID) (\<lambda>e.
               case e of None \<Rightarrow> Inr (Back () (k\<lparr>pTab_bm := b\<rparr>)) | Some p \<Rightarrow> PCB_delete c p (k\<lparr>pTab_bm := b\<rparr>)))
        else Inr (Back () k)))"

text \<open>Outside the \<^verbatim>\<open>if\<close> the function ends without a return value.\<close>

definition PTable_GetName :: "int \<Rightarrow> 'z os_scheme \<Rightarrow> string result" where
  "PTable_GetName pID k =
     bind_r (if pID \<ge> 0 \<and> pID < pTab_psize k then BitMap_Test pID (pTab_bm k) else Inr False) (\<lambda>used.
       if used then bind_r (pcb_at pID k) (\<lambda>p. PCB_GetNameThread p k) else Inl BadPointer)"

text \<open>The checks of \<^verbatim>\<open>PTable::ExecUpdate\<close> before a slot is taken.\<close>

definition can_exec :: "string option \<Rightarrow> 'z os_scheme \<Rightarrow> (bool \<times> 'z os_scheme) result" where
  "can_exec filename k =
     (case filename of None \<Rightarrow> Inr (False, k)
      | Some name \<Rightarrow>
          bind_r (obj (threads k) (currentThread k)) (\<lambda>th.
          if name = thr_name th then Inr (False, k)
          else bind_r (FileSystem_Open name k) (\<lambda>(executable, k1).
            case executable of None \<Rightarrow> Inr (False, k1)
            | Some f \<Rightarrow> bind_r (OpenFile_delete f k1) (\<lambda>k2. Inr (True, k2)))))"

text \<open>Its rest: take a slot, make the control block and start the process.\<close>

definition exec_in_slot :: "'z os_scheme kcalls \<Rightarrow> string \<Rightarrow> 'z os_scheme \<Rightarrow> (int \<times> 'z os_scheme) result" where
  "exec_in_slot c filename k =
     bind_r (PTable_GetFreeSlot k) (\<lambda>(ID, k1).
       if ID < 0 then Inr (- 1, k1)
       else bind_r (PCB_new ID k1) (\<lambda>(p, k2).
            bind_r (set_pcb ID (Some p) k2) (\<lambda>k3.
            bind_r (BitMap_Mark ID (pTab_bm k3)) (\<lambda>b.
            bind_r (cur_pid k3) (\<lambda>par.
            bind_r (upd_pcb p (\<lambda>x. x\<lparr>parentID := par\<rparr>) (k3\<lparr>pTab_bm := b\<rparr>)) (\<lambda>k4.
            PCB_Exec c p filename ID k4))))))"

text \<open>Every way out of \<^verbatim>\<open>PTable::ExecUpdate\<close> releases \<^verbatim>\<open>bmsem\<close>.\<close>

definition PTable_ExecUpdate :: "'z os_scheme kcalls \<Rightarrow> string option \<Rightarrow> 'z os_scheme \<Rightarrow>
    (int \<times> 'z os_scheme) result" where
  "PTable_ExecUpdate c filename k =
     bind_r (cP c (pTab_bmsem k) k) (\<lambda>k1.
     bind_r (can_exec filename k1) (\<lambda>(go, k2).
     bind_r (if go then exec_in_slot c (the filename) k2 else Inr (- 1, k2)) (\<lambda>(pID, k3).
     bind_r (cV c (pTab_bmsem k3) k3) (\<lambda>k4. Inr (pID, k4)))))"

definition PTable_ExitUpdate :: "'z os_scheme kcalls \<Rightarrow> int \<Rightarrow> 'z os_scheme \<Rightarrow> (int, 'z os_scheme) flow result" where
  "PTable_ExitUpdate c ec k =
     bind_r (cur_pid k) (\<lambda>pID.
       if pID = 0 then bind_r (Interrupt_Halt k) (\<lambda>k1. Inr (Back 0 k1))
       else bind_r (PTable_IsExist pID k) (\<lambda>exists.
         if \<not> exists then Inr (Back (- 1) k)
         else
           bind_r (pcb_at pID k) (\<lambda>p.
           bind_r (PCB_SetExitCode p ec k) (\<lambda>k1.
           bind_r (obj (pcbs k1) p) (\<lambda>b.
           bind_r (pcb_at (parentID b) k1) (\<lambda>pp.
           bind_r (PCB_DecNumWait pp k1) (\<lambda>k2.
           bind_r (obj (pcbs k2) p) (\<lambda>b2.
           bind_r (if JoinStatus b2 \<noteq> - 1
                   then bind_r (PCB_JoinRelease c p k2) (PCB_ExitWait c p) else Inr k2) (\<lambda>k3.
           bind_f (PTable_Remove c pID k3) (\<lambda>_ k4. Inr (Back ec k4)))))))))))"

definition PTable_JoinUpdate :: "'z os_scheme kcalls \<Rightarrow> int \<Rightarrow> 'z os_scheme \<Rightarrow> (int \<times> 'z os_scheme) result" where
  "PTable_JoinUpdate c pID k =
     (if pID < 0 \<or> pID \<ge> pTab_psize k then Inr (- 1, k)
      else bind_r (arr_get (pTab_pcb k) pID) (\<lambda>e.
        case e of None \<Rightarrow> Inr (- 1, k)
        | Some p \<Rightarrow>
            bind_r (cur_pid k) (\<lambda>me.
            bind_r (obj (pcbs k) p) (\<lambda>b.
            if me \<noteq> parentID b then Inr (- 1, k)
            else
              bind_r (PCB_JoinWait c p k) (\<lambda>k1.
              bind_r (pcb_at pID k1) (\<lambda>p1.
              bind_r (PCB_GetExitCode p1 k1) (\<lambda>ec.
              if ec \<noteq> 0 then Inr (- 1, k1)
              else bind_r (PCB_ExitRelease c p1 k1) (\<lambda>k2. Inr (ec, k2)))))))))"

end
