(* ===== verification/Proc_Correct.thy ===== *)
theory Proc_Correct
  imports Proc_Table
begin

text \<open>
  The process table: what \<^verbatim>\<open>PTable::ExecUpdate\<close>, \<^verbatim>\<open>PTable::ExitUpdate\<close> and \<^verbatim>\<open>PTable::JoinUpdate\<close> do to the
  processes of the kernel.
\<close>

section \<open>Calls of the thread system that return at once\<close>

abbreviation quick :: "nat \<Rightarrow> ('z kern_scheme \<Rightarrow> 'z kern_scheme result) \<Rightarrow> 'z kern_scheme kcalls" where
  "quick fuel idle \<equiv> alone_calls fuel idle plain_SetLevel"

lemma cP_quick:
  assumes "semaphores k s = Some sm" "sem_value sm \<noteq> 0" "\<not> inHandler k"
  shows "cP (quick fuel idle) s k = Inr (k\<lparr>semaphores := (semaphores k)(s \<mapsto> sm\<lparr>sem_value := sem_value sm - 1\<rparr>)\<rparr>)"
  using P_alone_available [OF assms(1,2)] assms(3) by (simp add: alone_calls_def)

lemma cV_quick:
  assumes "semaphores k s = Some sm" "sem_queue sm = []" "\<not> inHandler k"
  shows "cV (quick fuel idle) s k = Inr (k\<lparr>semaphores := (semaphores k)(s \<mapsto> sm\<lparr>sem_value := sem_value sm + 1\<rparr>)\<rparr>)"
proof -
  have l: "k\<lparr>level := level k\<rparr> = k" by simp
  have q: "sm\<lparr>sem_queue := [], sem_value := v\<rparr> = sm\<lparr>sem_value := v\<rparr>" for v using assms(2) by (cases sm) simp
  from assms show ?thesis
    by (simp add: alone_calls_def Semaphore_V_def plain_SetLevel_def seq_remove_def upd_sem_def ASSERT_def l q)
qed

lemma cFork_quick:
  assumes "threads k t = Some th" "\<not> inHandler k"
  shows "cFork (quick fuel idle) t f a k =
    Inr (k\<lparr>threads := (threads k)(t \<mapsto> th\<lparr>thr_stack := Some STACK_FENCEPOST, machineState := Some (AtRoot f a),
        thr_status := READY\<rparr>), readyList := readyList k @ [(0, Some t)]\<rparr>)"
proof -
  have "k\<lparr>level := level k\<rparr> = k" by simp
  with assms show ?thesis
    by (simp add: alone_calls_def Thread_Fork_def Thread_StackAllocate_def upd_thread_def plain_SetLevel_def
        Scheduler_ReadyToRun_def seq_append_def ASSERT_def)
qed

definition new_process_thread :: "string \<Rightarrow> int \<Rightarrow> Thread" where
  "new_process_thread name i = \<lparr>thr_name = name, thr_stack = Some STACK_FENCEPOST,
     machineState = Some (AtRoot fun_MyStartProcess i), thr_status = READY, processID = i, exitStatus = 0,
     userRegisters = (\<lambda>_. 0), thr_space = None\<rparr>"

text \<open>What starting a process does not touch.\<close>

definition same_rest :: "'z os_scheme \<Rightarrow> 'z os_scheme \<Rightarrow> bool" where
  "same_rest k k' \<longleftrightarrow> currentThread k' = currentThread k \<and> inHandler k' = inHandler k \<and> level k' = level k \<and>
     pTab_bmsem k' = pTab_bmsem k \<and> pTab_psize k' = pTab_psize k \<and> gPhysPageBitMap k' = gPhysPageBitMap k \<and>
     spaces k' = spaces k \<and> pageTables k' = pageTables k \<and> semTab_bm k' = semTab_bm k \<and> semTab_tab k' = semTab_tab k \<and>
     file_table k' = file_table k \<and> addrLock k' = addrLock k"

lemma same_rest_refl [simp]: "same_rest k k"
  by (simp add: same_rest_def)

lemma same_rest_trans: "same_rest k k1 \<Longrightarrow> same_rest k1 k2 \<Longrightarrow> same_rest k k2"
  by (simp add: same_rest_def)

lemma PCB_Exec_ok:
  assumes "pcbs k p = Some b" "semaphores k (mutex b) = Some mx" "sem_value mx = 1" "sem_queue mx = []"
    "\<not> inHandler k" "threads k (currentThread k) = Some me" "currentThread k \<noteq> thread_brk k"
  shows "\<exists>k'. PCB_Exec (quick fuel idle) p name i k = Inr (i, k') \<and>
    threads k' = (threads k)(thread_brk k \<mapsto> new_process_thread name i) \<and>
    readyList k' = readyList k @ [(0, Some (thread_brk k))] \<and> semaphores k' = semaphores k \<and>
    pcbs k' = (pcbs k)(p \<mapsto> b\<lparr>pcb_thread := Some (thread_brk k), parentID := processID me\<rparr>) \<and>
    pTab_bm k' = pTab_bm k \<and> pTab_pcb k' = pTab_pcb k \<and> pcb_brk k' = pcb_brk k \<and> same_rest k k'"
proof -
  let ?t = "thread_brk k" and ?c = "quick fuel idle"
  let ?mx = "mx\<lparr>sem_value := 0\<rparr>"
  let ?k1 = "k\<lparr>semaphores := (semaphores k)(mutex b \<mapsto> ?mx)\<rparr>"
  let ?th = "\<lparr>thr_name = name, thr_stack = None, machineState = None, thr_status = JUST_CREATED, processID = i,
    exitStatus = 0, userRegisters = (\<lambda>_. 0), thr_space = None\<rparr>"
  let ?b = "b\<lparr>pcb_thread := Some ?t, parentID := processID me\<rparr>"
  obtain k5 where k5: "k5 = k\<lparr>semaphores := (semaphores k)(mutex b \<mapsto> ?mx), thread_brk := Suc ?t,
    threads := (threads k)(?t \<mapsto> ?th), pcbs := (pcbs k)(p \<mapsto> ?b)\<rparr>" by blast
  obtain k6 where k6: "k6 = k5\<lparr>threads := (threads k)(?t \<mapsto> new_process_thread name i),
    readyList := readyList k @ [(0, Some ?t)]\<rparr>" by blast
  obtain k7 where k7: "k7 = k6\<lparr>semaphores := semaphores k\<rparr>" by blast
  have P: "cP ?c (mutex b) k = Inr ?k1" using cP_quick [OF assms(2) _ assms(5), of fuel idle] assms(3) by simp
  have t5: "threads k5 = (threads k)(?t \<mapsto> ?th)" "inHandler k5 = inHandler k" "readyList k5 = readyList k"
    by (simp_all add: k5)
  have F: "cFork ?c ?t fun_MyStartProcess i k5 = Inr k6"
    using cFork_quick [of k5 ?t ?th fuel idle fun_MyStartProcess i] assms(5)
    by (simp add: t5 k6 new_process_thread_def)
  have "mx\<lparr>sem_value := 1\<rparr> = mx" using assms(3) by simp
  then have m: "(semaphores k)(mutex b \<mapsto> mx\<lparr>sem_value := 1\<rparr>) = semaphores k"
    using assms(2) by (simp add: fun_upd_idem)
  have s6: "semaphores k6 = (semaphores k)(mutex b \<mapsto> ?mx)" "inHandler k6 = inHandler k" "pcbs k6 = (pcbs k)(p \<mapsto> ?b)"
    by (simp_all add: k6 k5)
  have V: "cV ?c (mutex b) k6 = Inr k7"
    using cV_quick [of k6 "mutex b" ?mx fuel idle] assms(4,5) by (simp add: s6 m k7)
  have "PCB_Exec ?c p name i k = Inr (i, k7)" unfolding PCB_Exec_def
    using assms(1,6,7) F by (simp add: P V s6 k5 [symmetric] Thread_new_def upd_pcb_def upd_thread_def cur_pid_def PCB_GetID_def)
  then show ?thesis by (simp add: k7 k6 k5 same_rest_def)
qed

section \<open>The table of processes\<close>

text \<open>A slot in use holds the control block of the process with that number.\<close>

definition ptab_ok :: "'z os_scheme \<Rightarrow> bool" where
  "ptab_ok k \<longleftrightarrow> bitmap_ok (pTab_bm k) \<and> numBits (pTab_bm k) = MAXPROCESS \<and> pTab_psize k = MAXPROCESS \<and>
     length (pTab_pcb k) = nat MAXPROCESS \<and>
     (\<forall>i \<in> bits (pTab_bm k). \<exists>p b. pTab_pcb k ! i = Some p \<and> p < pcb_brk k \<and> pcbs k p = Some b \<and> pid b = int i)"

text \<open>The processes, each with the number of its parent.\<close>

definition procs :: "'z os_scheme \<Rightarrow> nat \<Rightarrow> int option" where
  "procs k i = (if i \<in> bits (pTab_bm k) then map_option parentID (Option.bind (pTab_pcb k ! i) (pcbs k)) else None)"

lemma dom_procs: "ptab_ok k \<Longrightarrow> dom (procs k) = bits (pTab_bm k)"
  by (auto simp: ptab_ok_def procs_def dom_def split: if_split_asm)

lemma procs_frame: "pTab_bm k' = pTab_bm k \<Longrightarrow> pTab_pcb k' = pTab_pcb k \<Longrightarrow> pcbs k' = pcbs k \<Longrightarrow> procs k' = procs k"
  by (rule ext) (simp add: procs_def)

text \<open>The host lets the kernel open the file.\<close>

definition openable :: "string \<Rightarrow> 'z os_scheme \<Rightarrow> bool" where
  "openable name k \<longleftrightarrow> h_dir (host k) name \<noteq> None \<and> \<not> h_denied (host k) name"

text \<open>Only the host, its files and the lock of the table differ.\<close>

definition same_procs :: "'z os_scheme \<Rightarrow> 'z os_scheme \<Rightarrow> bool" where
  "same_procs k k' \<longleftrightarrow> threads k' = threads k \<and> thread_brk k' = thread_brk k \<and> readyList k' = readyList k \<and>
     semaphores k' = semaphores k \<and> sem_brk k' = sem_brk k \<and> pcbs k' = pcbs k \<and> pcb_brk k' = pcb_brk k \<and>
     pTab_bm k' = pTab_bm k \<and> pTab_pcb k' = pTab_pcb k \<and> same_rest k k'"

lemma same_procs_ptab: "same_procs k k' \<Longrightarrow> ptab_ok k' = ptab_ok k \<and> procs k' = procs k"
  using procs_frame [of k' k] by (simp add: same_procs_def same_rest_def ptab_ok_def)

lemma open_close:
  assumes "openable name k"
  shows "\<exists>k1 k2. FileSystem_Open name k = Inr (Some (file_brk k), k1) \<and> OpenFile_delete (file_brk k) k1 = Inr k2 \<and> same_procs k k2"
proof -
  obtain ino where ino: "h_dir (host k) name = Some ino" "\<not> h_denied (host k) name" using assms by (auto simp: openable_def)
  let ?fd = "free_fd (h_fds (host k))"
  obtain h1 where h1: "h1 = set_fd ?fd (Some (ino, 0)) (host k)" by blast
  have "?fd < length (h_fds h1)" "h_fds h1 ! ?fd = Some (ino, 0)"
    using free_fd_le [of "h_fds (host k)"] by (auto simp: h1 set_fd_def nth_append)
  then have c: "Close (int ?fd) h1 = Inr (set_fd ?fd None h1)" by (simp add: Close_def fd_entry_def)
  show ?thesis using ino h1 [symmetric] c
    by (simp add: FileSystem_Open_def OpenForReadWrite_def OpenFile_new_def OpenFile_delete_def same_procs_def same_rest_def)
qed

lemma can_exec_ok:
  assumes "threads k (currentThread k) = Some me"
  shows "\<exists>k'. can_exec (Some name) k = Inr (name \<noteq> thr_name me \<and> openable name k, k') \<and> same_procs k k'"
proof (cases "openable name k")
  case True
  from open_close [OF this] obtain k1 k2 where "FileSystem_Open name k = Inr (Some (file_brk k), k1)"
    "OpenFile_delete (file_brk k) k1 = Inr k2" "same_procs k k2" by blast
  then show ?thesis using assms True by (auto simp: can_exec_def same_procs_def)
next
  case False
  then have "FileSystem_Open name k = Inr (None, k\<lparr>host := host k\<rparr>)"
    by (auto simp: openable_def FileSystem_Open_def OpenForReadWrite_def split: option.split)
  then show ?thesis using assms False by (auto simp: can_exec_def same_procs_def)
qed

lemma exec_in_slot_ok:
  fixes k :: "'z os_scheme"
  assumes "ptab_ok k" "\<not> inHandler k" "threads k (currentThread k) = Some me" "currentThread k < thread_brk k"
    "n < nat MAXPROCESS" "n \<notin> bits (pTab_bm k)" "BitMap_FindFreeSlot (pTab_bm k) = Inr (int n, b)"
    "bitmap_ok b" "numBits b = MAXPROCESS" "bits b = insert n (bits (pTab_bm k))" "p0 < sem_brk k"
  shows "\<exists>k'. exec_in_slot (quick fuel idle) name k = Inr (int n, k') \<and> ptab_ok k' \<and> procs k' = (procs k)(n \<mapsto> processID me) \<and>
    threads k' = (threads k)(thread_brk k \<mapsto> new_process_thread name (int n)) \<and>
    readyList k' = readyList k @ [(0, Some (thread_brk k))] \<and> semaphores k' p0 = semaphores k p0 \<and> same_rest k k'"
proof -
  let ?p = "pcb_brk k" and ?s = "sem_brk k"
  obtain b' where b': "BitMap_Mark (int n) b = Inr b'" "bitmap_ok b'" "numBits b' = MAXPROCESS" "bits b' = bits b"
    using BitMap_Mark_correct [OF assms(8), of n] assms(5,9,10) by auto
  obtain c where c: "c = \<lparr>joinsem = ?s, exitsem = Suc ?s, mutex = Suc (Suc ?s), exitcode = 0, pcb_thread = None, pid = int n,
    numwait = 0, parentID = processID me, JoinStatus = - 1\<rparr>" by blast
  let ?sem = "\<lambda>nm v. Some \<lparr>sem_name = nm, sem_value = v, sem_queue = []\<rparr>"
  obtain k4 where k4: "k4 = k\<lparr>semaphores := (semaphores k)(?s := ?sem ''JoinSem'' 0, Suc ?s := ?sem ''ExitSem'' 0,
    Suc (Suc ?s) := ?sem ''Mutex'' 1), sem_brk := Suc (Suc (Suc ?s)), pcb_brk := Suc ?p,
    pTab_pcb := (pTab_pcb k)[n := Some ?p], pTab_bm := b', pcbs := (pcbs k)(?p \<mapsto> c)\<rparr>" by blast
  have f4: "pcbs k4 ?p = Some c" "semaphores k4 (mutex c) = ?sem ''Mutex'' 1" "inHandler k4 = inHandler k"
    "threads k4 = threads k" "currentThread k4 = currentThread k" "thread_brk k4 = thread_brk k" "same_rest k k4"
    "readyList k4 = readyList k" "semaphores k4 p0 = semaphores k p0" "pTab_bm k4 = b'" "pTab_pcb k4 = (pTab_pcb k)[n := Some ?p]"
    "pcb_brk k4 = Suc ?p" "pcbs k4 = (pcbs k)(?p \<mapsto> c)"
    using assms(11) by (simp_all add: k4 c same_rest_def)
  have "n < length (pTab_pcb k)" using assms(1,5) by (simp add: ptab_ok_def)
  then have "exec_in_slot (quick fuel idle) name k = PCB_Exec (quick fuel idle) ?p name (int n) k4"
    using assms(3,7) b'(1) unfolding exec_in_slot_def PTable_GetFreeSlot_def PCB_new_def cur_pid_def
    by (cases "n = 0") (simp_all add: Semaphore_new_def set_pcb_def upd_pcb_def k4 c ptab_ok_def Let_def arr_set_def)
  moreover obtain k' where k': "PCB_Exec (quick fuel idle) ?p name (int n) k4 = Inr (int n, k')"
    "threads k' = (threads k)(thread_brk k \<mapsto> new_process_thread name (int n))"
    "readyList k' = readyList k @ [(0, Some (thread_brk k))]" "semaphores k' = semaphores k4"
    "pcbs k' = (pcbs k)(?p \<mapsto> c\<lparr>pcb_thread := Some (thread_brk k), parentID := processID me\<rparr>)"
    "pTab_bm k' = b'" "pTab_pcb k' = (pTab_pcb k)[n := Some ?p]" "pcb_brk k' = Suc ?p" "same_rest k4 k'"
    using PCB_Exec_ok [OF f4(1,2), of me fuel idle name "int n"] f4 assms(2-4) by auto
  moreover have "procs k' = (procs k)(n \<mapsto> processID me)"
  proof
    fix i
    show "procs k' i = ((procs k)(n \<mapsto> processID me)) i"
    proof (cases "i = n")
      case True
      then show ?thesis using assms(1,5,10) b'(4) k'(5-7) by (simp add: procs_def ptab_ok_def)
    next
      case False
      then show ?thesis using assms(1,10) b'(4) k'(5-7) by (auto simp: procs_def ptab_ok_def)
    qed
  qed
  moreover have "ptab_ok k'" unfolding ptab_ok_def
  proof (intro conjI ballI)
    fix i assume i: "i \<in> bits (pTab_bm k')"
    show "\<exists>p b. pTab_pcb k' ! i = Some p \<and> p < pcb_brk k' \<and> pcbs k' p = Some b \<and> pid b = int i"
    proof (cases "i = n")
      case True
      then show ?thesis using \<open>n < length (pTab_pcb k)\<close> by (simp add: k' c)
    next
      case False
      then have "i \<in> bits (pTab_bm k)" using i b'(4) assms(10) k'(6) by simp
      then obtain p x where "pTab_pcb k ! i = Some p" "p < ?p" "pcbs k p = Some x" "pid x = int i"
        using assms(1) by (auto simp: ptab_ok_def)
      then show ?thesis using False by (intro exI [of _ p] exI [of _ x]) (simp add: k')
    qed
  qed (use assms(1) b' k'(6,7,9) f4(7) in \<open>simp_all add: ptab_ok_def same_rest_def\<close>)
  ultimately show ?thesis using f4(7,9) same_rest_trans by auto
qed

definition exec_post :: "string \<Rightarrow> Thread \<Rightarrow> bool \<Rightarrow> 'z os_scheme \<Rightarrow> int \<Rightarrow> 'z os_scheme \<Rightarrow> bool" where
  "exec_post name me go k r k' \<longleftrightarrow>
     (if go \<and> card (dom (procs k)) < nat MAXPROCESS
      then \<exists>n. r = int n \<and> n \<notin> dom (procs k) \<and> {..<n} \<subseteq> dom (procs k) \<and> procs k' = (procs k)(n \<mapsto> processID me) \<and>
        threads k' = (threads k)(thread_brk k \<mapsto> new_process_thread name r) \<and>
        readyList k' = readyList k @ [(0, Some (thread_brk k))]
      else r = - 1 \<and> procs k' = procs k \<and> threads k' = threads k \<and> readyList k' = readyList k)"

lemma exec_body_ok:
  fixes k :: "'z os_scheme"
  assumes "ptab_ok k" "\<not> inHandler k" "threads k (currentThread k) = Some me" "currentThread k < thread_brk k" "s < sem_brk k"
  shows "\<exists>r k'. (if go then exec_in_slot (quick fuel idle) name k else Inr (- 1, k)) = Inr (r, k') \<and> ptab_ok k' \<and>
    same_rest k k' \<and> semaphores k' s = semaphores k s \<and> exec_post name me go k r k'"
proof (cases "go \<and> card (dom (procs k)) < nat MAXPROCESS")
  case True
  then obtain n b where nb: "BitMap_FindFreeSlot (pTab_bm k) = Inr (int n, b)" "n < nat MAXPROCESS" "n \<notin> bits (pTab_bm k)"
    "{..<n} \<subseteq> bits (pTab_bm k)" "bitmap_ok b" "bm_size b = bm_size (pTab_bm k)" "bits b = insert n (bits (pTab_bm k))"
    using bm.find_least [of "pTab_bm k"] assms(1) dom_procs [OF assms(1)] by (auto simp: ptab_ok_def)
  then have "numBits b = MAXPROCESS" using assms(1) by (auto simp: ptab_ok_def bitmap_ok_def MAXPROCESS_def)
  with exec_in_slot_ok [OF assms(1-4) nb(2,3,1,5) _ nb(7) assms(5), of fuel idle name] obtain k' where
    "exec_in_slot (quick fuel idle) name k = Inr (int n, k')" "ptab_ok k'" "procs k' = (procs k)(n \<mapsto> processID me)"
    "threads k' = (threads k)(thread_brk k \<mapsto> new_process_thread name (int n))"
    "readyList k' = readyList k @ [(0, Some (thread_brk k))]" "semaphores k' s = semaphores k s" "same_rest k k'" by auto
  then show ?thesis using True nb(3,4) dom_procs [OF assms(1)] by (simp add: exec_post_def)
next
  case False
  have "BitMap_FindFreeSlot (pTab_bm k) = Inr (- 1, pTab_bm k)" if go
    using that False bm.find_full [of "pTab_bm k"] bm.full_iff_card [of "pTab_bm k"] bm.card_used_le [of "pTab_bm k"] assms(1)
    by (auto simp: ptab_ok_def dom_procs [OF assms(1)])
  then have "(if go then exec_in_slot (quick fuel idle) name k else Inr (- 1, k)) = Inr (- 1, k)"
    by (auto simp: exec_in_slot_def PTable_GetFreeSlot_def)
  then show ?thesis using False assms(1) by (auto simp: exec_post_def)
qed

lemma unlock_ok:
  assumes "semaphores k (pTab_bmsem k) = Some (sm\<lparr>sem_value := sem_value sm - 1\<rparr>)" "sem_queue sm = []" "\<not> inHandler k"
  shows "\<exists>k'. cV (quick fuel idle) (pTab_bmsem k) k = Inr k' \<and> ptab_ok k' = ptab_ok k \<and> procs k' = procs k \<and>
    threads k' = threads k \<and> readyList k' = readyList k \<and> same_rest k k' \<and> semaphores k' (pTab_bmsem k) = Some sm"
proof -
  have "cV (quick fuel idle) (pTab_bmsem k) k = Inr (k\<lparr>semaphores := (semaphores k)(pTab_bmsem k \<mapsto> sm)\<rparr>)"
    using cV_quick [OF assms(1) _ assms(3), of fuel idle] assms(2) by simp
  then show ?thesis using procs_frame [of "k\<lparr>semaphores := (semaphores k)(pTab_bmsem k \<mapsto> sm)\<rparr>" k]
    by (intro exI [of _ "k\<lparr>semaphores := (semaphores k)(pTab_bmsem k \<mapsto> sm)\<rparr>"]) (simp add: same_rest_def ptab_ok_def)
qed

section \<open>The end of a process\<close>

lemma SaveUserState_ok:
  assumes "threads k t = Some th"
  shows "\<exists>g. Thread_SaveUserState t k = Inr (k\<lparr>threads := (threads k)(t \<mapsto> th\<lparr>userRegisters := g\<rparr>)\<rparr>)"
proof -
  let ?I = "\<lambda>j s. \<exists>g. s = k\<lparr>threads := (threads k)(t \<mapsto> th\<lparr>userRegisters := g\<rparr>)\<rparr>"
  have "k\<lparr>threads := (threads k)(t \<mapsto> th\<lparr>userRegisters := userRegisters th\<rparr>)\<rparr> = k"
    using assms by (simp add: fun_upd_idem)
  then have "?I 0 k" by metis
  then have "\<exists>s. Thread_SaveUserState t k = Inr s \<and> ?I (0 + NumTotalRegs) s" unfolding Thread_SaveUserState_def
  proof (rule for_loop_rule)
    fix j s assume "j < 0 + NumTotalRegs" "?I j s"
    then obtain g where s: "s = k\<lparr>threads := (threads k)(t \<mapsto> th\<lparr>userRegisters := g\<rparr>)\<rparr>" by blast
    show "\<exists>s'. bind_r (Machine_ReadRegister (int j) s) (\<lambda>v.
        upd_thread t (\<lambda>th. th\<lparr>userRegisters := (userRegisters th)(j := v)\<rparr>) s) = Inr s' \<and> ?I (Suc j) s'"
      using \<open>j < 0 + NumTotalRegs\<close> unfolding s
      by (intro exI conjI [OF _ exI [of _ "g(j := registers k j)"]])
        (simp_all add: Machine_ReadRegister_def upd_thread_def)
  qed
  then show ?thesis by auto
qed

lemma Run_before_ok:
  assumes "threads k (currentThread k) = Some me" "thr_stack me = None \<or> thr_stack me = Some STACK_FENCEPOST"
    "threads k n = Some nx" "n \<noteq> currentThread k"
  shows "\<exists>g. Run_before rp n k = Inr (k\<lparr>currentThread := n, threads := (threads k)(n \<mapsto> nx\<lparr>thr_status := RUNNING\<rparr>,
    currentThread k \<mapsto> me\<lparr>userRegisters := g, machineState := Some rp\<rparr>)\<rparr>)"
proof (cases "thr_space me")
  case None
  have "me\<lparr>userRegisters := userRegisters me, machineState := Some rp\<rparr> = me\<lparr>machineState := Some rp\<rparr>" by simp
  then show ?thesis using assms None
    by (intro exI [of _ "userRegisters me"])
      (auto simp: Run_before_def Thread_CheckOverflow_def upd_thread_def Let_def fun_upd_twist)
next
  case (Some sp)
  obtain g where "Thread_SaveUserState (currentThread k) k =
      Inr (k\<lparr>threads := (threads k)(currentThread k \<mapsto> me\<lparr>userRegisters := g\<rparr>)\<rparr>)"
    using SaveUserState_ok [OF assms(1)] by blast
  then show ?thesis using assms Some
    by (intro exI [of _ g])
      (auto simp: Run_before_def AddrSpace_SaveState_def Thread_CheckOverflow_def upd_thread_def Let_def fun_upd_twist)
qed

lemma Finish_ok:
  assumes "threads k (currentThread k) = Some me" "thr_stack me = None \<or> thr_stack me = Some STACK_FENCEPOST"
    "readyList k = (i, Some n) # rl" "threads k n = Some nx" "n \<noteq> currentThread k"
  shows "\<exists>k'. cFinish (quick (Suc fuel) idle) (currentThread k) k = Inr k' \<and> currentThread k' = n \<and>
    threadToBeDestroyed k' = Some (currentThread k) \<and> readyList k' = rl \<and>
    (\<exists>g. threads k' = (threads k)(n \<mapsto> nx\<lparr>thr_status := RUNNING\<rparr>,
       currentThread k \<mapsto> me\<lparr>thr_status := BLOCKED, userRegisters := g, machineState := Some InFinish\<rparr>)) \<and>
    semaphores k' = semaphores k \<and> pcbs k' = pcbs k \<and> pcb_brk k' = pcb_brk k \<and> pTab_bm k' = pTab_bm k \<and>
    pTab_pcb k' = pTab_pcb k \<and> pTab_psize k' = pTab_psize k \<and> gPhysPageBitMap k' = gPhysPageBitMap k \<and> spaces k' = spaces k"
proof -
  let ?me = "me\<lparr>thr_status := BLOCKED\<rparr>"
  obtain k1 where k1: "k1 = k\<lparr>level := IntOff, threadToBeDestroyed := Some (currentThread k),
    threads := (threads k)(currentThread k \<mapsto> ?me), readyList := rl\<rparr>" by blast
  have f: "currentThread k1 = currentThread k" "threads k1 = (threads k)(currentThread k \<mapsto> ?me)" by (simp_all add: k1)
  obtain g where "Run_before InFinish n k1 = Inr (k1\<lparr>currentThread := n, threads := (threads k1)(n \<mapsto> nx\<lparr>thr_status := RUNNING\<rparr>,
    currentThread k1 \<mapsto> ?me\<lparr>userRegisters := g, machineState := Some InFinish\<rparr>)\<rparr>)"
    using Run_before_ok [of k1 ?me n nx InFinish] assms by (auto simp: f)
  then have "cFinish (quick (Suc fuel) idle) (currentThread k) k = Inr (k1\<lparr>currentThread := n,
      threads := (threads k1)(n \<mapsto> nx\<lparr>thr_status := RUNNING\<rparr>,
    currentThread k1 \<mapsto> ?me\<lparr>userRegisters := g, machineState := Some InFinish\<rparr>)\<rparr>)"
    using assms(1,3) by (simp add: alone_calls_def Thread_Finish_def plain_SetLevel_def Thread_Sleep_def Sleep_begin_def
        upd_thread_def Scheduler_FindNextToRun_def seq_remove_def k1 ASSERT_def)
  then show ?thesis using assms(5) by (simp add: k1 fun_upd_twist) blast
qed

text \<open>A process that can exit: its semaphores, its address space and its stack are in order.\<close>

definition can_exit :: "PCB \<Rightarrow> Thread \<Rightarrow> TranslationEntry list \<Rightarrow> 'z os_scheme \<Rightarrow> bool" where
  "can_exit b me t k \<longleftrightarrow> pcb_thread b = Some (currentThread k) \<and> distinct [joinsem b, exitsem b, mutex b] \<and>
     semaphores k (joinsem b) \<noteq> None \<and> semaphores k (exitsem b) \<noteq> None \<and> semaphores k (mutex b) \<noteq> None \<and>
     threads k (currentThread k) = Some me \<and> thr_stack me = Some STACK_FENCEPOST \<and> phys_ok k \<and>
     (\<exists>sp a. thr_space me = Some sp \<and> spaces k sp = Some a \<and> pageTables k (as_pageTable a) = Some t \<and>
        length t = unat (as_numPages a)) \<and>
     map (\<lambda>e. sint (physicalPage e)) t = map int (frames t) \<and> set (frames t) \<subseteq> {..<bm_size (gPhysPageBitMap k)}"

lemma PCB_delete_ok:
  assumes "pcbs k p = Some b" "can_exit b me t k" "readyList k = (i, Some n) # rl" "threads k n = Some nx" "n \<noteq> currentThread k"
  shows "\<exists>k'. PCB_delete (quick (Suc fuel) idle) p k = Inr (Gone k') \<and> currentThread k' = n \<and>
    threadToBeDestroyed k' = Some (currentThread k) \<and> readyList k' = rl \<and> used_frames k' = used_frames k - set (frames t) \<and>
    semaphores k' = (semaphores k)(joinsem b := None, exitsem b := None, mutex b := None) \<and> pcbs k' = pcbs k \<and>
    pcb_brk k' = pcb_brk k \<and> pTab_bm k' = pTab_bm k \<and> pTab_pcb k' = pTab_pcb k \<and> pTab_psize k' = pTab_psize k \<and>
    map_option thr_status (threads k' n) = Some RUNNING"
proof -
  obtain k3 where k3: "k3 = k\<lparr>semaphores := (semaphores k)(joinsem b := None, exitsem b := None, mutex b := None)\<rparr>" by blast
  have f3: "currentThread k3 = currentThread k" "threads k3 = threads k" "readyList k3 = readyList k" "phys_ok k3 = phys_ok k"
    "spaces k3 = spaces k" "pageTables k3 = pageTables k" "gPhysPageBitMap k3 = gPhysPageBitMap k"
    by (simp_all add: k3 phys_ok_def)
  obtain sp a where sp: "thr_space me = Some sp" "spaces k3 sp = Some a" "pageTables k3 (as_pageTable a) = Some t"
    "length t = unat (as_numPages a)" "phys_ok k3" "map (\<lambda>e. sint (physicalPage e)) t = map int (frames t)"
    "set (frames t) \<subseteq> {..<bm_size (gPhysPageBitMap k3)}" "threads k3 (currentThread k3) = Some me"
    using assms(2) by (auto simp: can_exit_def f3)
  from AddrSpace_delete_ok [OF sp(5,2,3,4,6,7)] obtain k4 where
    k4: "AddrSpace_delete sp k3 = Inr k4" "used_frames k4 = used_frames k3 - set (frames t)" by blast
  have f4: "currentThread k4 = currentThread k" "threads k4 = threads k" "readyList k4 = readyList k"
    "semaphores k4 = semaphores k3" "pcbs k4 = pcbs k" "pcb_brk k4 = pcb_brk k" "pTab_bm k4 = pTab_bm k" "pTab_pcb k4 = pTab_pcb k"
    "pTab_psize k4 = pTab_psize k"
    using k4(1) by (auto simp: AddrSpace_delete_def k3 elim!: bind_r_InrE)
  obtain k' where k': "cFinish (quick (Suc fuel) idle) (currentThread k) k4 = Inr k'" "currentThread k' = n"
    "threadToBeDestroyed k' = Some (currentThread k)" "readyList k' = rl" "semaphores k' = semaphores k3" "pcbs k' = pcbs k"
    "pcb_brk k' = pcb_brk k" "pTab_bm k' = pTab_bm k" "pTab_pcb k' = pTab_pcb k" "pTab_psize k' = pTab_psize k"
    "gPhysPageBitMap k' = gPhysPageBitMap k4" "map_option thr_status (threads k' n) = Some RUNNING"
    using Finish_ok [of k4 me i n rl nx fuel idle] assms(2-5) by (auto simp: f4 can_exit_def)
  have "PCB_delete (quick (Suc fuel) idle) p k = Inr (Gone k')"
    using assms(1,2) k4(1) k'(1) sp(1,8)
    by (auto simp: PCB_delete_def Semaphore_delete_def can_exit_def Thread_FreeSpace_def obj_def k3 split: option.split)
  then show ?thesis using k' k4(2) f3 by (simp add: k3)
qed

text \<open>Changing control blocks without changing who is who.\<close>

definition same_ids :: "(nat \<Rightarrow> PCB option) \<Rightarrow> (nat \<Rightarrow> PCB option) \<Rightarrow> bool" where
  "same_ids C C' \<longleftrightarrow> (\<forall>x. map_option (\<lambda>b. (pid b, parentID b)) (C' x) = map_option (\<lambda>b. (pid b, parentID b)) (C x))"

lemma same_ids_remove:
  assumes "ptab_ok k" "same_ids (pcbs k) (pcbs k')" "bitmap_ok (pTab_bm k')" "numBits (pTab_bm k') = numBits (pTab_bm k)"
    "bits (pTab_bm k') = bits (pTab_bm k) - {n}" "pTab_pcb k' = pTab_pcb k" "pTab_psize k' = pTab_psize k" "pcb_brk k' = pcb_brk k"
  shows "ptab_ok k' \<and> procs k' = (procs k)(n := None)"
proof
  have ids: "pcbs k x = Some b \<Longrightarrow> \<exists>b'. pcbs k' x = Some b' \<and> pid b' = pid b \<and> parentID b' = parentID b" for x b
    using assms(2) [unfolded same_ids_def, THEN spec, of x] by auto
  show "ptab_ok k'" using assms(1,3-8) ids unfolding ptab_ok_def by (metis DiffD1)
  show "procs k' = (procs k)(n := None)"
  proof
    fix i
    show "procs k' i = ((procs k)(n := None)) i"
    proof (cases "i \<in> bits (pTab_bm k) - {n}")
      case True
      then obtain x b where "pTab_pcb k ! i = Some x" "pcbs k x = Some b" using assms(1) by (auto simp: ptab_ok_def)
      then show ?thesis using True assms(5,6) ids [of x b] by (auto simp: procs_def)
    qed (use assms(5) in \<open>auto simp: procs_def\<close>)
  qed
qed

lemma exit_marks:
  assumes "pcbs k p = Some b" "pcbs k pp \<noteq> None"
  shows "\<exists>C b'. bind_r (PCB_SetExitCode p ec k) (PCB_DecNumWait pp) = Inr (k\<lparr>pcbs := C\<rparr>) \<and> same_ids (pcbs k) C \<and>
    C p = Some b' \<and> joinsem b' = joinsem b \<and> exitsem b' = exitsem b \<and> mutex b' = mutex b \<and> pcb_thread b' = pcb_thread b \<and>
    JoinStatus b' = JoinStatus b"
proof -
  let ?b = "b\<lparr>exitcode := ec\<rparr>" and ?f = "\<lambda>b. if numwait b \<noteq> 0 then b\<lparr>numwait := numwait b - 1\<rparr> else b"
  let ?C1 = "(pcbs k)(p \<mapsto> ?b)"
  obtain bp where bp: "?C1 pp = Some bp" using assms(2) by (cases "pp = p") auto
  let ?C = "?C1(pp \<mapsto> ?f bp)"
  have "bind_r (PCB_SetExitCode p ec k) (PCB_DecNumWait pp) = Inr (k\<lparr>pcbs := ?C\<rparr>)"
    using assms(1) bp by (simp add: PCB_SetExitCode_def PCB_DecNumWait_def upd_pcb_def)
  moreover have "same_ids (pcbs k) ?C" unfolding same_ids_def
  proof
    fix x
    show "map_option (\<lambda>b. (pid b, parentID b)) (?C x) = map_option (\<lambda>b. (pid b, parentID b)) (pcbs k x)"
      using assms(1) bp by (cases "x = pp"; cases "x = p") auto
  qed
  moreover have "?C p = Some (if pp = p then ?f ?b else ?b)" using bp by auto
  ultimately show ?thesis by (intro exI [of _ ?C] exI [of _ "if pp = p then ?f ?b else ?b"]) simp
qed

lemma ExitUpdate_ok:
  fixes k :: "'z os_scheme"
  assumes "ptab_ok k" "pTab_pcb k ! n = Some p" "pcbs k p = Some b" "processID me = int n" "n \<noteq> 0"
    "procs k n = Some (int q)" "q \<in> dom (procs k)" "JoinStatus b = - 1" "can_exit b me t k"
    "readyList k = (i, Some u) # rl" "threads k u = Some nx" "u \<noteq> currentThread k"
  shows "\<exists>k'. PTable_ExitUpdate (quick (Suc fuel) idle) ec k = Inr (Gone k') \<and> ptab_ok k' \<and> procs k' = (procs k)(n := None) \<and>
    used_frames k' = used_frames k - set (frames t) \<and> currentThread k' = u \<and> readyList k' = rl \<and>
    threadToBeDestroyed k' = Some (currentThread k) \<and> pTab_pcb k' = pTab_pcb k \<and> pTab_psize k' = pTab_psize k \<and>
    (\<exists>b'. pcbs k' p = Some b' \<and> parentID b' = int q \<and> semaphores k' (joinsem b') = None)"
proof -
  have n: "n \<in> bits (pTab_bm k)" "q \<in> bits (pTab_bm k)" using assms(1,6,7) dom_procs by blast+
  have lt: "n < nat MAXPROCESS" "q < nat MAXPROCESS" using n bits_bound [of "pTab_bm k"] assms(1) by (auto simp: ptab_ok_def)
  have par: "parentID b = int q" using assms(2,3,6) n(1) by (simp add: procs_def)
  obtain pp where pp: "pTab_pcb k ! q = Some pp" "pcbs k pp \<noteq> None" using n(2) assms(1) by (auto simp: ptab_ok_def)
  obtain C b' where C: "bind_r (PCB_SetExitCode p ec k) (PCB_DecNumWait pp) = Inr (k\<lparr>pcbs := C\<rparr>)" "same_ids (pcbs k) C"
    "C p = Some b'" "joinsem b' = joinsem b" "exitsem b' = exitsem b" "mutex b' = mutex b" "pcb_thread b' = pcb_thread b"
    "JoinStatus b' = JoinStatus b" using exit_marks [OF assms(3) pp(2)] by blast
  obtain bm' where bm': "BitMap_Clear (int n) (pTab_bm k) = Inr bm'" "bitmap_ok bm'" "numBits bm' = numBits (pTab_bm k)"
    "bits bm' = bits (pTab_bm k) - {n}" using BitMap_Clear_correct [of "pTab_bm k" n] assms(1) lt(1) by (auto simp: ptab_ok_def)
  obtain k3 where k3: "k3 = k\<lparr>pcbs := C, pTab_bm := bm'\<rparr>" by blast
  have f3: "pcbs k3 = C" "currentThread k3 = currentThread k" "readyList k3 = readyList k" "threads k3 = threads k"
    "can_exit b' me t k3" "pTab_bm k3 = bm'" "pTab_pcb k3 = pTab_pcb k" "pcb_brk k3 = pcb_brk k" "pTab_psize k3 = pTab_psize k"
    "gPhysPageBitMap k3 = gPhysPageBitMap k"
    using assms(9) C(4-7) by (simp_all add: k3 can_exit_def phys_ok_def)
  obtain k' where k': "PCB_delete (quick (Suc fuel) idle) p k3 = Inr (Gone k')" "currentThread k' = u"
    "threadToBeDestroyed k' = Some (currentThread k)" "readyList k' = rl" "used_frames k' = used_frames k - set (frames t)"
    "semaphores k' (joinsem b') = None" "pcbs k' = C" "pcb_brk k' = pcb_brk k" "pTab_bm k' = bm'" "pTab_pcb k' = pTab_pcb k" "pTab_psize k' = pTab_psize k"
    using PCB_delete_ok [of k3 p b' me t i u rl nx fuel idle] assms(10-12) C(3) by (auto simp: f3)
  have t: "BitMap_Test (int n) (pTab_bm k) = Inr True"
    using BitMap_Test_correct [of "pTab_bm k" n] n(1) lt(1) assms(1) by (auto simp: ptab_ok_def)
  then have rm: "PTable_Remove (quick (Suc fuel) idle) (int n) (k\<lparr>pcbs := C\<rparr>) = Inr (Gone k')"
    using assms(1,2) lt(1) bm'(1) k'(1) by (simp add: PTable_Remove_def ptab_ok_def k3 MAXPROCESS_def)
  obtain k1 where k1: "PCB_SetExitCode p ec k = Inr k1" "pcbs k1 p = Some (b\<lparr>exitcode := ec\<rparr>)" "pTab_pcb k1 = pTab_pcb k"
    using assms(3) by (simp add: PCB_SetExitCode_def upd_pcb_def)
  have "PCB_DecNumWait pp k1 = Inr (k\<lparr>pcbs := C\<rparr>)" using C(1) k1(1) by simp
  moreover have "cur_pid k = Inr (int n)" using assms(4,9) by (simp add: cur_pid_def can_exit_def)
  moreover have "pcb_at (int n) k = Inr p" "pcb_at (int q) k1 = Inr pp"
    using assms(1,2) lt pp(1) k1(3) by (simp_all add: pcb_at_def ptab_ok_def)
  moreover have "PTable_IsExist (int n) k = Inr True" using t lt(1) by (simp add: PTable_IsExist_def MAXPROCESS_def)
  ultimately have "PTable_ExitUpdate (quick (Suc fuel) idle) ec k = Inr (Gone k')"
    using k1 C(3,8) assms(5,8) par rm by (simp add: PTable_ExitUpdate_def)
  moreover have "ptab_ok k' \<and> procs k' = (procs k)(n := None)"
    by (rule same_ids_remove [OF assms(1)]) (use C(2) bm' k' in simp_all)
  moreover have "map_option (\<lambda>b. (pid b, parentID b)) (C p) = map_option (\<lambda>b. (pid b, parentID b)) (pcbs k p)"
    using C(2) unfolding same_ids_def by blast
  then have "parentID b' = int q" using C(3) assms(3) par by simp
  ultimately show ?thesis using k' C(3) by auto
qed

section \<open>Properties\<close>

text \<open>
  C29: \<^verbatim>\<open>PTable::ExecUpdate\<close>, called while its lock is free, always returns and leaves a well-formed table
  and the lock free.  If the program is not the one of the calling process, the host can open the
  file and one of the slots is free, then the result is the smallest number without a process; a
  process with that number and the caller as its parent has been added, and exactly one new thread,
  which will start it, has been put at the end of the ready list.  Otherwise the result is -1 and no
  process or thread has been added.
\<close>

theorem ExecUpdate_spec:
  fixes k :: "'z os_scheme"
  assumes "ptab_ok k" "\<not> inHandler k" "threads k (currentThread k) = Some me" "currentThread k < thread_brk k"
    and "semaphores k (pTab_bmsem k) = Some sm" "sem_value sm \<noteq> 0" "sem_queue sm = []" "pTab_bmsem k < sem_brk k"
  shows "\<exists>r k'. PTable_ExecUpdate (quick fuel idle) (Some name) k = Inr (r, k') \<and> ptab_ok k' \<and>
    semaphores k' (pTab_bmsem k') = Some sm \<and> same_rest k k' \<and>
    exec_post name me (name \<noteq> thr_name me \<and> openable name k) k r k'"
proof -
  let ?c = "quick fuel idle" and ?s = "pTab_bmsem k" and ?go = "name \<noteq> thr_name me \<and> openable name k"
  obtain k1 where k1: "k1 = k\<lparr>semaphores := (semaphores k)(?s \<mapsto> sm\<lparr>sem_value := sem_value sm - 1\<rparr>)\<rparr>" by blast
  have P: "cP ?c ?s k = Inr k1" using cP_quick [OF assms(5,6,2), of fuel idle] by (simp add: k1)
  have f1: "threads k1 = threads k" "currentThread k1 = currentThread k" "same_rest k k1" "ptab_ok k1 = ptab_ok k"
    "procs k1 = procs k" "thread_brk k1 = thread_brk k" "sem_brk k1 = sem_brk k" "openable name k1 = openable name k"
    "semaphores k1 ?s = Some (sm\<lparr>sem_value := sem_value sm - 1\<rparr>)" "readyList k1 = readyList k"
    using procs_frame [of k1 k] by (simp_all add: k1 same_rest_def ptab_ok_def openable_def)
  obtain k2 where k2: "can_exec (Some name) k1 = Inr (?go, k2)" "same_procs k1 k2"
    using can_exec_ok [of k1 me name] assms(3) f1 by auto
  have r2: "same_rest k k2" "ptab_ok k2" "procs k2 = procs k"
    using k2(2) f1 assms(1) same_procs_ptab [OF k2(2)] same_rest_trans by (auto simp: same_procs_def)
  have f2: "threads k2 = threads k" "readyList k2 = readyList k" "currentThread k2 = currentThread k" "inHandler k2 = inHandler k"
    "thread_brk k2 = thread_brk k" "sem_brk k2 = sem_brk k" "semaphores k2 ?s = Some (sm\<lparr>sem_value := sem_value sm - 1\<rparr>)"
    using k2(2) f1 r2(1) by (simp_all add: same_procs_def same_rest_def)
  have "\<not> inHandler k2" "threads k2 (currentThread k2) = Some me" "currentThread k2 < thread_brk k2" "?s < sem_brk k2"
    using f2 assms(2-4,8) by simp_all
  from exec_body_ok [OF r2(2) this, of ?go fuel idle name] obtain r k3 where
    k3: "(if ?go then exec_in_slot ?c name k2 else Inr (- 1, k2)) = Inr (r, k3)" "ptab_ok k3" "same_rest k2 k3"
      "semaphores k3 ?s = semaphores k2 ?s" "exec_post name me ?go k2 r k3" by blast
  have "pTab_bmsem k3 = ?s" "\<not> inHandler k3" using k3(3) r2(1) assms(2) by (simp_all add: same_rest_def)
  with unlock_ok [of k3 sm fuel idle] k3(4) f2(7) assms(7) obtain k4 where
    k4: "cV ?c ?s k3 = Inr k4" "ptab_ok k4 = ptab_ok k3" "procs k4 = procs k3" "threads k4 = threads k3"
      "readyList k4 = readyList k3" "same_rest k3 k4" "semaphores k4 ?s = Some sm" by auto
  have "PTable_ExecUpdate ?c (Some name) k = Inr (r, k4)" unfolding PTable_ExecUpdate_def P
    using k2(1) k3(1) k4(1) \<open>pTab_bmsem k3 = ?s\<close> by (auto split: if_split_asm)
  moreover have "same_rest k k4" using r2(1) k3(3) k4(6) same_rest_trans by blast
  moreover have "exec_post name me ?go k r k4" 
    using k3(5) unfolding exec_post_def k4(3-5) f2(1,2,5) r2(3) .
  ultimately show ?thesis using k3(2) k4 \<open>pTab_bmsem k3 = ?s\<close> by (intro exI [of _ r] exI [of _ k4]) (simp add: same_rest_def)
qed


text \<open>
  C31: Joining a process that has already exited uses a deleted semaphore.  After the exit of such a
  process its slot still points to the control block whose semaphores have been deleted; whenever the
  parent runs then and the table has not changed, \<^verbatim>\<open>PTable::JoinUpdate\<close> calls \<^verbatim>\<open>P\<close> on the deleted semaphore
  instead of returning -1.
\<close>

theorem join_after_exit:
  fixes k :: "'z os_scheme" and idle' :: "'z os_scheme \<Rightarrow> 'z os_scheme result"
  assumes "ptab_ok k" "pTab_pcb k ! n = Some p" "pcbs k p = Some b" "processID me = int n" "n \<noteq> 0"
    "procs k n = Some (int q)" "q \<in> dom (procs k)" "JoinStatus b = - 1" "can_exit b me t k"
    "readyList k = (i, Some u) # rl" "threads k u = Some nx" "u \<noteq> currentThread k"
  shows "\<exists>k'. PTable_ExitUpdate (quick (Suc fuel) idle) ec k = Inr (Gone k') \<and>
    (\<forall>(k'' :: 'z os_scheme) par. pTab_pcb k'' = pTab_pcb k' \<and> pTab_psize k'' = pTab_psize k' \<and> pcbs k'' = pcbs k' \<and> semaphores k'' = semaphores k' \<and>
       threads k'' (currentThread k'') = Some par \<and> processID par = int q \<longrightarrow>
       PTable_JoinUpdate (quick fuel' idle') (int n) k'' = Inl BadPointer)"
proof -
  have "n < nat MAXPROCESS" using assms(1,6) dom_procs [OF assms(1)] bits_bound [of "pTab_bm k"] by (auto simp: ptab_ok_def)
  then have lt: "int n < pTab_psize k" "n < length (pTab_pcb k)" using assms(1) by (auto simp: ptab_ok_def MAXPROCESS_def)
  from ExitUpdate_ok [OF assms, of fuel idle ec] obtain k' b' where
    k': "PTable_ExitUpdate (quick (Suc fuel) idle) ec k = Inr (Gone k')" "pTab_pcb k' = pTab_pcb k" "pTab_psize k' = pTab_psize k"
      "pcbs k' p = Some b'" "parentID b' = int q" "semaphores k' (joinsem b') = None" by blast
  show ?thesis
  proof (intro exI conjI allI impI)
    fix k'' :: "'z os_scheme" and par
    assume "pTab_pcb k'' = pTab_pcb k' \<and> pTab_psize k'' = pTab_psize k' \<and> pcbs k'' = pcbs k' \<and> semaphores k'' = semaphores k' \<and>
       threads k'' (currentThread k'') = Some par \<and> processID par = int q"
    with k' lt assms(2) show "PTable_JoinUpdate (quick fuel' idle') (int n) k'' = Inl BadPointer"
      by (simp add: PTable_JoinUpdate_def cur_pid_def PCB_JoinWait_def PCB_IncNumWait_def upd_pcb_def alone_calls_def
          P_alone_def Semaphore_P_def P_loop_def P_test_def plain_SetLevel_def obj_def ASSERT_def)
  qed (rule k'(1))
qed


section \<open>Processes to try them on\<close>

definition demo_pcb :: "nat \<Rightarrow> int \<Rightarrow> nat option \<Rightarrow> PCB" where
  "demo_pcb i par t = \<lparr>joinsem = 9 + 3 * i, exitsem = 10 + 3 * i, mutex = 11 + 3 * i, exitcode = 0, pcb_thread = t,
     pid = int i, numwait = 0, parentID = par, JoinStatus = - 1\<rparr>"

definition demo_sems :: "nat \<Rightarrow> Semaphore option" where
  "demo_sems s = (if s < 15 then Some \<lparr>sem_name = ''s'', sem_value = 1, sem_queue = []\<rparr> else None)"

text \<open>The main program alone, and the main program with one child, which is running.\<close>

definition demo_parent :: os where
  "demo_parent = demo_exec\<lparr>level := IntOn, semaphores := demo_sems, sem_brk := 15,
     pTab_bm := \<lparr>numBits = 10, numWords = 1, bm_words = [1]\<rparr>, pTab_pcb := Some 0 # replicate 9 None,
     pcbs := [0 \<mapsto> demo_pcb 0 (- 1) None], pcb_brk := 1\<rparr>"

definition demo_page :: TranslationEntry where
  "demo_page = \<lparr>virtualPage = 0, physicalPage = 5, valid = True, readOnly = False, use = False, dirty = False\<rparr>"

definition demo_child_thread :: Thread where
  "demo_child_thread = (new_process_thread ''prog'' 1)\<lparr>thr_status := RUNNING, thr_space := Some 0\<rparr>"

definition demo_child :: os where
  "demo_child = demo_exec\<lparr>level := IntOn, semaphores := demo_sems, sem_brk := 15,
     threads := [0 \<mapsto> demo_main READY, 1 \<mapsto> demo_child_thread], thread_brk := 2, currentThread := 1,
     readyList := [(0, Some 0)], spaces := [0 \<mapsto> \<lparr>as_pageTable = 0, as_numPages = 1\<rparr>], pageTables := [0 \<mapsto> [demo_page]],
     gPhysPageBitMap := \<lparr>numBits = 256, numWords = 8, bm_words = [32, 0, 0, 0, 0, 0, 0, 0]\<rparr>,
     pTab_bm := \<lparr>numBits = 10, numWords = 1, bm_words = [3]\<rparr>, pTab_pcb := Some 0 # Some 1 # replicate 8 None,
     pcbs := [0 \<mapsto> demo_pcb 0 (- 1) None, 1 \<mapsto> demo_pcb 1 0 (Some 1)], pcb_brk := 2\<rparr>"

lemma demo_tab_bits:
  "bits \<lparr>numBits = 10, numWords = 1, bm_words = [1]\<rparr> = {0}" "bits \<lparr>numBits = 10, numWords = 1, bm_words = [3]\<rparr> = {0, 1}"
proof -
  have "bit (1 :: 32 word) n \<longleftrightarrow> n = 0" "bit (3 :: 32 word) n \<longleftrightarrow> n = 0 \<or> n = 1" if "n < 10" for n
  proof -
    have "n = 0 \<or> n = 1 \<or> n = 2 \<or> n = 3 \<or> n = 4 \<or> n = 5 \<or> n = 6 \<or> n = 7 \<or> n = 8 \<or> n = 9" using that by arith
    then show "bit (1 :: 32 word) n \<longleftrightarrow> n = 0" "bit (3 :: 32 word) n \<longleftrightarrow> n = 0 \<or> n = 1" by (elim disjE; simp)+
  qed
  moreover have "n div 32 = 0" "n mod 32 = n" if "n < 10" for n :: nat using that by simp_all
  ultimately show "bits \<lparr>numBits = 10, numWords = 1, bm_words = [1]\<rparr> = {0}"
    "bits \<lparr>numBits = 10, numWords = 1, bm_words = [3]\<rparr> = {0, 1}" unfolding bits_def by auto
qed

lemma demo_parent_simps:
  "pTab_bm demo_parent = \<lparr>numBits = 10, numWords = 1, bm_words = [1]\<rparr>" "pTab_pcb demo_parent = Some 0 # replicate 9 None"
  "pcbs demo_parent = [0 \<mapsto> demo_pcb 0 (- 1) None]" "pcb_brk demo_parent = 1" "pTab_psize demo_parent = 10"
  "threads demo_parent = [0 \<mapsto> demo_main RUNNING]" "currentThread demo_parent = 0" "thread_brk demo_parent = 1"
  "inHandler demo_parent = False" "semaphores demo_parent = demo_sems" "pTab_bmsem demo_parent = 8" "sem_brk demo_parent = 15"
  "h_dir (host demo_parent) = [''prog'' \<mapsto> 1]" "h_denied (host demo_parent) = (\<lambda>_. False)"
  by (simp_all add: demo_parent_def demo_exec_simps)

lemma demo_parent_ok: "ptab_ok demo_parent" "procs demo_parent = [0 \<mapsto> - 1]"
  by (simp add: ptab_ok_def demo_parent_simps demo_tab_bits MAXPROCESS_def bitmap_ok_def divRoundUp_def BitsInWord_def demo_pcb_def)
    (rule ext, simp add: procs_def demo_parent_simps demo_tab_bits demo_pcb_def)

theorem ExecUpdate_spec_witness:
  "\<exists>k'. PTable_ExecUpdate (quick 0 Inr) (Some ''prog'') demo_parent = Inr (1, k') \<and> procs k' = [0 \<mapsto> - 1, 1 \<mapsto> 0]"
proof -
  let ?sm = "\<lparr>sem_name = ''s'', sem_value = 1, sem_queue = []\<rparr>"
  have "threads demo_parent (currentThread demo_parent) = Some (demo_main RUNNING)" by (simp add: demo_parent_simps)
  moreover have "semaphores demo_parent (pTab_bmsem demo_parent) = Some ?sm" by (simp add: demo_parent_simps demo_sems_def)
  moreover have "openable ''prog'' demo_parent" by (simp add: openable_def demo_parent_simps)
  ultimately obtain r k' where "PTable_ExecUpdate (quick 0 Inr) (Some ''prog'') demo_parent = Inr (r, k')"
    "exec_post ''prog'' (demo_main RUNNING) True demo_parent r k'"
    using ExecUpdate_spec [OF demo_parent_ok(1), of "demo_main RUNNING" ?sm 0 Inr "''prog''"]
    by (auto simp: demo_parent_simps demo_main_def)
  moreover have "n \<noteq> 0 \<Longrightarrow> {..<n} \<subseteq> {0} \<Longrightarrow> n = 1" for n :: nat by (cases n) auto
  ultimately show ?thesis by (auto simp: exec_post_def demo_parent_ok(2) MAXPROCESS_def demo_main_def)
qed

lemma demo_child_simps:
  "pTab_bm demo_child = \<lparr>numBits = 10, numWords = 1, bm_words = [3]\<rparr>" "pTab_pcb demo_child = Some 0 # Some 1 # replicate 8 None"
  "pcbs demo_child = [0 \<mapsto> demo_pcb 0 (- 1) None, 1 \<mapsto> demo_pcb 1 0 (Some 1)]" "pcb_brk demo_child = 2" "pTab_psize demo_child = 10"
  "threads demo_child = [0 \<mapsto> demo_main READY, 1 \<mapsto> demo_child_thread]" "currentThread demo_child = 1"
  "semaphores demo_child = demo_sems" "spaces demo_child = [0 \<mapsto> \<lparr>as_pageTable = 0, as_numPages = 1\<rparr>]"
  "pageTables demo_child = [0 \<mapsto> [demo_page]]" "readyList demo_child = [(0, Some 0)]"
  "gPhysPageBitMap demo_child = \<lparr>numBits = 256, numWords = 8, bm_words = [32, 0, 0, 0, 0, 0, 0, 0]\<rparr>"
  by (simp_all add: demo_child_def demo_exec_simps)

lemma demo_child_ok:
  "ptab_ok demo_child" "procs demo_child = [0 \<mapsto> - 1, 1 \<mapsto> 0]" "can_exit (demo_pcb 1 0 (Some 1)) demo_child_thread [demo_page] demo_child"
  subgoal by (simp add: ptab_ok_def demo_child_simps demo_tab_bits MAXPROCESS_def bitmap_ok_def divRoundUp_def BitsInWord_def demo_pcb_def)
  subgoal by (rule ext) (simp add: procs_def demo_child_simps demo_tab_bits demo_pcb_def)
  subgoal by (simp add: can_exit_def demo_child_simps demo_pcb_def demo_sems_def demo_child_thread_def new_process_thread_def
      phys_ok_def bitmap_ok_def divRoundUp_def BitsInWord_def frames_def demo_page_def)
  done


theorem join_after_exit_witness:
  "\<exists>k'. PTable_ExitUpdate (quick 1 Inr) 0 demo_child = Inr (Gone k') \<and>
     PTable_JoinUpdate (quick 1 Inr) 1 (k'\<lparr>threads := [0 \<mapsto> demo_main RUNNING], currentThread := 0\<rparr>) = Inl BadPointer"
proof -
  have p: "pTab_pcb demo_child ! 1 = Some 1" "pcbs demo_child 1 = Some (demo_pcb 1 0 (Some 1))" "processID demo_child_thread = int 1"
    "procs demo_child 1 = Some (int 0)" "0 \<in> dom (procs demo_child)" "JoinStatus (demo_pcb 1 0 (Some 1)) = - 1"
    "readyList demo_child = (0, Some 0) # []" "threads demo_child 0 = Some (demo_main READY)" "0 \<noteq> currentThread demo_child"
    by (simp_all add: demo_child_simps demo_child_ok(2) demo_pcb_def demo_child_thread_def new_process_thread_def)
  from join_after_exit [OF demo_child_ok(1) p(1-3) _ p(4-6) demo_child_ok(3) p(7-9), of 0 Inr 0 1 Inr] obtain k' where
    k': "PTable_ExitUpdate (quick 1 Inr) 0 demo_child = Inr (Gone k')"
    and j: "\<And>(k'' :: os) par. pTab_pcb k'' = pTab_pcb k' \<and> pTab_psize k'' = pTab_psize k' \<and> pcbs k'' = pcbs k' \<and>
       semaphores k'' = semaphores k' \<and> threads k'' (currentThread k'') = Some par \<and> processID par = int 0 \<Longrightarrow>
       PTable_JoinUpdate (quick 1 Inr) (int 1) k'' = Inl BadPointer" by auto
  from k' j [of "k'\<lparr>threads := [0 \<mapsto> demo_main RUNNING], currentThread := 0\<rparr>" "demo_main RUNNING"] show ?thesis
    by (intro exI [of _ k']) (simp add: demo_main_def)
qed


end
