(* ===== verification/Console_Calls.thy ===== *)
theory Console_Calls
  imports Proc_Table
begin

text \<open>
  The system calls of \<^verbatim>\<open>userprog/exception.cc\<close> that read and print numbers, characters and strings on
  the synchronous console.  The argument \<open>e\<close> holds what the handlers get from outside: the calls of
  the thread system, the number of end-of-file characters the console may deliver before a real one,
  the contents of uninitialised variables, and the rounding of \<^verbatim>\<open>float\<close> arithmetic, which C leaves to
  the implementation (\<open>None\<close> is a result that is not a finite number).  \<^verbatim>\<open>int\<close> arithmetic on the machine's
  registers wraps around.  What the kernel prints with \<^verbatim>\<open>printf\<close> goes past the console and is not modelled.
\<close>

section \<open>Environment of a system call\<close>

record 's sysenv =
  se_calls :: "'s kcalls"
  se_fuel :: nat
  se_word :: "32 word"
  se_byte :: byte
  se_rnd :: "rat \<Rightarrow> rat option"

definition MAX_FILENAME_LEN :: int where "MAX_FILENAME_LEN = 200"
definition MAX_FILECONTENT_LEN :: nat where "MAX_FILECONTENT_LEN = 2000"
definition MaxFileLength :: int where "MaxFileLength = 32"

declare MAX_FILENAME_LEN_def [nachos_defs] MAX_FILECONTENT_LEN_def [nachos_defs] MaxFileLength_def [nachos_defs]

text \<open>
  A fault inside a handler, in a routine that reads or writes user memory, enters \<^verbatim>\<open>ExceptionHandler\<close> again,
  never with \<^const>\<open>SyscallException\<close>.
\<close>

definition fault_handler :: "ExceptionType \<Rightarrow> 'z hw_scheme \<Rightarrow> 'z hw_scheme result" where
  "fault_handler which m = (if which = PageFaultException then Interrupt_Halt m else Inr m)"

definition IncrementR :: "'z hw_scheme \<Rightarrow> 'z hw_scheme result" where
  "IncrementR m =
     bind_r (Machine_ReadRegister (int PCReg) m) (\<lambda>counter.
     bind_r (Machine_WriteRegister (int PrevPCReg) counter m) (\<lambda>m1.
     bind_r (Machine_ReadRegister (int NextPCReg) m1) (\<lambda>counter.
     bind_r (Machine_WriteRegister (int PCReg) counter m1) (\<lambda>m2.
     Machine_WriteRegister (int NextPCReg) (counter + 4) m2))))"

text \<open>\<^verbatim>\<open>gSynchConsole->Read\<close> and \<^verbatim>\<open>gSynchConsole->Write\<close>\<close>

definition console_read :: "'z os_scheme sysenv \<Rightarrow> int \<Rightarrow> 'z os_scheme \<Rightarrow> (int \<times> byte list \<times> 'z os_scheme) result" where
  "console_read e n k = SynchConsole_Read (se_fuel e) (se_byte e) (cP (se_calls e)) (cV (se_calls e)) n k"

definition console_write :: "'z os_scheme sysenv \<Rightarrow> byte list \<Rightarrow> int \<Rightarrow> 'z os_scheme \<Rightarrow> 'z os_scheme result" where
  "console_write e bs n k =
     bind_r (SynchConsole_Write (cP (se_calls e)) (cV (se_calls e)) bs n k) (\<lambda>(_, k1). Inr k1)"

definition user_string :: "'z os_scheme sysenv \<Rightarrow> 32 word \<Rightarrow> int \<Rightarrow> 'z os_scheme \<Rightarrow> (byte list \<times> 'z os_scheme) result" where
  "user_string e virtAddr limit k = Machine_User2System fault_handler (se_word e) virtAddr limit k"

section \<open>Integers\<close>

text \<open>The loop over the digits after a point.\<close>

fun all_zeros :: "byte list \<Rightarrow> nat \<Rightarrow> nat \<Rightarrow> bool result" where
  "all_zeros buf j 0 = Inr True"
| "all_zeros buf j (Suc n) =
     bind_r (arr_get buf (int j)) (\<lambda>c. if c \<noteq> 48 then Inr False else all_zeros buf (Suc j) n)"

text \<open>The loop that checks the characters; \<open>None\<close> where the handler gives up.  The second test is never true.\<close>

fun scan_int :: "byte list \<Rightarrow> nat \<Rightarrow> nat \<Rightarrow> int \<Rightarrow> int option result" where
  "scan_int buf i 0 lastIndex = Inr (Some lastIndex)"
| "scan_int buf i (Suc n) lastIndex =
     bind_r (arr_get buf (int i)) (\<lambda>c.
       if c = 46 then bind_r (all_zeros buf (Suc i) n) (\<lambda>z. Inr (if z then Some (int i - 1) else None))
       else if c <s 48 \<and> 57 <s c then Inr None
       else scan_int buf (Suc i) n (int i))"

definition parse_digits :: "byte list \<Rightarrow> nat \<Rightarrow> int \<Rightarrow> (32 word) result" where
  "parse_digits buf firstIndex lastIndex =
     for_loop firstIndex (nat (lastIndex + 1 - int firstIndex)) (\<lambda>i number.
       bind_r (arr_get buf (int i)) (\<lambda>c. Inr (number * 10 + (scast c - 48)))) 0"

text \<open>The value of the characters in the buffer; \<open>None\<close> is the message that the number is not valid.\<close>

definition parse_int :: "byte list \<Rightarrow> int \<Rightarrow> (32 word) option result" where
  "parse_int buf numbytes =
     bind_r (arr_get buf 0) (\<lambda>c0.
     let isNegative = (c0 = 45); firstIndex = (if isNegative then 1 else 0)
     in bind_r (scan_int buf firstIndex (nat (numbytes - int firstIndex)) (int firstIndex)) (\<lambda>r.
       case r of None \<Rightarrow> Inr None
       | Some lastIndex \<Rightarrow>
           bind_r (parse_digits buf firstIndex lastIndex) (\<lambda>number.
           Inr (Some (if isNegative then - number else number)))))"

definition handle_SC_ReadInt :: "'z os_scheme sysenv \<Rightarrow> 'z os_scheme \<Rightarrow> 'z os_scheme result" where
  "handle_SC_ReadInt e k =
     bind_r (console_read e 255 k) (\<lambda>(numbytes, bs, k1).
     bind_r (parse_int (bs @ [se_byte e]) numbytes) (\<lambda>r.
     Machine_WriteRegister 2 (case r of None \<Rightarrow> 0 | Some number \<Rightarrow> number) k1))"

text \<open>\<^verbatim>\<open>while (tmp) { numLength++; tmp /= 10; }\<close>\<close>

function num_length :: "int \<Rightarrow> nat" where
  "num_length tmp = (if tmp = 0 then 0 else Suc (num_length (c_div tmp 10)))"
  by auto
termination
proof (relation "measure (\<lambda>tmp. nat \<bar>tmp\<bar>)")
  fix tmp :: int
  assume "tmp \<noteq> 0"
  then show "(c_div tmp 10, tmp) \<in> measure (\<lambda>tmp. nat \<bar>tmp\<bar>)" by (auto simp: c_div_def abs_mult)
qed simp

declare num_length.simps [simp del]

text \<open>The digits, from the last one on; \<open>n\<close> is the number of digits still to be stored.\<close>

fun put_digits :: "nat \<Rightarrow> nat \<Rightarrow> int \<Rightarrow> byte list \<Rightarrow> byte list result" where
  "put_digits firstIndex 0 number buf = Inr buf"
| "put_digits firstIndex (Suc n) number buf =
     bind_r (arr_set buf (int (firstIndex + n)) (of_int (c_mod number 10 + 48)))
       (put_digits firstIndex n (c_div number 10))"

definition handle_SC_PrintInt :: "'z os_scheme sysenv \<Rightarrow> 'z os_scheme \<Rightarrow> 'z os_scheme result" where
  "handle_SC_PrintInt e k =
     bind_r (Machine_ReadRegister 4 k) (\<lambda>w.
       if w = 0 then console_write e [48, 0] 1 k
       else
         let isNegative = (w <s 0); number = sint (if isNegative then - w else w);
             firstIndex = (if isNegative then 1 else 0); numLength = num_length number
         in bind_r (put_digits firstIndex numLength number (replicate 256 (se_byte e))) (\<lambda>buf.
            if isNegative
            then bind_r (arr_set buf 0 45) (\<lambda>buf1.
                 bind_r (arr_set buf1 (int numLength + 1) 0) (\<lambda>buf2. console_write e buf2 (int numLength + 1) k))
            else bind_r (arr_set buf (int numLength) 0) (\<lambda>buf1. console_write e buf1 (int numLength) k)))"

section \<open>Floating point numbers\<close>

definition f_bin :: "('s sysenv) \<Rightarrow> (rat \<Rightarrow> rat \<Rightarrow> rat) \<Rightarrow> rat option \<Rightarrow> rat option \<Rightarrow> rat option" where
  "f_bin e f a b = Option.bind a (\<lambda>x. Option.bind b (\<lambda>y. se_rnd e (f x y)))"

definition int_to_float :: "'s sysenv \<Rightarrow> int \<Rightarrow> rat option" where
  "int_to_float e i = se_rnd e (of_int i)"

text \<open>Conversion to \<^verbatim>\<open>int\<close> cuts off the fraction; outside the range of \<^verbatim>\<open>int\<close> it is undefined.\<close>

definition float_to_int :: "rat option \<Rightarrow> int result" where
  "float_to_int x = (case x of None \<Rightarrow> Inl OutOfBounds
     | Some v \<Rightarrow> let i = (if v < 0 then - \<lfloor>- v\<rfloor> else \<lfloor>v\<rfloor>) in
         if - (2 ^ 31) \<le> i \<and> i < 2 ^ 31 then Inr i else Inl OutOfBounds)"

text \<open>The check of the characters: \<open>None\<close> where the handler halts the machine.\<close>

fun scan_float :: "byte list \<Rightarrow> nat \<Rightarrow> nat \<Rightarrow> nat \<Rightarrow> nat \<Rightarrow> nat option result" where
  "scan_float buf i 0 dotCount lastIndex = Inr (Some lastIndex)"
| "scan_float buf i (Suc n) dotCount lastIndex =
     bind_r (arr_get buf (int i)) (\<lambda>c.
       if c = 46 then (if dotCount + 1 > 1 then Inr None else scan_float buf (Suc i) n (dotCount + 1) i)
       else if (c <s 48 \<or> 57 <s c) \<and> c \<noteq> 45 then Inr None
       else scan_float buf (Suc i) n dotCount i)"

text \<open>The loop from the last character back to the first; \<open>n\<close> characters are left.\<close>

fun sum_digits :: "'s sysenv \<Rightarrow> byte list \<Rightarrow> nat \<Rightarrow> nat \<Rightarrow> rat option \<Rightarrow> rat option \<Rightarrow> rat option result" where
  "sum_digits e buf firstIndex 0 number multiplier = Inr number"
| "sum_digits e buf firstIndex (Suc n) number multiplier =
     bind_r (arr_get buf (int (firstIndex + n))) (\<lambda>c.
       if c = 46 \<or> c = 45 then sum_digits e buf firstIndex n number multiplier
       else sum_digits e buf firstIndex n
              (f_bin e (+) number (f_bin e (*) (int_to_float e (sint c - 48)) multiplier))
              (f_bin e (*) multiplier (Some 10)))"

definition handle_SC_ReadFloat :: "'z os_scheme sysenv \<Rightarrow> 'z os_scheme \<Rightarrow> 'z os_scheme result" where
  "handle_SC_ReadFloat e k =
     bind_r (console_read e 255 k) (\<lambda>(numbytes, bs, k1).
     let buf = bs @ [se_byte e] in
     bind_r (arr_get buf 0) (\<lambda>c0.
     let isNegative = (c0 = 45); firstIndex = (if isNegative then 1 else 0)
     in bind_r (scan_float buf firstIndex (nat (numbytes - int firstIndex)) 0 firstIndex) (\<lambda>r.
       case r of
         None \<Rightarrow> bind_r (Machine_WriteRegister 2 0 k1) (\<lambda>k2. bind_r (IncrementR k2) Interrupt_Halt)
       | Some lastIndex \<Rightarrow>
           bind_r (sum_digits e buf firstIndex (lastIndex + 1 - firstIndex) (Some 0) (Some 1)) (\<lambda>number.
           bind_r (float_to_int (if isNegative then f_bin e (*) number (Some (- 1)) else number)) (\<lambda>v.
           Machine_WriteRegister 2 (of_int v) k1)))))"

text \<open>The number of digits after the point, and what is left of the fraction.\<close>

fun frac_loop :: "'s sysenv \<Rightarrow> nat \<Rightarrow> nat \<Rightarrow> rat option \<Rightarrow> (nat \<times> rat option) result" where
  "frac_loop e i 0 fracPart = Inr (6, fracPart)"
| "frac_loop e i (Suc n) fracPart =
     (let f = f_bin e (*) fracPart (Some 10) in
      bind_r (float_to_int f) (\<lambda>v. if v = 0 then Inr (i, f) else frac_loop e (Suc i) n f))"

text \<open>\<^verbatim>\<open>do { buffer[idx++] = '0' + (int)number % 10; number /= 10; } while ((int)number != 0);\<close>\<close>

fun int_digits :: "'s sysenv \<Rightarrow> nat \<Rightarrow> nat \<Rightarrow> rat option \<Rightarrow> byte list \<Rightarrow> byte list result" where
  "int_digits e 0 idx number buf = Inl Diverges"
| "int_digits e (Suc fuel) idx number buf =
     bind_r (float_to_int number) (\<lambda>v.
     bind_r (arr_set buf (int idx) (of_int (48 + c_mod v 10))) (\<lambda>buf1.
     let number1 = f_bin e (/) number (Some 10) in
     bind_r (float_to_int number1) (\<lambda>v1. if v1 \<noteq> 0 then int_digits e fuel (Suc idx) number1 buf1 else Inr buf1)))"

definition swap_at :: "nat \<Rightarrow> nat \<Rightarrow> byte list \<Rightarrow> byte list result" where
  "swap_at i j buf =
     bind_r (arr_get buf (int i)) (\<lambda>temp.
     bind_r (arr_get buf (int j)) (\<lambda>b.
     bind_r (arr_set buf (int i) b) (\<lambda>buf1. arr_set buf1 (int j) temp)))"

fun frac_digits :: "'s sysenv \<Rightarrow> nat \<Rightarrow> nat \<Rightarrow> rat option \<Rightarrow> byte list \<Rightarrow> byte list result" where
  "frac_digits e pos 0 fracPart buf = Inr buf"
| "frac_digits e pos (Suc n) fracPart buf =
     bind_r (float_to_int fracPart) (\<lambda>v.
     bind_r (arr_set buf (int pos) (of_int (48 + c_mod v 10)))
       (frac_digits e (Suc pos) n (f_bin e (/) fracPart (Some 10))))"

text \<open>The characters \<^verbatim>\<open>PrintFloat\<close> writes for a number that is not zero.\<close>

definition format_float :: "'s sysenv \<Rightarrow> bool \<Rightarrow> rat option \<Rightarrow> (byte list \<times> nat) result" where
  "format_float e isNegative number =
     bind_r (float_to_int number) (\<lambda>whole.
     let intLength = (if whole = 0 then 1 else num_length whole) in
     bind_r (frac_loop e 0 6 (f_bin e (-) number (int_to_float e whole))) (\<lambda>(fracLength, fracPart).
     let totalLength = intLength + 1 + fracLength in
     bind_r (int_digits e (totalLength + 2) 0 number (replicate (totalLength + 1) (se_byte e))) (\<lambda>buf.
     bind_r (for_loop 0 (intLength div 2) (\<lambda>i. swap_at i (intLength - i - 1)) buf) (\<lambda>buf1.
     bind_r (arr_set buf1 (int intLength) 46) (\<lambda>buf2.
     bind_r (frac_digits e (intLength + 1) fracLength fracPart buf2) (\<lambda>buf3.
     bind_r (arr_set buf3 (int totalLength) 0) (\<lambda>buf4.
     bind_r (if isNegative then arr_set buf4 0 45 else Inr buf4) (\<lambda>buf5.
     Inr (buf5, totalLength)))))))))"

definition handle_SC_PrintFloat :: "'z os_scheme sysenv \<Rightarrow> 'z os_scheme \<Rightarrow> 'z os_scheme result" where
  "handle_SC_PrintFloat e k =
     bind_r (Machine_ReadRegister 4 k) (\<lambda>w.
     let number = int_to_float e (sint w) in
     if number = Some 0 then bind_r (console_write e [48, 46, 48, 0] 3 k) IncrementR
     else
       let isNegative = (case number of Some v \<Rightarrow> v < 0 | None \<Rightarrow> False)
       in bind_r (format_float e isNegative (if isNegative then map_option uminus number else number)) (\<lambda>(buf, n).
          console_write e buf (int n) k))"

section \<open>Characters and strings\<close>

definition handle_SC_ReadChar :: "'z os_scheme sysenv \<Rightarrow> 'z os_scheme \<Rightarrow> 'z os_scheme result" where
  "handle_SC_ReadChar e k =
     bind_r (console_read e 255 k) (\<lambda>(numBytes, bs, k1).
       if numBytes > 1 \<or> numBytes = 0 then bind_r (Machine_WriteRegister 2 0 k1) Interrupt_Halt
       else bind_r (arr_get bs 0) (\<lambda>c. Machine_WriteRegister 2 (scast c) k1))"

definition handle_SC_PrintChar :: "'z os_scheme sysenv \<Rightarrow> 'z os_scheme \<Rightarrow> 'z os_scheme result" where
  "handle_SC_PrintChar e k =
     bind_r (Machine_ReadRegister 4 k) (\<lambda>w. console_write e [ucast w] 1 k)"

definition handle_SC_ReadString :: "'z os_scheme sysenv \<Rightarrow> 'z os_scheme \<Rightarrow> 'z os_scheme result" where
  "handle_SC_ReadString e k =
     bind_r (Machine_ReadRegister 4 k) (\<lambda>virtAddr.
     bind_r (Machine_ReadRegister 5 k) (\<lambda>len.
     bind_r (user_string e virtAddr (sint len) k) (\<lambda>(buffer, k1).
     bind_r (console_read e (sint len) k1) (\<lambda>(_, bs, k2).
     bind_r (Machine_System2User fault_handler virtAddr (sint len) (bs @ drop (length bs) buffer) k2) (\<lambda>(_, k3).
     Inr k3)))))"

text \<open>\<^verbatim>\<open>while (buffer[length] != 0) length++;\<close>\<close>

definition string_length :: "byte list \<Rightarrow> nat result" where
  "string_length buf = (if 0 \<in> set buf then Inr (length (takeWhile (\<lambda>b. b \<noteq> 0) buf)) else Inl OutOfBounds)"

definition handle_SC_PrintString :: "'z os_scheme sysenv \<Rightarrow> 'z os_scheme \<Rightarrow> 'z os_scheme result" where
  "handle_SC_PrintString e k =
     bind_r (Machine_ReadRegister 4 k) (\<lambda>virtAddr.
     bind_r (user_string e virtAddr 255 k) (\<lambda>(buffer, k1).
     bind_r (string_length buffer) (\<lambda>len. console_write e buffer (int len + 1) k1)))"

end
