(* ===== verification/Syscalls.thy ===== *)
theory Syscalls
  imports Proc_Correct Console_Calls
begin

text \<open>
  The system calls on files, processes and semaphores of \<^verbatim>\<open>userprog/exception.cc\<close>, and
  \<^verbatim>\<open>ExceptionHandler\<close>, which dispatches them.  \<^verbatim>\<open>User2System\<close> never returns \<^verbatim>\<open>NULL\<close>, since \<^verbatim>\<open>new\<close> does not,
  so the branches for that are left out.
\<close>

section \<open>System call numbers\<close>

definition SC_Halt :: "32 word" where "SC_Halt = 0"
definition SC_Exit :: "32 word" where "SC_Exit = 1"
definition SC_Exec :: "32 word" where "SC_Exec = 2"
definition SC_Join :: "32 word" where "SC_Join = 3"
definition SC_ReadInt :: "32 word" where "SC_ReadInt = 11"
definition SC_PrintInt :: "32 word" where "SC_PrintInt = 12"
definition SC_ReadFloat :: "32 word" where "SC_ReadFloat = 13"
definition SC_PrintFloat :: "32 word" where "SC_PrintFloat = 14"
definition SC_ReadChar :: "32 word" where "SC_ReadChar = 15"
definition SC_PrintChar :: "32 word" where "SC_PrintChar = 16"
definition SC_ReadString :: "32 word" where "SC_ReadString = 17"
definition SC_PrintString :: "32 word" where "SC_PrintString = 18"
definition SC_CreateFile :: "32 word" where "SC_CreateFile = 19"
definition SC_OpenFile :: "32 word" where "SC_OpenFile = 20"
definition SC_ReadFile :: "32 word" where "SC_ReadFile = 21"
definition SC_WriteFile :: "32 word" where "SC_WriteFile = 22"
definition SC_CloseFile :: "32 word" where "SC_CloseFile = 23"
definition SC_CreateSemaphore :: "32 word" where "SC_CreateSemaphore = 24"
definition SC_Up :: "32 word" where "SC_Up = 25"
definition SC_Down :: "32 word" where "SC_Down = 26"

lemmas SC_defs = SC_Halt_def SC_Exit_def SC_Exec_def SC_Join_def SC_ReadInt_def SC_PrintInt_def SC_ReadFloat_def
  SC_PrintFloat_def SC_ReadChar_def SC_PrintChar_def SC_ReadString_def SC_PrintString_def SC_CreateFile_def
  SC_OpenFile_def SC_ReadFile_def SC_WriteFile_def SC_CloseFile_def SC_CreateSemaphore_def SC_Up_def SC_Down_def

section \<open>Files\<close>

abbreviation set_r2 :: "int \<Rightarrow> 'z hw_scheme \<Rightarrow> 'z hw_scheme result" where
  "set_r2 v \<equiv> Machine_WriteRegister 2 (of_int v)"

text \<open>\<^verbatim>\<open>Create\<close> returns a \<^verbatim>\<open>bool\<close>, converted to an \<^verbatim>\<open>int\<close> and compared with \<open>-1\<close>.\<close>

definition handle_SC_CreateFile :: "'z os_scheme sysenv \<Rightarrow> 'z os_scheme \<Rightarrow> 'z os_scheme result" where
  "handle_SC_CreateFile e k =
     bind_r (Machine_ReadRegister 4 k) (\<lambda>virtualAddr.
     bind_r (user_string e virtualAddr MAX_FILENAME_LEN k) (\<lambda>(fname, k1).
       if c_string fname = [] then set_r2 (- 1) k1
       else
         bind_r (FileSystem_Create (c_string fname) k1) (\<lambda>(created, k2).
         let succ = (if created then 1 else 0) :: int in
         bind_r (if succ = - 1 then set_r2 (- 1) k2 else Inr k2) (set_r2 0))))"

text \<open>What the read and write calls do with the count: 0 is reported as \<open>-2\<close> and rewinds the file.\<close>

definition report_count :: "int \<Rightarrow> nat option \<Rightarrow> 'z os_scheme \<Rightarrow> 'z os_scheme result" where
  "report_count nbytes f k =
     (if nbytes = 0
      then bind_r (set_r2 (- 2) k) (\<lambda>k1. case f of None \<Rightarrow> Inr k1 | Some p \<Rightarrow> OpenFile_CurPos_set p 0 k1)
      else set_r2 nbytes k)"

text \<open>The bytes of a read stored at the start of \<^verbatim>\<open>buffer\<close>, which has \<open>MAX_FILECONTENT_LEN\<close> bytes.\<close>

definition into_buffer :: "'s sysenv \<Rightarrow> byte list \<Rightarrow> byte list result" where
  "into_buffer e bs =
     (if length bs \<le> MAX_FILECONTENT_LEN then Inr (bs @ replicate (MAX_FILECONTENT_LEN - length bs) (se_byte e))
      else Inl OutOfBounds)"

definition finish_read :: "'z os_scheme sysenv \<Rightarrow> 32 word \<Rightarrow> nat option \<Rightarrow> int \<times> byte list \<times> 'z os_scheme \<Rightarrow>
    'z os_scheme result" where
  "finish_read e virtualAddress f = (\<lambda>(nbytes, bs, k).
     bind_r (into_buffer e bs) (\<lambda>buffer.
     bind_r (report_count nbytes f k) (\<lambda>k1.
     bind_r (Machine_System2User fault_handler virtualAddress nbytes buffer k1) (\<lambda>(_, k2). Inr k2))))"

definition handle_SC_ReadFile :: "'z os_scheme sysenv \<Rightarrow> 'z os_scheme \<Rightarrow> 'z os_scheme result" where
  "handle_SC_ReadFile e k =
     bind_r (Machine_ReadRegister 4 k) (\<lambda>virtualAddress.
     bind_r (Machine_ReadRegister 5 k) (\<lambda>w5. let charcount = sint w5 in
     bind_r (Machine_ReadRegister 6 k) (\<lambda>w6. let fileid = sint w6 in
       if fileid = 0 then bind_r (console_read e charcount k) (finish_read e virtualAddress None)
       else if fileid = 1 then set_r2 (- 1) k
       else if fileid < 0 \<or> fileid \<ge> N_FILES_IN_TABLE then set_r2 (- 1) k
       else bind_r (arr_get (file_table k) fileid) (\<lambda>slot.
         case slot of None \<Rightarrow> set_r2 (- 1) k
         | Some f \<Rightarrow>
             bind_r (obj (files k) f) (\<lambda>file.
             if of_type file \<noteq> Some 0 then set_r2 (- 1) k
             else bind_r (OpenFile_Read f charcount k) (finish_read e virtualAddress (Some f)))))))"

definition handle_SC_WriteFile :: "'z os_scheme sysenv \<Rightarrow> 'z os_scheme \<Rightarrow> 'z os_scheme result" where
  "handle_SC_WriteFile e k =
     bind_r (Machine_ReadRegister 4 k) (\<lambda>virtualAddress.
     bind_r (Machine_ReadRegister 5 k) (\<lambda>w5. let charcount = sint w5 in
     bind_r (Machine_ReadRegister 6 k) (\<lambda>w6. let fileid = sint w6 in
     bind_r (user_string e virtualAddress charcount k) (\<lambda>(buffer, k1).
       if fileid = 0 then set_r2 (- 1) k1
       else if fileid = 1
       then bind_r (console_write e buffer (charcount + 1) k1) (report_count (charcount + 1) None)
       else if fileid < 0 \<or> fileid \<ge> N_FILES_IN_TABLE then set_r2 (- 1) k1
       else bind_r (arr_get (file_table k1) fileid) (\<lambda>slot.
         case slot of None \<Rightarrow> set_r2 (- 1) k1
         | Some f \<Rightarrow>
             bind_r (string_length buffer) (\<lambda>len.
             bind_r (OpenFile_Write f buffer (min (charcount + 1) (int len)) k1) (\<lambda>(nbytes, k2).
             report_count nbytes (Some f) k2)))))))"

definition handle_SC_CloseFile :: "'z os_scheme \<Rightarrow> 'z os_scheme result" where
  "handle_SC_CloseFile k =
     bind_r (Machine_ReadRegister 4 k) (\<lambda>w. let fileid = sint w in
       if fileid = 0 then set_r2 (- 1) k
       else if fileid = 1 then set_r2 (- 1) k
       else if fileid < 0 \<or> fileid \<ge> N_FILES_IN_TABLE then set_r2 (- 1) k
       else bind_r (arr_get (file_table k) fileid) (\<lambda>slot.
         case slot of None \<Rightarrow> set_r2 (- 1) k
         | Some f \<Rightarrow>
             bind_r (OpenFile_delete f k) (\<lambda>k1.
             bind_r (arr_set (file_table k1) fileid None) (\<lambda>tab.
             set_r2 0 (k1\<lparr>file_table := tab\<rparr>)))))"

definition handle_SC_OpenFile :: "'z os_scheme sysenv \<Rightarrow> 'z os_scheme \<Rightarrow> 'z os_scheme result" where
  "handle_SC_OpenFile e k =
     bind_r (Machine_ReadRegister 4 k) (\<lambda>virAddr_name.
     bind_r (Machine_ReadRegister 5 k) (\<lambda>w5. let type = sint w5 in
       if type \<noteq> 0 \<and> type \<noteq> 1 \<and> type \<noteq> 2 \<and> type \<noteq> 3 then set_r2 (- 1) k
       else bind_r (user_string e virAddr_name MAX_FILENAME_LEN k) (\<lambda>(buf, k1). let fname = c_string buf in
         if fname = ''stdin'' \<or> type = 2
         then (if fname = ''stdin'' \<and> type = 2 then set_r2 0 k1 else set_r2 (- 1) k1)
         else if fname = ''stdout'' \<or> type = 3
         then (if fname = ''stdout'' \<and> type = 3 then set_r2 1 k1 else set_r2 (- 1) k1)
         else bind_r (FileSystem_Open_type fname type k1) (\<lambda>(f, k2).
           if f = - 1 then set_r2 (- 1) k2 else set_r2 f k2))))"

section \<open>Processes and semaphores\<close>

definition handle_SC_Join :: "'z os_scheme sysenv \<Rightarrow> 'z os_scheme \<Rightarrow> 'z os_scheme result" where
  "handle_SC_Join e k =
     bind_r (Machine_ReadRegister 4 k) (\<lambda>w.
     bind_r (PTable_JoinUpdate (se_calls e) (sint w) k) (\<lambda>(res, k1). set_r2 res k1))"

text \<open>\<^verbatim>\<open>currentThread->FreeSpace(); currentThread->Finish();\<close> after \<^verbatim>\<open>ExitUpdate\<close> has returned.\<close>

definition handle_SC_Exit :: "'z os_scheme sysenv \<Rightarrow> 'z os_scheme \<Rightarrow> (unit, 'z os_scheme) flow result" where
  "handle_SC_Exit e k =
     bind_r (Machine_ReadRegister 4 k) (\<lambda>w. let exitStatus = sint w in
       if exitStatus \<noteq> 0 then Inr (Back () k)
       else bind_f (PTable_ExitUpdate (se_calls e) exitStatus k) (\<lambda>res k1.
            bind_r (Thread_FreeSpace (currentThread k1) k1) (\<lambda>k2.
            bind_r (cFinish (se_calls e) (currentThread k2) k2) (\<lambda>k3. Inr (Gone k3)))))"

definition handle_SC_CreateSemaphore :: "'z os_scheme sysenv \<Rightarrow> 'z os_scheme \<Rightarrow> 'z os_scheme result" where
  "handle_SC_CreateSemaphore e k =
     bind_r (Machine_ReadRegister 4 k) (\<lambda>virtAddr.
     bind_r (Machine_ReadRegister 5 k) (\<lambda>semval.
     bind_r (user_string e virtAddr (MAX_FILENAME_LEN + 1) k) (\<lambda>(name, k1).
     bind_r (STable_Create (c_string name) (sint semval) k1) (\<lambda>(res, k2).
       if res = - 1 then set_r2 (- 1) k2 else set_r2 res k2))))"

definition handle_SC_Up :: "'z os_scheme sysenv \<Rightarrow> 'z os_scheme \<Rightarrow> 'z os_scheme result" where
  "handle_SC_Up e k =
     bind_r (Machine_ReadRegister 4 k) (\<lambda>virtAddr.
     bind_r (user_string e virtAddr (MaxFileLength + 1) k) (\<lambda>(name, k1).
     bind_r (STable_Signal (cV (se_calls e)) (c_string name) k1) (\<lambda>(res, k2).
       if res = - 1 then set_r2 (- 1) k2 else set_r2 res k2)))"

definition handle_SC_Down :: "'z os_scheme sysenv \<Rightarrow> 'z os_scheme \<Rightarrow> 'z os_scheme result" where
  "handle_SC_Down e k =
     bind_r (Machine_ReadRegister 4 k) (\<lambda>virtAddr.
     bind_r (user_string e virtAddr (MaxFileLength + 1) k) (\<lambda>(name, k1).
     bind_r (STable_Wait (cP (se_calls e)) (c_string name) k1) (\<lambda>(res, k2).
       if res = - 1 then set_r2 (- 1) k2 else set_r2 res k2)))"

definition handle_SC_Exec :: "'z os_scheme sysenv \<Rightarrow> 'z os_scheme \<Rightarrow> 'z os_scheme result" where
  "handle_SC_Exec e k =
     bind_r (Machine_ReadRegister 4 k) (\<lambda>virtAddr.
     bind_r (user_string e virtAddr MAX_FILENAME_LEN k) (\<lambda>(buf, k1). let name = c_string buf in
     bind_r (FileSystem_Open name k1) (\<lambda>(f, k2).
       case f of None \<Rightarrow> set_r2 (- 1) k2
       | Some p \<Rightarrow>
           bind_r (OpenFile_delete p k2) (\<lambda>k3.
           bind_r (PTable_ExecUpdate (se_calls e) (Some name) k3) (\<lambda>(pID, k4). set_r2 pID k4)))))"

section \<open>Dispatch\<close>

definition to_flow :: "'s result \<Rightarrow> (unit, 's) flow result" where
  "to_flow r = bind_r r (\<lambda>k. Inr (Back () k))"

text \<open>The handlers called from the inner \<^verbatim>\<open>switch\<close>, apart from \<^const>\<open>SC_Halt\<close>; \<open>None\<close> is a number without a case.\<close>

definition syscall_case :: "'z os_scheme sysenv \<Rightarrow> 32 word \<Rightarrow> 'z os_scheme \<Rightarrow>
    (unit, 'z os_scheme) flow result option" where
  "syscall_case e type k =
     (if type = SC_CreateFile then Some (to_flow (handle_SC_CreateFile e k))
      else if type = SC_OpenFile then Some (to_flow (handle_SC_OpenFile e k))
      else if type = SC_CloseFile then Some (to_flow (handle_SC_CloseFile k))
      else if type = SC_ReadFile then Some (to_flow (handle_SC_ReadFile e k))
      else if type = SC_WriteFile then Some (to_flow (handle_SC_WriteFile e k))
      else if type = SC_ReadInt then Some (to_flow (handle_SC_ReadInt e k))
      else if type = SC_PrintInt then Some (to_flow (handle_SC_PrintInt e k))
      else if type = SC_ReadFloat then Some (to_flow (handle_SC_ReadFloat e k))
      else if type = SC_PrintFloat then Some (to_flow (handle_SC_PrintFloat e k))
      else if type = SC_ReadChar then Some (to_flow (handle_SC_ReadChar e k))
      else if type = SC_PrintChar then Some (to_flow (handle_SC_PrintChar e k))
      else if type = SC_ReadString then Some (to_flow (handle_SC_ReadString e k))
      else if type = SC_PrintString then Some (to_flow (handle_SC_PrintString e k))
      else if type = SC_Join then Some (to_flow (handle_SC_Join e k))
      else if type = SC_Exit then Some (handle_SC_Exit e k)
      else if type = SC_CreateSemaphore then Some (to_flow (handle_SC_CreateSemaphore e k))
      else if type = SC_Up then Some (to_flow (handle_SC_Up e k))
      else if type = SC_Down then Some (to_flow (handle_SC_Down e k))
      else if type = SC_Exec then Some (to_flow (handle_SC_Exec e k))
      else None)"

definition ExceptionHandler_flow :: "'z os_scheme sysenv \<Rightarrow> ExceptionType \<Rightarrow> 'z os_scheme \<Rightarrow>
    (unit, 'z os_scheme) flow result" where
  "ExceptionHandler_flow e which k =
     bind_r (Machine_ReadRegister 2 k) (\<lambda>type.
       if which = PageFaultException then to_flow (Interrupt_Halt k)
       else if which = SyscallException then
         (if type = SC_Halt then to_flow (Interrupt_Halt k)
          else case syscall_case e type k of
                 None \<Rightarrow> Inr (Back () k)
               | Some r \<Rightarrow> bind_f r (\<lambda>_ k1. to_flow (IncrementR k1)))
       else Inr (Back () k))"

text \<open>The handler as the machine calls it: a thread that has exited does not come back.\<close>

definition ExceptionHandler :: "'z os_scheme sysenv \<Rightarrow> 'z os_scheme handler" where
  "ExceptionHandler e which k =
     bind_r (ExceptionHandler_flow e which k) (\<lambda>r. case r of Back _ k1 \<Rightarrow> Inr k1 | Gone _ \<Rightarrow> Inl ThreadGone)"

end
