(* ===== verification/Console_Correct.thy ===== *)
theory Console_Correct
  imports Console_Calls
begin

text \<open>
  What the console calls compute: \<^verbatim>\<open>PrintInt\<close> writes the decimal representation of its argument and
  \<^verbatim>\<open>ReadInt\<close> reads it back; which inputs \<^verbatim>\<open>ReadInt\<close> rejects; and what \<^verbatim>\<open>ReadFloat\<close> makes of a decimal point.
\<close>

section \<open>Decimal representation\<close>

definition to_bytes :: "string \<Rightarrow> byte list" where
  "to_bytes s = map (\<lambda>c. of_nat (of_char c)) s"

lemma to_bytes_simps [simp]:
  "to_bytes [] = []" "to_bytes (a @ b) = to_bytes a @ to_bytes b" "length (to_bytes a) = length a"
  "to_bytes (c # s) = of_nat (of_char c) # to_bytes s"
  by (simp_all add: to_bytes_def)

definition digit :: "byte \<Rightarrow> bool" where "digit b \<longleftrightarrow> 48 \<le> uint b \<and> uint b \<le> 57"

lemma digit_of_nat: "d < 10 \<Longrightarrow> digit (48 + of_nat d)" "d < 10 \<Longrightarrow> (of_char (char_of (48 + d) :: char) :: nat) = 48 + d"
proof -
  assume d: "d < 10"
  have "uint (48 + of_nat d :: byte) = 48 + int d"
    using d by (simp add: uint_word_ariths take_bit_eq_mod unsigned_of_nat)
  then show "digit (48 + of_nat d)" using d by (simp add: digit_def)
  show "(of_char (char_of (48 + d) :: char) :: nat) = 48 + d" using d by simp
qed

lemma decimal_pos: "decimal n \<noteq> []"
  by (subst decimal.simps) simp

lemma decimal_digits: "b \<in> set (to_bytes (decimal n)) \<Longrightarrow> digit b"
proof (induction n rule: decimal.induct)
  case (1 n)
  show ?case
  proof (cases "n < 10")
    case True
    with 1 show ?thesis by (subst (asm) (2) decimal.simps) (simp add: digit_of_nat)
  next
    case False
    with 1 show ?thesis by (subst (asm) (2) decimal.simps) (auto simp: digit_of_nat)
  qed
qed

lemma c_div_nat [simp]: "c_div (int m) 10 = int (m div 10)" "c_mod (int m) 10 = int (m mod 10)"
  by (simp_all add: zdiv_int zmod_int)

lemma num_length_decimal: "0 < m \<Longrightarrow> num_length (int m) = length (decimal m)"
proof (induction m rule: decimal.induct)
  case (1 m)
  show ?case
  proof (cases "m < 10")
    case True
    with 1 show ?thesis by (subst num_length.simps, subst num_length.simps, subst decimal.simps) simp
  next
    case False
    then have "0 < m div 10" by simp
    with 1 False show ?thesis by (subst num_length.simps, subst decimal.simps) simp
  qed
qed

lemma put_digits_decimal:
  "f + length (decimal m) \<le> length buf \<Longrightarrow>
   put_digits f (length (decimal m)) (int m) buf =
     Inr (take f buf @ to_bytes (decimal m) @ drop (f + length (decimal m)) buf)"
proof (induction m arbitrary: buf rule: decimal.induct)
  case (1 m)
  show ?case
  proof (cases "m < 10")
    case True
    then have d: "decimal m = [char_of (48 + m)]" by (simp add: decimal.simps)
    show ?thesis using 1 True by (simp add: d digit_of_nat upd_conv_take_nth_drop add.commute)
  next
    case False
    then have d: "decimal m = decimal (m div 10) @ [char_of (48 + m mod 10)]" by (simp add: decimal.simps)
    let ?n = "length (decimal (m div 10))" and ?b = "of_nat (m mod 10) + 48 :: byte"
    let ?buf = "buf[f + ?n := ?b]"
    have i: "f + ?n < length buf" using 1(2) by (simp add: d)
    have "put_digits f ?n (int (m div 10)) ?buf = Inr (take f ?buf @ to_bytes (decimal (m div 10)) @ drop (f + ?n) ?buf)"
      using 1(1) [OF False, of ?buf] i by simp
    moreover have "drop (f + ?n) ?buf = ?b # drop (Suc (f + ?n)) buf"
      using i by (simp add: drop_update_swap Cons_nth_drop_Suc [symmetric])
    moreover have "arr_set buf (int f + int ?n) ?b = Inr ?buf" using arr_set_nat [OF i] by simp
    ultimately show ?thesis using digit_of_nat(2) [of "m mod 10"] by (simp add: d add.commute [of 48] del: of_char_of)
  qed
qed

section \<open>Reading digits\<close>

lemma for_loop_foldl:
  "i + n \<le> length buf \<Longrightarrow>
   for_loop i n (\<lambda>i s. bind_r (arr_get buf (int i)) (\<lambda>c. Inr (f s c))) s = Inr (foldl f s (take n (drop i buf)))"
proof (induction n arbitrary: i s)
  case (Suc n)
  then have "drop i buf = buf ! i # drop (Suc i) buf" by (simp add: Cons_nth_drop_Suc)
  with Suc show ?case by simp
qed simp

abbreviation add_digit :: "32 word \<Rightarrow> byte \<Rightarrow> 32 word" where
  "add_digit number c \<equiv> number * 10 + (scast c - 48)"

lemma scast_digit: "d < 10 \<Longrightarrow> scast (48 + of_nat d :: byte) - 48 = (of_nat d :: 32 word)"
proof -
  assume d: "d < 10"
  then have "uint (48 + of_nat d :: byte) = 48 + int d"
    by (simp add: uint_word_ariths take_bit_eq_mod unsigned_of_nat)
  then have "sint (48 + of_nat d :: byte) = 48 + int d" using d by (simp add: sint_uint signed_take_bit_int_eq_self)
  then show ?thesis by (simp add: scast_eq)
qed

lemma decimal_value: "foldl add_digit 0 (to_bytes (decimal m)) = of_nat m"
proof (induction m rule: decimal.induct)
  case (1 m)
  show ?case
  proof (cases "m < 10")
    case True
    then have d: "decimal m = [char_of (48 + m)]" by (simp add: decimal.simps)
    show ?thesis using True by (simp add: d digit_of_nat scast_digit del: of_char_of)
  next
    case False
    then have d: "decimal m = decimal (m div 10) @ [char_of (48 + m mod 10)]" by (simp add: decimal.simps)
    have "of_nat m = (of_nat (m div 10 * 10 + m mod 10) :: 32 word)" by simp
    then have "of_nat m = of_nat (m div 10) * 10 + (of_nat (m mod 10) :: 32 word)"
      by (simp only: of_nat_add of_nat_mult of_nat_numeral)
    then show ?thesis using 1 [OF False] by (simp add: d digit_of_nat scast_digit del: of_char_of)
  qed
qed

lemma never_both [simp]: "\<not> ((c :: byte) <s 48 \<and> 57 <s c)"
  by (simp add: word_sless_alt)

text \<open>Without a point, the loop runs to the end of the input, whatever the characters are.\<close>

lemma scan_int_no_point:
  "i + n \<le> length buf \<Longrightarrow> 46 \<notin> set (take n (drop i buf)) \<Longrightarrow>
   scan_int buf i n l = Inr (Some (if n = 0 then l else int (i + n) - 1))"
proof (induction n arbitrary: i l)
  case (Suc n)
  then have d: "drop i buf = buf ! i # drop (Suc i) buf" by (simp add: Cons_nth_drop_Suc)
  with Suc.prems have "buf ! i \<noteq> 46" "46 \<notin> set (take n (drop (Suc i) buf))" by auto
  moreover from this(2) Suc have "scan_int buf (Suc i) n (int i) = Inr (Some (if n = 0 then int i else int (Suc i + n) - 1))"
    by (intro Suc.IH) simp_all
  ultimately show ?case using Suc.prems(1) never_both [of "buf ! i"] by auto
qed simp

lemma digits_not_sign:
  "digit b \<Longrightarrow> b \<noteq> 46" "digit b \<Longrightarrow> b \<noteq> 45" "digit b \<Longrightarrow> b \<noteq> 0"
  by (auto simp: digit_def)

lemma parse_int_decimal:
  "parse_int (to_bytes (percent_d v) @ rest) (int (length (percent_d v))) = Inr (Some (of_int v))"
proof -
  define m where "m = nat \<bar>v\<bar>"
  define s where "s = to_bytes (decimal m)"
  have s: "s \<noteq> []" "length s = length (decimal m)" using decimal_pos [of m] by (auto simp: s_def to_bytes_def)
  have dg: "digit b" if "b \<in> set s" for b using decimal_digits that by (simp add: s_def)
  then have no: "46 \<notin> set s" "hd s \<noteq> 45" using s(1) digits_not_sign by (metis, metis hd_in_set)
  have val: "foldl add_digit 0 s = of_nat m" by (simp add: s_def decimal_value)
  show ?thesis
  proof (cases "v < 0")
    case True
    then have p: "percent_d v = CHR ''-'' # decimal m" by (simp add: percent_d_def m_def)
    have buf: "to_bytes (percent_d v) @ rest = 45 # s @ rest" by (simp add: p s_def)
    have sc: "scan_int (45 # s @ rest) 1 (length s) 1 = Inr (Some (int (length s)))"
      using no(1) s(1) by (subst scan_int_no_point) simp_all
    have "parse_digits (45 # s @ rest) 1 (int (length s)) = Inr (of_nat m)"
      by (simp add: parse_digits_def for_loop_foldl val)
    then show ?thesis using True sc s(2) unfolding buf
      by (simp add: parse_int_def Let_def p arr_get_def m_def)
  next
    case False
    then have p: "percent_d v = decimal m" by (simp add: percent_d_def m_def)
    have buf: "to_bytes (percent_d v) @ rest = s @ rest" by (simp add: p s_def)
    have sc: "scan_int (s @ rest) 0 (length s) 0 = Inr (Some (int (length s) - 1))"
      using no(1) s(1) by (subst scan_int_no_point) simp_all
    have "parse_digits (s @ rest) 0 (int (length s) - 1) = Inr (of_nat m)"
      by (simp add: parse_digits_def for_loop_foldl val)
    then show ?thesis using False sc s no(2) unfolding buf
      by (simp add: parse_int_def Let_def p arr_get_def m_def nth_append hd_conv_nth decimal_pos add_pos_nonneg)
  qed
qed

section \<open>Printing integers\<close>

lemma decimal_length: "m < 10 ^ n \<Longrightarrow> length (decimal m) \<le> max 1 n"
proof (induction n arbitrary: m)
  case 0
  then show ?case by (simp add: decimal.simps)
next
  case (Suc n)
  show ?case
  proof (cases "m < 10")
    case True
    then show ?thesis by (simp add: decimal.simps)
  next
    case False
    from Suc.prems have "m div 10 < 10 ^ n" by (simp add: less_mult_imp_div_less mult.commute)
    with Suc.IH [of "m div 10"] False Suc.prems show ?thesis
      by (subst decimal.simps) (cases n; simp)
  qed
qed

lemma sint_range: "- (2 ^ 31) \<le> sint (w :: 32 word)" "sint (w :: 32 word) < 2 ^ 31"
  using sint_ge [of w] sint_lt [of w] by simp_all

lemma sint_neg:
  assumes "(w :: 32 word) \<noteq> 0x80000000"
  shows "sint (- w) = - sint w"
proof -
  have "sint w \<noteq> - (2 ^ 31)"
  proof
    assume "sint w = - (2 ^ 31)"
    then have "(of_int (sint w) :: 32 word) = of_int (- (2 ^ 31))" by simp
    then show False using assms by simp
  qed
  then have "- (2 ^ 31) \<le> - sint w" "- sint w < 2 ^ 31" using sint_range [of w] by linarith+
  then show ?thesis by (simp add: sint_word_ariths signed_take_bit_int_eq_self)
qed

text \<open>The buffer that is written, for a number that is not zero.\<close>

lemma decimal_buffer:
  assumes "0 < m" "m < 2 ^ 31" "f \<le> 1"
  shows "put_digits f (num_length (int m)) (int m) (replicate 256 b) =
     Inr (replicate f b @ to_bytes (decimal m) @ replicate (256 - f - length (decimal m)) b)"
    and "f + length (decimal m) < 256"
proof -
  have "(2::nat) ^ 31 < 10 ^ 10" by simp
  then have "length (decimal m) \<le> 10" using decimal_length [of m 10] assms(2) by linarith
  with assms(3) show l: "f + length (decimal m) < 256" by simp
  show "put_digits f (num_length (int m)) (int m) (replicate 256 b) =
     Inr (replicate f b @ to_bytes (decimal m) @ replicate (256 - f - length (decimal m)) b)"
    using l assms(1,3) by (simp add: num_length_decimal put_digits_decimal min_def)
qed

text \<open>Storing the terminating zero does not change the characters before it.\<close>

lemma terminate_buffer:
  assumes "length s < length B" "take (length s) B = s"
  obtains rest where "arr_set B (int (length s)) 0 = Inr (s @ rest)"
proof
  have "take (length s) (B[length s := 0]) = s" using assms(2) by simp
  then have "s @ drop (length s) (B[length s := 0]) = B[length s := 0]" by (metis append_take_drop_id)
  then show "arr_set B (int (length s)) 0 = Inr (s @ drop (length s) (B[length s := 0]))" using assms(1) by simp
qed

lemma PrintInt_positive:
  assumes "sint (registers k 4) = int m" "0 < m"
  shows "\<exists>rest. handle_SC_PrintInt e k = console_write e (to_bytes (decimal m) @ rest) (int (length (decimal m))) k"
proof -
  have m: "m < 2 ^ 31" using sint_range [of "registers k 4"] assms(1) by simp
  have s: "\<not> registers k 4 <s 0" "registers k 4 \<noteq> 0" using assms by (auto simp: word_sless_alt)
  obtain B where B: "put_digits 0 (length (decimal m)) (int m) (replicate 256 (se_byte e)) = Inr B"
    "take (length (decimal m)) B = to_bytes (decimal m)" "length (decimal m) < length B"
    using decimal_buffer(1) [OF assms(2) m, of 0 "se_byte e"] decimal_buffer(2) [OF assms(2) m, of 0]
    by (simp add: num_length_decimal assms(2))
  obtain rest where "arr_set B (int (length (decimal m))) 0 = Inr (to_bytes (decimal m) @ rest)"
    using terminate_buffer [of "to_bytes (decimal m)" B] B(2,3) by auto
  then have "handle_SC_PrintInt e k = console_write e (to_bytes (decimal m) @ rest) (int (length (decimal m))) k"
    using s B(1) by (simp add: handle_SC_PrintInt_def Machine_ReadRegister_def reg_defs Let_def assms num_length_decimal)
  then show ?thesis ..
qed

lemma PrintInt_negative:
  assumes "sint (registers k 4) < 0" "sint (- registers k 4) = int m" "0 < m"
  shows "\<exists>rest. handle_SC_PrintInt e k =
    console_write e (45 # to_bytes (decimal m) @ rest) (int (length (decimal m)) + 1) k"
proof -
  have m: "m < 2 ^ 31" using sint_range [of "- registers k 4"] assms(2) by simp
  have s: "registers k 4 <s 0" "registers k 4 \<noteq> 0" using assms by (auto simp: word_sless_alt)
  obtain B where B: "put_digits 1 (length (decimal m)) (int m) (replicate 256 (se_byte e)) = Inr (se_byte e # B)"
    "take (length (decimal m)) B = to_bytes (decimal m)" "length (decimal m) < length B"
    using decimal_buffer(1) [OF assms(3) m, of 1 "se_byte e"] decimal_buffer(2) [OF assms(3) m, of 1]
    by (simp add: num_length_decimal assms(3))
  obtain rest where "arr_set (45 # B) (int (length (decimal m)) + 1) 0 = Inr (45 # to_bytes (decimal m) @ rest)"
    using terminate_buffer [of "45 # to_bytes (decimal m)" "45 # B"] B(2,3) by (auto simp: add.commute)
  moreover have "arr_set (se_byte e # B) 0 45 = Inr (45 # B)" by (simp add: arr_set_def)
  ultimately have "handle_SC_PrintInt e k =
      console_write e (45 # to_bytes (decimal m) @ rest) (int (length (decimal m)) + 1) k"
    using s B(1) by (simp add: handle_SC_PrintInt_def Machine_ReadRegister_def reg_defs Let_def assms num_length_decimal)
  then show ?thesis ..
qed

lemma PrintInt_writes:
  assumes "registers k 4 \<noteq> 0x80000000"
  shows "\<exists>rest. handle_SC_PrintInt e k =
    console_write e (to_bytes (percent_d (sint (registers k 4))) @ rest) (int (length (percent_d (sint (registers k 4))))) k"
proof -
  let ?w = "registers k 4"
  consider "?w = 0" | "sint ?w > 0" | "sint ?w < 0" using less_linear [of "sint ?w" 0] by (auto simp: signed_eq_0_iff)
  then show ?thesis
  proof cases
    case 1
    moreover have "to_bytes (percent_d 0) = [48]" "length (percent_d 0) = 1" by code_simp+
    ultimately show ?thesis
      by (intro exI [of _ "[0]"]) (simp add: handle_SC_PrintInt_def Machine_ReadRegister_def reg_defs)
  next
    case 2
    then show ?thesis using PrintInt_positive [of k "nat (sint ?w)" e] by (simp add: percent_d_def)
  next
    case 3
    then show ?thesis using PrintInt_negative [of k "nat (- sint ?w)" e] sint_neg [OF assms]
      by (simp add: percent_d_def add.commute)
  qed
qed

text \<open>
  C34: \<^verbatim>\<open>PrintInt\<close> and \<^verbatim>\<open>ReadInt\<close>.  For every value but the smallest one, the handler of \<^verbatim>\<open>PrintInt\<close> writes exactly
  the decimal representation of the number in register 4 to the console, with its sign and without
  leading zeros; and the conversion of \<^verbatim>\<open>ReadInt\<close> turns these characters, whatever follows them in the
  buffer, back into the same number.
\<close>

theorem PrintInt_ReadInt:
  assumes "registers k 4 \<noteq> 0x80000000"
  shows "\<exists>bs rest. bs = to_bytes (percent_d (sint (registers k 4))) \<and>
    handle_SC_PrintInt e k = console_write e (bs @ rest) (int (length bs)) k \<and>
    (\<forall>more. parse_int (bs @ more) (int (length bs)) = Inr (Some (registers k 4)))"
  using PrintInt_writes [OF assms, of e] parse_int_decimal [of "sint (registers k 4)"] by simp

text \<open>The smallest number has no opposite: its digits come out as other characters.\<close>

lemma PrintInt_smallest:
  "put_digits 1 (num_length (sint (- 0x80000000 :: 32 word))) (sint (- 0x80000000 :: 32 word)) [0,0,0,0,0,0,0,0,0,0,0] =
   Inr (0 # to_bytes ''./,),(-*,('')"
  by code_simp

section \<open>What is rejected\<close>

lemma all_zeros_eq:
  "j + n \<le> length buf \<Longrightarrow> all_zeros buf j n = Inr (\<forall>c \<in> set (take n (drop j buf)). c = 48)"
proof (induction n arbitrary: j)
  case (Suc n)
  then have "drop j buf = buf ! j # drop (Suc j) buf" by (simp add: Cons_nth_drop_Suc)
  with Suc show ?case by auto
qed simp

lemma scan_int_None:
  "i + n \<le> length buf \<Longrightarrow>
   \<exists>r. scan_int buf i n l = Inr r \<and>
     (r = None \<longleftrightarrow> (\<exists>c \<in> set (tl (dropWhile (\<lambda>c. c \<noteq> 46) (take n (drop i buf)))). c \<noteq> 48)) \<and>
     (\<forall>x. r = Some x \<longrightarrow> x < int (length buf) \<or> x = l)"
proof (induction n arbitrary: i l)
  case (Suc n)
  then have d: "drop i buf = buf ! i # drop (Suc i) buf" by (simp add: Cons_nth_drop_Suc)
  show ?case
  proof (cases "buf ! i = 46")
    case True
    then show ?thesis using Suc.prems by (auto simp: d all_zeros_eq)
  next
    case False
    have "\<exists>r. scan_int buf (Suc i) n (int i) = Inr r \<and>
       (r = None \<longleftrightarrow> (\<exists>c \<in> set (tl (dropWhile (\<lambda>c. c \<noteq> 46) (take n (drop (Suc i) buf)))). c \<noteq> 48)) \<and>
       (\<forall>x. r = Some x \<longrightarrow> x < int (length buf) \<or> x = int i)"
      by (rule Suc.IH) (use Suc.prems in simp)
    with False Suc.prems never_both [of "buf ! i"] show ?thesis by (auto simp: d)
  qed
qed simp

text \<open>
  C35: What \<^verbatim>\<open>ReadInt\<close> rejects.  For a line of 1 to 255 characters, the conversion always gives a result, and
  the number is reported as not valid exactly if, after a sign, there is a point and some character
  other than \<^verbatim>\<open>0\<close> after the first point.  In particular every line without a point is accepted, whatever
  its characters are, since the test for a digit is never true.
\<close>

theorem ReadInt_rejects:
  assumes "line \<noteq> []"
  shows "\<exists>r. parse_int (line @ [b]) (int (length line)) = Inr r \<and>
    (r = None \<longleftrightarrow> (\<exists>c \<in> set (tl (dropWhile (\<lambda>c. c \<noteq> 46) (if hd line = 45 then tl line else line))). c \<noteq> 48))"
proof -
  define i :: nat where "i = (if hd line = 45 then 1 else 0)"
  let ?n = "length line - i"
  have i: "i \<le> length line" using assms by (simp add: i_def Suc_leI)
  then have "i + ?n \<le> length (line @ [b])" by simp
  from scan_int_None [OF this, of "int i"] obtain r where
    r: "scan_int (line @ [b]) i ?n (int i) = Inr r"
      "r = None \<longleftrightarrow> (\<exists>c \<in> set (tl (dropWhile (\<lambda>c. c \<noteq> 46) (take ?n (drop i (line @ [b]))))). c \<noteq> 48)"
      "\<And>x. r = Some x \<Longrightarrow> x < int (length (line @ [b])) \<or> x = int i" by blast
  have t: "take ?n (drop i (line @ [b])) = (if hd line = 45 then tl line else line)"
    using assms by (simp add: i_def drop_Suc)
  have p: "\<exists>v. parse_digits (line @ [b]) i x = Inr v" if "r = Some x" for x
  proof -
    have "nat (x + 1 - int i) + i \<le> length (line @ [b])" using r(3) [OF that] i by auto
    then show ?thesis by (simp add: parse_digits_def for_loop_foldl add.commute del: length_append)
  qed
  have "parse_int (line @ [b]) (int (length line)) = bind_r (scan_int (line @ [b]) i ?n (int i)) (\<lambda>r.
     case r of None \<Rightarrow> Inr None | Some x \<Rightarrow> bind_r (parse_digits (line @ [b]) i x) (\<lambda>number.
       Inr (Some (if hd line = 45 then - number else number))))"
    using assms by (simp add: parse_int_def Let_def arr_get_def nth_append hd_conv_nth i_def nat_diff_distrib' cong: option.case_cong)
  then show ?thesis using r(1,2) p unfolding t by (cases r) auto
qed

theorem ReadInt_rejects_witness:
  "(\<exists>r. parse_int ([49, 46, 53] @ [0]) 3 = Inr r \<and> r = None) \<and>
   (\<exists>r. parse_int ([49, 97] @ [0]) 2 = Inr r \<and> r \<noteq> None)"
  using ReadInt_rejects [of "[49, 46, 53]" 0] ReadInt_rejects [of "[49, 97]" 0] by simp

section \<open>Reading floating point numbers\<close>

text \<open>Single precision represents the integers up to \<open>2 ^ 24\<close>.\<close>

definition single_precision :: "'s sysenv \<Rightarrow> bool" where
  "single_precision e \<longleftrightarrow> (\<forall>i. \<bar>i\<bar> \<le> 2 ^ 24 \<longrightarrow> se_rnd e (of_int i) = Some (of_int i))"

definition digits_value :: "byte list \<Rightarrow> int" where
  "digits_value ds = foldl (\<lambda>n c. n * 10 + (uint c - 48)) 0 ds"

lemma digits_value_snoc [simp]: "digits_value [] = 0" "digits_value (ds @ [c]) = digits_value ds * 10 + (uint c - 48)"
  by (simp_all add: digits_value_def)

lemma digits_value_bounds:
  "\<forall>c \<in> set ds. digit c \<Longrightarrow> 0 \<le> digits_value ds \<and> digits_value ds < 10 ^ length ds"
  by (induction ds rule: rev_induct) (auto simp: digit_def)

lemma digit_signed: "digit c \<Longrightarrow> sint c = uint c" "digit c \<Longrightarrow> \<not> (c <s 48 \<or> 57 <s c)"
proof -
  assume "digit c"
  then show s: "sint c = uint c" by (simp add: digit_def sint_uint signed_take_bit_int_eq_self)
  show "\<not> (c <s 48 \<or> 57 <s c)" using \<open>digit c\<close> by (simp add: word_sless_alt s digit_def)
qed

lemma f_bin_exact:
  assumes "single_precision e" "\<bar>a * b\<bar> \<le> 2 ^ 24"
  shows "f_bin e (*) (Some (of_int a)) (Some (of_int b)) = Some (of_int (a * b))"
  using assms unfolding single_precision_def f_bin_def by (metis bind.bind_lunit of_int_mult)

lemma f_add_exact:
  assumes "single_precision e" "\<bar>a + b\<bar> \<le> 2 ^ 24"
  shows "f_bin e (+) (Some (of_int a)) (Some (of_int b)) = Some (of_int (a + b))"
  using assms unfolding single_precision_def f_bin_def by (metis bind.bind_lunit of_int_add)

lemma seven_digits: "j \<le> 7 \<Longrightarrow> (10 :: int) ^ j \<le> 2 ^ 24"
  using power_increasing [of j 7 "10 :: int"] by simp

lemma sum_digits_value:
  assumes e: "single_precision e"
  shows "f + n \<le> length buf \<Longrightarrow> \<forall>c \<in> set (take n (drop f buf)). digit c \<or> c = 46 \<Longrightarrow>
    j + length (filter digit (take n (drop f buf))) \<le> 7 \<Longrightarrow> 0 \<le> a \<Longrightarrow> a < 10 ^ j \<Longrightarrow>
    sum_digits e buf f n (Some (of_int a)) (Some (of_int (10 ^ j))) =
      Inr (Some (of_int (a + 10 ^ j * digits_value (filter digit (take n (drop f buf))))))"
proof (induction n arbitrary: a j)
  case (Suc n)
  let ?c = "buf ! (f + n)" and ?ds = "filter digit (take n (drop f buf))"
  have t: "take (Suc n) (drop f buf) = take n (drop f buf) @ [?c]" using Suc.prems(1) by (simp add: take_Suc_conv_app_nth)
  have g: "arr_get buf (int f + int n) = Inr ?c" using arr_get_nat [of "f + n" buf] Suc.prems(1) by simp
  show ?case
  proof (cases "?c = 46")
    case True
    then have "\<not> digit ?c" by (auto simp: digit_def)
    with True Suc g show ?thesis by (simp add: t)
  next
    case False
    then have d: "digit ?c" using Suc.prems(2) by (auto simp: t)
    define v where "v = uint ?c - 48"
    have v: "0 \<le> v" "v \<le> 9" using d by (auto simp: v_def digit_def)
    have j: "Suc j + length ?ds \<le> 7" using Suc.prems(3) d by (simp add: t)
    have "v * 10 ^ j \<le> 9 * 10 ^ j" using v by simp
    then have le: "a + v * 10 ^ j < 10 ^ Suc j" "0 \<le> v * 10 ^ j"
      using Suc.prems(5) v(1) unfolding power_Suc by (linarith, simp)
    have b: "(10 :: int) ^ Suc j \<le> 2 ^ 24" using j by (intro seven_digits) simp
    have 1: "int_to_float e (sint ?c - 48) = Some (of_int v)"
    proof -
      have "sint ?c - 48 = v" using d by (simp add: digit_signed v_def)
      then show ?thesis using e v by (simp add: int_to_float_def single_precision_def)
    qed
    have 2: "f_bin e (*) (Some (of_int v)) (Some (of_int (10 ^ j))) = Some (of_int (v * 10 ^ j))"
      using le b Suc.prems(4) by (intro f_bin_exact e) linarith
    have 3: "f_bin e (+) (Some (of_int a)) (Some (of_int (v * 10 ^ j))) = Some (of_int (a + v * 10 ^ j))"
      using le b Suc.prems(4) by (intro f_add_exact e) linarith
    have 4: "f_bin e (*) (Some (of_int (10 ^ j))) (Some 10) = Some (of_int (10 ^ Suc j))"
      using f_bin_exact [OF e, of "10 ^ j" 10] b by (simp add: mult.commute)
    have "sum_digits e buf f (Suc n) (Some (of_int a)) (Some (of_int (10 ^ j))) =
        sum_digits e buf f n (Some (of_int (a + v * 10 ^ j))) (Some (of_int (10 ^ Suc j)))"
      using Suc.prems(1) False d digits_not_sign(2) [OF d] arr_get_nat [of "f + n" buf]
      by (simp only: sum_digits.simps bind_r_simps 1 2 3 4 if_False) simp
    also have "\<dots> = Inr (Some (of_int (a + v * 10 ^ j + 10 ^ Suc j * digits_value ?ds)))"
      using Suc.prems j le by (intro Suc.IH) (auto simp: t)
    finally show ?thesis using d by (simp add: t v_def algebra_simps)
  qed
qed simp

lemma scan_float_ok:
  "i + n \<le> length buf \<Longrightarrow> \<forall>c \<in> set (take n (drop i buf)). digit c \<or> c = 46 \<Longrightarrow>
   d + length (filter (\<lambda>c. c = 46) (take n (drop i buf))) \<le> 1 \<Longrightarrow>
   scan_float buf i n d l = Inr (Some (if n = 0 then l else i + n - 1))"
proof (induction n arbitrary: i d l)
  case (Suc n)
  then have t: "drop i buf = buf ! i # drop (Suc i) buf" by (simp add: Cons_nth_drop_Suc)
  show ?case
  proof (cases "buf ! i = 46")
    case True
    with Suc.prems have "scan_float buf (Suc i) n (d + 1) i = Inr (Some (if n = 0 then i else Suc i + n - 1))"
      by (intro Suc.IH) (auto simp: t)
    with True Suc.prems show ?thesis by (auto simp: t)
  next
    case False
    then have "digit (buf ! i)" using Suc.prems by (auto simp: t)
    moreover have "scan_float buf (Suc i) n d i = Inr (Some (if n = 0 then i else Suc i + n - 1))"
      using Suc.prems False by (intro Suc.IH) (auto simp: t)
    ultimately show ?thesis using False Suc.prems(1) digit_signed(2) [of "buf ! i"] by auto
  qed
qed simp

text \<open>
  C36: \<^verbatim>\<open>ReadFloat\<close> does not interpret the point.  When the line on the console consists of digits, at most
  seven, and at most one point, the number left in register 2 is the one that all the digits form,
  before and after the point: \<^verbatim>\<open>3.14\<close> is read as 314.
\<close>

theorem ReadFloat_ignores_point:
  assumes "single_precision e" "console_read e 255 k = Inr (int (length line), line @ pad, k1)" "line \<noteq> []"
    and "\<forall>c \<in> set line. digit c \<or> c = 46" "length (filter (\<lambda>c. c = 46) line) \<le> 1" "length (filter digit line) \<le> 7"
  shows "handle_SC_ReadFloat e k = Machine_WriteRegister 2 (of_int (digits_value (filter digit line))) k1"
proof -
  define buf where "buf = line @ pad @ [se_byte e]"
  have b: "take (length line) (drop 0 buf) = line" "0 + length line \<le> length buf" by (simp_all add: buf_def)
  have "digit (hd line) \<or> hd line = 46" using assms(3,4) by simp
  then have c: "arr_get buf 0 = Inr (hd line)" "hd line \<noteq> 45"
    using assms(3) digits_not_sign(2) by (auto simp: buf_def arr_get_def nth_append hd_conv_nth)
  have s: "scan_float buf 0 (length line) 0 0 = Inr (Some (length line - 1))"
    using scan_float_ok [OF b(2), of 0 0] assms(3-5) by (simp add: b(1) [simplified])
  have v: "sum_digits e buf 0 (length line) (Some 0) (Some 1) = Inr (Some (of_int (digits_value (filter digit line))))"
    using sum_digits_value [OF assms(1) b(2), of 0 0] assms(4,6) by (simp add: b(1) [simplified])
  have "0 \<le> digits_value (filter digit line)" "digits_value (filter digit line) < 10 ^ length (filter digit line)"
    using digits_value_bounds [of "filter digit line"] by auto
  then have "0 \<le> digits_value (filter digit line)" "digits_value (filter digit line) < 2 ^ 31"
    using order_less_le_trans [OF _ order_trans [OF seven_digits [OF assms(6)], of "2 ^ 31"]] by simp_all
  then have i: "float_to_int (Some (of_int (digits_value (filter digit line)))) = Inr (digits_value (filter digit line))"
    by (simp add: float_to_int_def Let_def)
  have l': "Suc (length line - Suc 0) = length line" using assms(3) by simp
  show ?thesis using c s v i by (simp add: handle_SC_ReadFloat_def assms(2) Let_def buf_def [symmetric] l' del: sum_digits.simps)
qed

text \<open>A keyboard on which the characters of \<open>cs\<close> are typed: each wait for input delivers the next one.\<close>

definition keyboard :: "byte list \<Rightarrow> nat \<Rightarrow> 'z os_scheme \<Rightarrow> 'z os_scheme result" where
  "keyboard cs s k = Inr (if s = synchReadAvail k
     then k\<lparr>con_incoming := cs ! table_brk k, table_brk := Suc (table_brk k)\<rparr> else k)"

definition demo_env :: "byte list \<Rightarrow> 'z os_scheme sysenv" where
  "demo_env cs = \<lparr>se_calls = \<lparr>cP = keyboard cs, cV = (\<lambda>s k. Inr k), cFork = (\<lambda>t f a k. Inr k), cFinish = (\<lambda>t k. Inr k)\<rparr>,
     se_fuel = 1, se_word = 0, se_byte = 0, se_rnd = Some\<rparr>"

lemma keyboard_line:
  assumes "10 \<notin> set cs" "1 \<notin> set cs" "EOF_char \<notin> set cs" "length cs < room" "drop (table_brk k) input = cs @ [10]"
  shows "\<exists>k'. read_line 1 room (keyboard input) ch acc k = Inr (10, acc @ cs, k')"
  using assms
proof (induction cs arbitrary: room k ch acc)
  case Nil
  then obtain r where "room = Suc r" "input ! table_brk k = 10"
    by (cases room) (auto simp: nth_via_drop)
  then show ?case by (auto simp: keyboard_def Console_GetChar_def EOF_char_def)
next
  case (Cons c cs)
  then obtain r where r: "room = Suc r" "input ! table_brk k = c" by (cases room) (auto simp: nth_via_drop)
  obtain k1 where k1: "keyboard input (synchReadAvail k) k = Inr k1" "con_incoming k1 = c" "table_brk k1 = Suc (table_brk k)"
    using r(2) by (simp add: keyboard_def)
  have "drop (Suc (table_brk k)) input = cs @ [10]" using Cons.prems(5) by (simp add: drop_Suc flip: tl_drop)
  with Cons r k1(3) have "\<exists>k'. read_line 1 r (keyboard input) c (acc @ [c]) (k1\<lparr>con_incoming := EOF_char\<rparr>) = Inr (10, (acc @ [c]) @ cs, k')"
    by (intro Cons.IH) auto
  with r(1) k1(1,2) Cons.prems show ?case by (auto simp: Console_GetChar_def)
qed

theorem ReadFloat_ignores_point_witness:
  "\<exists>k1. handle_SC_ReadFloat (demo_env [51, 46, 49, 52, 10]) demo_os = Machine_WriteRegister 2 314 k1"
proof -
  let ?line = "[51, 46, 49, 52] :: byte list"
  have "\<exists>k1. console_read (demo_env (?line @ [10])) 255 demo_os = Inr (int (length ?line), ?line @ replicate 251 0, k1)"
    using keyboard_line [of ?line 255 demo_os "?line @ [10]" 0 "[]"]
    by (auto simp: console_read_def SynchConsole_Read_def demo_env_def EOF_char_def demo_os_simps keyboard_def)
  then obtain k1 where "console_read (demo_env (?line @ [10])) 255 demo_os = Inr (int (length ?line), ?line @ replicate 251 0, k1)" ..
  from ReadFloat_ignores_point [OF _ this] show ?thesis
    by (simp add: single_precision_def demo_env_def digit_def digits_value_def) blast
qed

theorem PrintInt_ReadInt_witness:
  "\<exists>bs rest. bs = [45, 52, 50] \<and>
    handle_SC_PrintInt (demo_env []) (demo_os\<lparr>registers := (\<lambda>_. - 42)\<rparr>) =
      console_write (demo_env []) (bs @ rest) 3 (demo_os\<lparr>registers := (\<lambda>_. - 42)\<rparr>) \<and>
    (\<forall>more. parse_int (bs @ more) 3 = Inr (Some (- 42)))"
proof -
  have "to_bytes (percent_d (- 42)) = [45, 52, 50]" by (simp add: percent_d_def decimal.simps)
  moreover have "sint (- 42 :: 32 word) = - 42" by simp
  ultimately show ?thesis using PrintInt_ReadInt [of "demo_os\<lparr>registers := (\<lambda>_. - 42)\<rparr>" "demo_env []"] by simp
qed

end
