(* ===== verification/Syscall_Correct.thy ===== *)
theory Syscall_Correct
  imports Syscalls Mips_Correct Console_Correct
begin

text \<open>
  Properties of the system calls.  A system call must leave the program counter of the user program
  alone, apart from \<^verbatim>\<open>IncrementR\<close>, and must keep the invariant of the register file, which the CPU relies
  on.  For both it relies on the calls of the thread system: this contract is the locale
  \<open>kernel_calls\<close>.  The CPU's own contract with the trap handler, \<open>trap_handler\<close>, follows from it.
\<close>

section \<open>The program counter is kept\<close>

definition keeps_pc :: "'z hw_scheme \<Rightarrow> 'z hw_scheme \<Rightarrow> bool" where
  "keeps_pc k k' \<longleftrightarrow> (cpu_ok k \<longrightarrow>
     cpu_ok k' \<and> registers k' PCReg = registers k PCReg \<and> registers k' NextPCReg = registers k NextPCReg)"

lemma keeps_refl [simp]: "keeps_pc k k"
  by (simp add: keeps_pc_def)

lemma keeps_trans [trans]: "keeps_pc a b \<Longrightarrow> keeps_pc b c \<Longrightarrow> keeps_pc a c"
  by (auto simp: keeps_pc_def)

lemma keeps_regs: "registers k' = registers k \<Longrightarrow> keeps_pc k k'"
  by (simp add: keeps_pc_def cpu_ok_def)

lemma keeps_cong: "registers a = registers a' \<Longrightarrow> registers b = registers b' \<Longrightarrow> keeps_pc a b = keeps_pc a' b'"
  by (simp add: keeps_pc_def cpu_ok_def)

lemma keeps_frame [simp]:
  "keeps_pc k (b\<lparr>mainMemory := x\<rparr>) = keeps_pc k b" "keeps_pc k (b\<lparr>status := y\<rparr>) = keeps_pc k b"
  by (simp_all add: keeps_pc_def cpu_ok_def)

lemma keeps_r2: "Machine_WriteRegister 2 v k = Inr k' \<Longrightarrow> keeps_pc k k'"
  by (auto simp: Machine_WriteRegister_def keeps_pc_def cpu_ok_def reg_defs split: if_splits)

lemma keeps_DelayedLoad:
  assumes "Machine_DelayedLoad 0 0 k = Inr k'"
  shows "keeps_pc k k'"
  unfolding keeps_pc_def
proof
  assume "cpu_ok k"
  then have l: "uint (registers k LoadReg) < 32" by simp
  then have "int (unat (registers k LoadReg)) < 32" by simp
  then have "unat (registers k LoadReg) \<noteq> PCReg" "unat (registers k LoadReg) \<noteq> NextPCReg"
    unfolding reg_defs by linarith+
  then have "registers k' PCReg = registers k PCReg \<and> registers k' NextPCReg = registers k NextPCReg"
    using assms DelayedLoad_ok [OF l, of 0 0] by (auto simp: reg_defs)
  moreover have "cpu_ok k'" using assms DelayedLoad_cpu_ok [OF l, of 0 0] by auto
  ultimately show "cpu_ok k' \<and> registers k' PCReg = registers k PCReg \<and> registers k' NextPCReg = registers k NextPCReg"
    by blast
qed

lemma fault_handler_Inr: "fault_handler which k = Inr k' \<Longrightarrow> k' = k"
  by (auto simp: fault_handler_def Interrupt_Halt_def split: if_splits)

lemma keeps_fault: "Machine_RaiseException fault_handler which a k = Inr k' \<Longrightarrow> keeps_pc k k'"
proof -
  assume "Machine_RaiseException fault_handler which a k = Inr k'"
  then obtain m1 where m1: "Machine_DelayedLoad 0 0 (k\<lparr>registers := (registers k)(BadVAddrReg := a)\<rparr>) = Inr m1"
    "registers k' = registers m1"
    by (auto simp: Machine_RaiseException_def elim!: bind_r_InrE dest!: fault_handler_Inr)
  have "keeps_pc k (k\<lparr>registers := (registers k)(BadVAddrReg := a)\<rparr>)" by (simp add: keeps_pc_def cpu_ok_def reg_defs)
  also note keeps_DelayedLoad [OF m1(1)]
  also have "keeps_pc m1 k'" using m1(2) by (rule keeps_regs)
  finally show ?thesis .
qed

lemma keeps_Translate: "Machine_Translate a sz w k = Inr (t, k') \<Longrightarrow> keeps_pc k k'"
  by (intro keeps_regs Translate_registers)

lemma keeps_ReadMem: "Machine_ReadMem fault_handler a sz k = Inr (r, k') \<Longrightarrow> keeps_pc k k'"
  by (auto simp: Machine_ReadMem_def elim!: bind_r_InrE split: sum.split_asm if_split_asm
      dest!: keeps_Translate keeps_fault intro: keeps_trans)

lemma keeps_WriteMem: "Machine_WriteMem fault_handler a sz v k = Inr (r, k') \<Longrightarrow> keeps_pc k k'"
  by (auto simp: Machine_WriteMem_def elim!: bind_r_InrE split: sum.split_asm if_split_asm
      dest!: keeps_Translate keeps_fault intro: keeps_trans)

lemma keeps_u2s: "u2s_loop fault_handler a i n c buf k = Inr (r, k') \<Longrightarrow> keeps_pc k k'"
proof (induction n arbitrary: i c buf k)
  case (Suc n)
  then show ?case
    by (auto simp: Let_def elim!: bind_r_InrE split: if_split_asm dest!: keeps_ReadMem intro: keeps_trans)
qed simp

lemma keeps_user_string: "user_string e a l k = Inr (r, k') \<Longrightarrow> keeps_pc k k'"
  by (auto simp: user_string_def Machine_User2System_def split: if_splits intro: keeps_u2s)

lemma keeps_s2u: "s2u_loop fault_handler a i n buf k = Inr (r, k') \<Longrightarrow> keeps_pc k k'"
proof (induction n arbitrary: i k)
  case (Suc n)
  then show ?case
    by (auto simp: Let_def elim!: bind_r_InrE split: if_split_asm dest!: keeps_WriteMem intro: keeps_trans)
qed simp

lemma keeps_System2User: "Machine_System2User fault_handler a l buf k = Inr (r, k') \<Longrightarrow> keeps_pc k k'"
  by (auto simp: Machine_System2User_def split: if_splits intro: keeps_s2u)

section \<open>Operations that do not touch the registers\<close>

lemma regs_OpenFile_delete: "OpenFile_delete p k = Inr k' \<Longrightarrow> registers k' = registers k"
  by (auto simp: OpenFile_delete_def elim!: bind_r_InrE)

lemma regs_Create: "FileSystem_Create name k = Inr (r, k') \<Longrightarrow> registers k' = registers k"
  by (auto simp: FileSystem_Create_def elim!: bind_r_InrE split: if_splits)

lemma regs_Open: "FileSystem_Open name k = Inr (r, k') \<Longrightarrow> registers k' = registers k"
  by (auto simp: FileSystem_Open_def OpenFile_new_def elim!: bind_r_InrE split: if_splits)

lemma regs_Open_type: "FileSystem_Open_type name ty k = Inr (r, k') \<Longrightarrow> registers k' = registers k"
  by (auto simp: FileSystem_Open_type_def OpenFile_new_def elim!: bind_r_InrE split: if_splits)

lemma regs_set_offset: "set_offset p f k = Inr k' \<Longrightarrow> registers k' = registers k"
  by (auto simp: set_offset_def elim!: bind_r_InrE)

lemma regs_Read: "OpenFile_Read p n k = Inr (r, bs, k') \<Longrightarrow> registers k' = registers k"
  by (auto simp: OpenFile_Read_def OpenFile_ReadAt_def elim!: bind_r_InrE dest!: regs_set_offset split: option.splits)

lemma regs_Write: "OpenFile_Write p bs n k = Inr (r, k') \<Longrightarrow> registers k' = registers k"
  by (auto simp: OpenFile_Write_def OpenFile_WriteAt_def elim!: bind_r_InrE dest!: regs_set_offset split: if_splits)

lemma regs_PutChar: "Console_PutChar c k = Inr k' \<Longrightarrow> registers k' = registers k"
  by (auto simp: Console_PutChar_def Interrupt_Schedule_def Let_def elim!: bind_r_InrE)

lemma regs_STable_Create: "STable_Create name v k = Inr (r, k') \<Longrightarrow> registers k' = registers k"
  by (auto simp: STable_Create_def STable_FindFreeSlot_def Sem_new_def Semaphore_new_def elim!: bind_r_InrE
      split: option.splits if_splits)

lemma regs_upd: "upd_pcb p f k = Inr k' \<Longrightarrow> registers k' = registers k"
    "upd_thread t g k = Inr k' \<Longrightarrow> registers k' = registers k"
  by (auto simp: upd_pcb_def upd_thread_def elim!: bind_r_InrE)

lemma regs_set_pcb: "set_pcb i p k = Inr k' \<Longrightarrow> registers k' = registers k"
  by (auto simp: set_pcb_def elim!: bind_r_InrE)

lemma regs_PCB_new: "PCB_new i k = Inr (p, k') \<Longrightarrow> registers k' = registers k"
  by (auto simp: PCB_new_def Semaphore_new_def Let_def elim!: bind_r_InrE)

lemma regs_GetFreeSlot: "PTable_GetFreeSlot k = Inr (p, k') \<Longrightarrow> registers k' = registers k"
  by (auto simp: PTable_GetFreeSlot_def elim!: bind_r_InrE)

lemma regs_can_exec: "can_exec f k = Inr (r, k') \<Longrightarrow> registers k' = registers k"
  by (auto simp: can_exec_def elim!: bind_r_InrE dest!: regs_Open regs_OpenFile_delete split: option.splits if_splits)

lemmas keeps_quiet = regs_OpenFile_delete [THEN keeps_regs] regs_Create [THEN keeps_regs] regs_Open [THEN keeps_regs]
  regs_Open_type [THEN keeps_regs] regs_set_offset [THEN keeps_regs] regs_Read [THEN keeps_regs]
  regs_Write [THEN keeps_regs] regs_PutChar [THEN keeps_regs] regs_STable_Create [THEN keeps_regs]
  regs_upd [THEN keeps_regs] regs_set_pcb [THEN keeps_regs] regs_PCB_new [THEN keeps_regs]
  regs_GetFreeSlot [THEN keeps_regs] regs_can_exec [THEN keeps_regs]

lemmas keeps_lemmas = keeps_quiet keeps_r2 keeps_user_string keeps_System2User

lemma keeps_os_frame [simp]:
  "keeps_pc k (b\<lparr>pTab_bm := x\<rparr>) = keeps_pc k b" "keeps_pc k (b\<lparr>file_table := y\<rparr>) = keeps_pc k b"
  "keeps_pc k (b\<lparr>con_incoming := z\<rparr>) = keeps_pc k b" "keeps_pc k (b\<lparr>threads := ts, thread_brk := n\<rparr>) = keeps_pc k b"
  by (simp_all add: keeps_pc_def cpu_ok_def)

lemmas keeps_steps = keeps_lemmas [THEN keeps_trans [rotated]]

section \<open>Advancing the program counter\<close>

lemma IncrementR_eq:
  "IncrementR k = Inr (k\<lparr>registers := (registers k)(PrevPCReg := registers k PCReg, PCReg := registers k NextPCReg,
     NextPCReg := registers k NextPCReg + 4)\<rparr>)"
  by (simp add: IncrementR_def Machine_ReadRegister_def Machine_WriteRegister_def reg_defs fun_upd_twist)

lemma Exit_back: "handle_SC_Exit e k = Inr (Back u k') \<Longrightarrow> k' = k"
  by (auto simp: handle_SC_Exit_def bind_f_def Let_def elim!: bind_r_InrE split: if_splits flow.splits)

lemma to_flow_Inr [simp]: "to_flow r = Inr (Back u k) \<longleftrightarrow> r = Inr k" "to_flow r \<noteq> Inr (Gone k)"
  by (auto simp: to_flow_def bind_r_Inr_iff)

section \<open>The contract with the thread system\<close>

locale kernel_calls =
  fixes e :: "'z os_scheme sysenv"
  assumes P_keeps: "cP (se_calls e) s k = Inr k' \<Longrightarrow> keeps_pc k k'"
    and V_keeps: "cV (se_calls e) s k = Inr k' \<Longrightarrow> keeps_pc k k'"
    and Fork_keeps: "cFork (se_calls e) t f a k = Inr k' \<Longrightarrow> keeps_pc k k'"
begin

lemmas call_steps = keeps_steps P_keeps [THEN keeps_trans [rotated]] V_keeps [THEN keeps_trans [rotated]]
  Fork_keeps [THEN keeps_trans [rotated]]

lemma keeps_console_write:
  assumes "console_write e bs n k = Inr k'"
  shows "keeps_pc k k'"
proof -
  have loop: "keeps_pc a b" if "for_loop 0 m (\<lambda>i k. bind_r (arr_get bs (int i)) (\<lambda>ch.
       bind_r (Console_PutChar ch k) (\<lambda>k. cP (se_calls e) (synchWriteAvail k) k))) a = Inr b" for a b m
    by (rule for_loop_keeps [OF that], simp, elim bind_r_InrE call_steps, simp)
  show ?thesis using assms
    by (auto simp: console_write_def SynchConsole_Write_def elim!: bind_r_InrE)
      (elim call_steps loop [THEN keeps_trans [rotated]], simp)
qed

lemma keeps_read_char: "read_char n (cP (se_calls e)) k = Inr (ch, k') \<Longrightarrow> keeps_pc k k'"
proof (induction n arbitrary: k)
  case (Suc n)
  then obtain k1 where k1: "cP (se_calls e) (synchReadAvail k) k = Inr k1"
    "read_char n (cP (se_calls e)) (k1\<lparr>con_incoming := EOF_char\<rparr>) = Inr (ch, k') \<or> k' = k1\<lparr>con_incoming := EOF_char\<rparr>"
    by (auto simp: Console_GetChar_def elim!: bind_r_InrE split: if_splits)
  have "keeps_pc k (k1\<lparr>con_incoming := EOF_char\<rparr>)" using P_keeps [OF k1(1)] by simp
  then show ?case using k1(2) Suc.IH keeps_trans by metis
qed simp

lemma keeps_read_line: "read_line n room (cP (se_calls e)) ch acc k = Inr (r, s, k') \<Longrightarrow> keeps_pc k k'"
proof (induction room arbitrary: ch acc k)
  case (Suc room)
  then show ?case by (auto elim!: bind_r_InrE split: if_splits dest!: keeps_read_char intro: keeps_trans)
qed simp

lemma keeps_console_read:
  assumes "console_read e n k = Inr (r, bs, k')"
  shows "keeps_pc k k'"
  using assms
  by (auto simp: console_read_def SynchConsole_Read_def elim!: bind_r_InrE)
    (elim call_steps keeps_read_line [THEN keeps_trans [rotated]], simp)

lemma keeps_STable:
  "STable_Wait (cP (se_calls e)) name k = Inr (r, k') \<Longrightarrow> keeps_pc k k'"
  "STable_Signal (cV (se_calls e)) name k = Inr (r, k') \<Longrightarrow> keeps_pc k k'"
  by (auto simp: STable_Wait_def STable_Signal_def elim!: bind_r_InrE split: option.splits intro: P_keeps V_keeps)

lemma keeps_PCB_Exec: "PCB_Exec (se_calls e) p f i k = Inr (r, k') \<Longrightarrow> keeps_pc k k'"
  unfolding PCB_Exec_def Thread_new_def
  by (simp, elim bind_r_InrE) (elim call_steps conjE | simp)+

lemma keeps_exec_in_slot: "exec_in_slot (se_calls e) f k = Inr (r, k') \<Longrightarrow> keeps_pc k k'"
  by (auto simp: exec_in_slot_def elim!: bind_r_InrE split: if_splits)
    (elim call_steps keeps_PCB_Exec [THEN keeps_trans [rotated]] | simp)+

lemma keeps_ExecUpdate: "PTable_ExecUpdate (se_calls e) f k = Inr (r, k') \<Longrightarrow> keeps_pc k k'"
  by (auto simp: PTable_ExecUpdate_def elim!: bind_r_InrE split: if_splits)
    (elim call_steps keeps_exec_in_slot [THEN keeps_trans [rotated]] | simp)+

lemma keeps_JoinUpdate: "PTable_JoinUpdate (se_calls e) i k = Inr (r, k') \<Longrightarrow> keeps_pc k k'"
  by (auto simp: PTable_JoinUpdate_def PCB_JoinWait_def PCB_IncNumWait_def PCB_ExitRelease_def elim!: bind_r_InrE
      split: if_splits option.splits)
    (elim call_steps | simp)+

lemmas handler_steps = keeps_steps keeps_STable [THEN keeps_trans [rotated]]
  keeps_ExecUpdate [THEN keeps_trans [rotated]] keeps_JoinUpdate [THEN keeps_trans [rotated]]
  keeps_console_read [THEN keeps_trans [rotated]] keeps_console_write [THEN keeps_trans [rotated]]

lemma keeps_console_handlers:
  "handle_SC_ReadInt e k = Inr k' \<Longrightarrow> keeps_pc k k'"
  "handle_SC_PrintInt e k = Inr k' \<Longrightarrow> keeps_pc k k'"
  "handle_SC_ReadFloat e k = Inr k' \<Longrightarrow> keeps_pc k k'"
  "handle_SC_ReadChar e k = Inr k' \<Longrightarrow> keeps_pc k k'"
  "handle_SC_PrintChar e k = Inr k' \<Longrightarrow> keeps_pc k k'"
  "handle_SC_ReadString e k = Inr k' \<Longrightarrow> keeps_pc k k'"
  "handle_SC_PrintString e k = Inr k' \<Longrightarrow> keeps_pc k k'"
  by (auto simp: handle_SC_ReadInt_def handle_SC_PrintInt_def handle_SC_ReadFloat_def handle_SC_ReadChar_def
      handle_SC_PrintChar_def handle_SC_ReadString_def handle_SC_PrintString_def Let_def Interrupt_Halt_def
      elim!: bind_r_InrE split: if_splits option.split_asm)
    (elim handler_steps | simp)+

lemma keeps_PrintFloat:
  "handle_SC_PrintFloat e k = Inr k' \<Longrightarrow> int_to_float e (sint (registers k 4)) \<noteq> Some 0 \<Longrightarrow> keeps_pc k k'"
  by (auto simp: handle_SC_PrintFloat_def Machine_ReadRegister_def Let_def reg_defs elim!: bind_r_InrE split: if_splits)
    (elim handler_steps | simp)+

lemma keeps_report_count: "report_count n f k = Inr k' \<Longrightarrow> keeps_pc k k'"
  by (auto simp: report_count_def OpenFile_CurPos_set_def elim!: bind_r_InrE split: if_splits option.split_asm)
    (elim handler_steps | simp)+

lemma keeps_finish_read:
  "finish_read e a f (n, bs, k) = Inr k' \<Longrightarrow> keeps_pc k k'"
  by (auto simp: finish_read_def elim!: bind_r_InrE)
    (elim handler_steps keeps_report_count [THEN keeps_trans [rotated]] | simp)+

lemmas file_steps = handler_steps keeps_report_count [THEN keeps_trans [rotated]]
  keeps_finish_read [THEN keeps_trans [rotated]]

lemma keeps_file_handlers:
  "handle_SC_CreateFile e k = Inr k' \<Longrightarrow> keeps_pc k k'"
  "handle_SC_CloseFile k = Inr k' \<Longrightarrow> keeps_pc k k'"
  "handle_SC_OpenFile e k = Inr k' \<Longrightarrow> keeps_pc k k'"
  by (auto simp: handle_SC_CreateFile_def handle_SC_CloseFile_def handle_SC_OpenFile_def
      Let_def elim!: bind_r_InrE split: if_splits option.split_asm)
    (elim file_steps | simp)+

lemma keeps_transfer_handlers:
  "handle_SC_ReadFile e k = Inr k' \<Longrightarrow> keeps_pc k k'"
  "handle_SC_WriteFile e k = Inr k' \<Longrightarrow> keeps_pc k k'"
  by (auto simp: handle_SC_ReadFile_def handle_SC_WriteFile_def Let_def elim!: bind_r_InrE split: if_splits option.split_asm)
    (elim file_steps | simp)+

lemma keeps_process_handlers:
  "handle_SC_Join e k = Inr k' \<Longrightarrow> keeps_pc k k'"
  "handle_SC_Exec e k = Inr k' \<Longrightarrow> keeps_pc k k'"
  "handle_SC_CreateSemaphore e k = Inr k' \<Longrightarrow> keeps_pc k k'"
  "handle_SC_Up e k = Inr k' \<Longrightarrow> keeps_pc k k'"
  "handle_SC_Down e k = Inr k' \<Longrightarrow> keeps_pc k k'"
  by (auto simp: handle_SC_Join_def handle_SC_Exec_def handle_SC_CreateSemaphore_def handle_SC_Up_def handle_SC_Down_def
      Let_def elim!: bind_r_InrE split: if_splits option.split_asm)
    (elim handler_steps | simp)+

text \<open>Every handler but that of \<^verbatim>\<open>PrintFloat\<close> with the argument 0.\<close>

lemma keeps_syscall_case:
  assumes "syscall_case e type k = Some (Inr (Back u k'))"
    and "type = SC_PrintFloat \<Longrightarrow> int_to_float e (sint (registers k 4)) \<noteq> Some 0"
  shows "keeps_pc k k'"
  using assms unfolding syscall_case_def
  by (auto split: if_split_asm
      dest!: Exit_back intro: keeps_console_handlers keeps_file_handlers keeps_transfer_handlers keeps_process_handlers keeps_PrintFloat)

lemma PrintFloat_zero:
  assumes "handle_SC_PrintFloat e k = Inr k'" "int_to_float e (sint (registers k 4)) = Some 0"
  obtains k1 where "console_write e [48, 46, 48, 0] 3 k = Inr k1" "IncrementR k1 = Inr k'" "keeps_pc k k1"
  using assms keeps_console_write
  by (auto simp: handle_SC_PrintFloat_def Machine_ReadRegister_def Let_def reg_defs elim!: bind_r_InrE)

lemma syscall_case_cpu_ok:
  assumes "syscall_case e type k = Some (Inr (Back u k'))" "cpu_ok k"
  shows "cpu_ok k'"
proof (cases "type = SC_PrintFloat \<and> int_to_float e (sint (registers k 4)) = Some 0")
  case True
  then have "handle_SC_PrintFloat e k = Inr k'" using assms(1) by (auto simp: syscall_case_def SC_defs)
  with True obtain k1 where "IncrementR k1 = Inr k'" "keeps_pc k k1" using PrintFloat_zero by blast
  then show ?thesis using assms(2) by (auto simp: IncrementR_eq keeps_pc_def cpu_ok_def reg_defs)
next
  case False
  with keeps_syscall_case [OF assms(1)] assms(2) show ?thesis by (auto simp: keeps_pc_def)
qed

lemma ExceptionHandler_syscall:
  assumes "ExceptionHandler e SyscallException k = Inr k'" "syscall_case e (registers k 2) k \<noteq> None" "registers k 2 \<noteq> SC_Halt"
  obtains k1 where "syscall_case e (registers k 2) k = Some (Inr (Back () k1))" "IncrementR k1 = Inr k'"
  using assms unfolding ExceptionHandler_def ExceptionHandler_flow_def bind_f_def to_flow_def
  by (auto simp: Machine_ReadRegister_def reg_defs elim!: bind_r_InrE split: option.split_asm flow.split_asm if_split_asm)

lemma syscall_returns:
  assumes "cpu_ok k" "ExceptionHandler e SyscallException k = Inr k'" "syscall_case e (registers k 2) k \<noteq> None"
    and "registers k 2 \<noteq> SC_Halt"
    and "\<not> (registers k 2 = SC_PrintFloat \<and> int_to_float e (sint (registers k 4)) = Some 0)"
  shows "cpu_ok k' \<and> registers k' PCReg = registers k NextPCReg \<and>
    registers k' NextPCReg = registers k NextPCReg + 4 \<and> registers k' PrevPCReg = registers k PCReg"
proof -
  obtain k1 where k1: "syscall_case e (registers k 2) k = Some (Inr (Back () k1))" "IncrementR k1 = Inr k'"
    using ExceptionHandler_syscall [OF assms(2,3,4)] .
  have "keeps_pc k k1" using keeps_syscall_case [OF k1(1)] assms(5) by blast
  then show ?thesis using assms(1) k1(2) by (auto simp: IncrementR_eq keeps_pc_def cpu_ok_def reg_defs)
qed

lemma handler_cpu_ok:
  assumes "cpu_ok k" "ExceptionHandler e which k = Inr k'"
  shows "cpu_ok k'"
proof (cases "which = SyscallException \<and> syscall_case e (registers k 2) k \<noteq> None \<and> registers k 2 \<noteq> SC_Halt")
  case True
  with assms(2) obtain k1 where "syscall_case e (registers k 2) k = Some (Inr (Back () k1))" "IncrementR k1 = Inr k'"
    using ExceptionHandler_syscall by blast
  then show ?thesis using syscall_case_cpu_ok [OF _ assms(1)] by (auto simp: IncrementR_eq cpu_ok_def reg_defs)
next
  case False
  with assms show ?thesis unfolding ExceptionHandler_def ExceptionHandler_flow_def bind_f_def to_flow_def
    by (auto simp: Machine_ReadRegister_def reg_defs Interrupt_Halt_def elim!: bind_r_InrE
        split: option.split_asm flow.split_asm if_split_asm)
qed

end

sublocale kernel_calls \<subseteq> cpu: trap_handler "ExceptionHandler e"
  by unfold_locales (rule handler_cpu_ok)

section \<open>The routines of the thread system satisfy the contract\<close>

text \<open>Interrupt handlers run in the kernel: they touch neither the registers nor the current thread.\<close>

definition same_cpu :: "'z kern_scheme \<Rightarrow> 'z kern_scheme \<Rightarrow> bool" where
  "same_cpu k k' \<longleftrightarrow> registers k' = registers k \<and> currentThread k' = currentThread k"

lemma same_cpu_simps [simp]: "same_cpu k k"
  by (simp add: same_cpu_def)

lemma same_plain_SetLevel: "plain_SetLevel l k = Inr (o', k') \<Longrightarrow> same_cpu k k'"
  by (auto simp: plain_SetLevel_def same_cpu_def elim!: bind_r_InrE)

lemma same_upd: "upd_thread t f k = Inr k' \<Longrightarrow> same_cpu k k'" "upd_sem s g k = Inr k' \<Longrightarrow> same_cpu k k'"
  by (auto simp: upd_thread_def upd_sem_def same_cpu_def elim!: bind_r_InrE)

lemma same_ReadyToRun: "Scheduler_ReadyToRun t k = Inr k' \<Longrightarrow> same_cpu k k'"
  by (auto simp: Scheduler_ReadyToRun_def same_cpu_def upd_thread_def elim!: bind_r_InrE)

lemma same_V: "Semaphore_V plain_SetLevel s k = Inr k' \<Longrightarrow> same_cpu k k'"
  by (auto simp: Semaphore_V_def same_cpu_def dest!: same_plain_SetLevel same_upd same_ReadyToRun
      elim!: bind_r_InrE split: option.split_asm)

lemma same_Fork: "Thread_Fork plain_SetLevel t f a k = Inr k' \<Longrightarrow> same_cpu k k'"
  by (auto simp: Thread_Fork_def Thread_StackAllocate_def same_cpu_def
      dest!: same_plain_SetLevel same_upd same_ReadyToRun elim!: bind_r_InrE)

lemma same_Schedule: "Interrupt_Schedule h n ty k = Inr k' \<Longrightarrow> same_cpu k k'"
  by (auto simp: Interrupt_Schedule_def Let_def same_cpu_def elim!: bind_r_InrE)

lemma same_device_call: "device_call h k = Inr k' \<Longrightarrow> same_cpu k k'"
  by (cases h) (auto simp: device_call_def Timer_TimerExpired_def Timer_TimeOfNextInterrupt_def Random_def
      TimerInterruptHandler_def Interrupt_YieldOnReturn_def Disk_HandleInterrupt_def SynchDisk_RequestDone_def
      Console_CheckCharAvail_def Console_WriteDone_def SynchReadFunct_def SynchWriteFunct_def Network_CheckPktAvail_def
      Network_SendDone_def PostOffice_IncomingPacket_def PostOffice_PacketSent_def on_stats_def Let_def same_cpu_def
      elim!: bind_r_InrE split: if_splits prod.split_asm dest!: same_Schedule same_V)

definition idle_kept :: "'z kern_scheme \<Rightarrow> 'z kern_scheme \<Rightarrow> bool" where
  "idle_kept k k' \<longleftrightarrow> keeps_pc k k' \<and> currentThread k' = currentThread k"

lemma idle_kept_refl [simp]: "idle_kept k k"
  by (simp add: idle_kept_def)

lemma idle_kept_trans: "idle_kept a b \<Longrightarrow> idle_kept b c \<Longrightarrow> idle_kept a c"
  by (auto simp: idle_kept_def intro: keeps_trans)

lemma idle_kept_same: "same_cpu k k' \<Longrightarrow> idle_kept k k'"
  by (simp add: idle_kept_def same_cpu_def keeps_regs)

lemma idle_kept_invoke:
  assumes "invoke_handler device_call p old k = Inr (r, k')"
  shows "idle_kept k k'"
proof -
  from assms obtain m1 m2 where m: "Machine_DelayedLoad 0 0 k = Inr m1"
    "device_call (pi_handler p) (m1\<lparr>inHandler := True, status := SystemMode\<rparr>) = Inr m2"
    "k' = m2\<lparr>status := old, inHandler := False\<rparr>"
    by (auto simp: invoke_handler_def elim!: bind_r_InrE)
  have "currentThread m1 = currentThread k" using m(1)
    by (auto simp: Machine_DelayedLoad_def Let_def split: if_splits)
  then have "idle_kept k m1" using keeps_DelayedLoad [OF m(1)] by (simp add: idle_kept_def)
  moreover have "idle_kept m1 k'"
    using same_device_call [OF m(2)] m(3) by (intro idle_kept_same) (simp add: same_cpu_def)
  ultimately show ?thesis by (rule idle_kept_trans)
qed

lemma idle_kept_CheckIfDue:
  assumes "Interrupt_CheckIfDue device_call adv k = Inr (r, k')"
  shows "idle_kept k k'"
  using assms
  by (auto simp: Interrupt_CheckIfDue_def Let_def elim!: bind_r_InrE split: option.split_asm if_split_asm
      dest!: idle_kept_invoke) (simp_all add: idle_kept_def keeps_pc_def cpu_ok_def)

lemma idle_kept_check_loop: "check_loop n device_call k = Inr k' \<Longrightarrow> idle_kept k k'"
proof (induction n arbitrary: k)
  case (Suc n)
  then show ?case
    by (auto elim!: bind_r_InrE split: if_split_asm dest!: idle_kept_CheckIfDue intro: idle_kept_trans)
qed simp

lemma idle_kept_Idle:
  assumes "Interrupt_Idle device_call k = Inr k'"
  shows "idle_kept k k'"
proof -
  from assms obtain r m1 m2 where m: "Interrupt_CheckIfDue device_call True (k\<lparr>status := IdleMode\<rparr>) = Inr (r, m1)"
    "check_loop (Suc (length (pending m1))) device_call m1 = Inr m2" "k' = m2\<lparr>yieldOnReturn := False, status := SystemMode\<rparr>"
    by (auto simp: Interrupt_Idle_def Interrupt_Halt_def check_all_def simp del: check_loop.simps elim!: bind_r_InrE split: if_split_asm)
  have "idle_kept k (k\<lparr>status := IdleMode\<rparr>)" "idle_kept m2 k'" by (simp_all add: m(3) idle_kept_same same_cpu_def)
  then show ?thesis
    using idle_kept_CheckIfDue [OF m(1)] idle_kept_check_loop [OF m(2)] by (blast intro: idle_kept_trans)
qed

text \<open>Switching away saves the registers of a thread with an address space, and switching back restores them.\<close>

definition saved :: "'z kern_scheme \<Rightarrow> bool" where
  "saved k \<longleftrightarrow> (\<forall>th. threads k (currentThread k) = Some th \<longrightarrow> thr_space th \<noteq> None \<longrightarrow>
     (\<forall>i < NumTotalRegs. userRegisters th i = registers k i))"

lemma SaveUserState_regs:
  assumes "threads k t = Some th"
  shows "Thread_SaveUserState t k = Inr (k\<lparr>threads := (threads k)(t \<mapsto>
    th\<lparr>userRegisters := (\<lambda>i. if i < NumTotalRegs then registers k i else userRegisters th i)\<rparr>)\<rparr>)"
proof -
  let ?s = "\<lambda>j. k\<lparr>threads := (threads k)(t \<mapsto> th\<lparr>userRegisters := (\<lambda>i. if i < j then registers k i else userRegisters th i)\<rparr>)\<rparr>"
  have "k\<lparr>threads := (threads k)(t \<mapsto> th\<lparr>userRegisters := userRegisters th\<rparr>)\<rparr> = k" using assms by (simp add: fun_upd_idem)
  then have "k = ?s 0" by simp
  then have "\<exists>s. Thread_SaveUserState t k = Inr s \<and> s = ?s (0 + NumTotalRegs)" unfolding Thread_SaveUserState_def
  proof (rule for_loop_rule [where I = "\<lambda>j s. s = ?s j"])
    fix j s assume "j < 0 + NumTotalRegs" "s = ?s j"
    moreover have "(\<lambda>i. if i < j then registers k i else userRegisters th i)(j := registers k j) =
        (\<lambda>i. if i < Suc j then registers k i else userRegisters th i)" by (auto simp: less_Suc_eq)
    ultimately show "\<exists>s'. bind_r (Machine_ReadRegister (int j) s) (\<lambda>v.
        upd_thread t (\<lambda>th. th\<lparr>userRegisters := (userRegisters th)(j := v)\<rparr>) s) = Inr s' \<and> s' = ?s (Suc j)"
      by (simp add: Machine_ReadRegister_def upd_thread_def)
  qed
  then show ?thesis by simp
qed

lemma RestoreUserState_regs:
  assumes "threads k t = Some th"
  shows "Thread_RestoreUserState t k =
    Inr (k\<lparr>registers := (\<lambda>i. if i < NumTotalRegs then userRegisters th i else registers k i)\<rparr>)"
proof -
  let ?s = "\<lambda>j. k\<lparr>registers := (\<lambda>i. if i < j then userRegisters th i else registers k i)\<rparr>"
  have "\<exists>s. Thread_RestoreUserState t k = Inr s \<and> s = ?s (0 + NumTotalRegs)" unfolding Thread_RestoreUserState_def
  proof (rule for_loop_rule [where I = "\<lambda>j s. s = ?s j"])
    fix j s assume "j < 0 + NumTotalRegs" "s = ?s j"
    moreover have "(\<lambda>i. if i < j then userRegisters th i else registers k i)(j := userRegisters th j) =
        (\<lambda>i. if i < Suc j then userRegisters th i else registers k i)" by (auto simp: less_Suc_eq)
    ultimately show "\<exists>s'. bind_r (obj (threads s) t) (\<lambda>th. Machine_WriteRegister (int j) (userRegisters th j) s) = Inr s'
        \<and> s' = ?s (Suc j)"
      using assms by (simp add: Machine_WriteRegister_def)
  qed simp
  then show ?thesis by simp
qed

lemma Run_before_saved:
  assumes "Run_before rp n k = Inr k'"
  shows "registers k' = registers k" "currentThread k' = n" "n = currentThread k \<Longrightarrow> saved k'"
proof -
  from assms obtain th k1 where k1: "threads k (currentThread k) = Some th"
    "(case thr_space th of None \<Rightarrow> Inr k
      | Some sp \<Rightarrow> bind_r (Thread_SaveUserState (currentThread k) k) (AddrSpace_SaveState sp)) = Inr k1"
    "bind_r (upd_thread n (\<lambda>th. th\<lparr>thr_status := RUNNING\<rparr>) (k1\<lparr>currentThread := n\<rparr>)) (\<lambda>k2.
      upd_thread (currentThread k) (\<lambda>th. th\<lparr>machineState := Some rp\<rparr>) k2) = Inr k'"
    by (auto simp: Run_before_def Let_def obj_Inr_iff elim!: bind_r_InrE)
  from k1(1,2) have r: "registers k1 = registers k" "currentThread k1 = currentThread k"
    "\<And>th. threads k1 (currentThread k) = Some th \<Longrightarrow> thr_space th \<noteq> None \<Longrightarrow> \<forall>i < NumTotalRegs. userRegisters th i = registers k i"
    by (auto simp: SaveUserState_regs AddrSpace_SaveState_def split: option.split_asm)
  from k1(3) r show "registers k' = registers k" "currentThread k' = n"
    by (auto simp: upd_thread_def elim!: bind_r_InrE)
  show "saved k'" if "n = currentThread k" using k1(3) r that
    by (auto simp: upd_thread_def saved_def obj_Inr_iff elim!: bind_r_InrE)
qed

lemma Run_after_keeps:
  assumes "Run_after k = Inr k'" "saved k"
  shows "keeps_pc k k'" "currentThread k' = currentThread k"
proof -
  from assms(1) obtain k1 where k1: "(case threadToBeDestroyed k of None \<Rightarrow> Inr k
      | Some d \<Rightarrow> bind_r (Thread_delete d k) (\<lambda>k1. Inr (k1\<lparr>threadToBeDestroyed := None\<rparr>))) = Inr k1"
    and k': "bind_r (obj (threads k1) (currentThread k1)) (\<lambda>th.
       case thr_space th of None \<Rightarrow> Inr k1
       | Some sp \<Rightarrow> bind_r (Thread_RestoreUserState (currentThread k1) k1) (AddrSpace_RestoreState sp)) = Inr k'"
    unfolding Run_after_def by (rule bind_r_InrE)
  from k1 have s: "registers k1 = registers k" "currentThread k1 = currentThread k"
    "threads k1 (currentThread k) = threads k (currentThread k)"
    by (auto simp: Thread_delete_def ASSERT_def elim!: bind_r_InrE split: option.split_asm if_split_asm)
  from k' s show "currentThread k' = currentThread k"
    by (auto simp: RestoreUserState_regs obj_Inr_iff AddrSpace_RestoreState_def elim!: bind_r_InrE split: option.split_asm)
  have "registers k' i = registers k i" if "i < NumTotalRegs" for i
    using k' s that assms(2) unfolding saved_def
    by (auto simp: RestoreUserState_regs obj_Inr_iff AddrSpace_RestoreState_def elim!: bind_r_InrE split: option.split_asm)
  then show "keeps_pc k k'" by (simp add: keeps_pc_def cpu_ok_def reg_defs)
qed

text \<open>\<^verbatim>\<open>P\<close> called by the only thread, which waits in \<^verbatim>\<open>Idle\<close> for the devices.\<close>

abbreviation wait_devices :: "'z sys_scheme \<Rightarrow> 'z sys_scheme result" where
  "wait_devices \<equiv> Interrupt_Idle device_call"

lemma sleep_loop_kept: "sleep_loop n wait_devices k = Inr (t, k') \<Longrightarrow> idle_kept k k'"
proof (induction n arbitrary: k)
  case (Suc n)
  have f: "idle_kept k k1" if "Scheduler_FindNextToRun k = Inr (r, k1)" for r k1
    using that by (auto simp: Scheduler_FindNextToRun_def same_cpu_def elim!: bind_r_InrE intro!: idle_kept_same)
  from Suc.prems show ?case
    by (auto elim!: bind_r_InrE split: option.split_asm dest!: f idle_kept_Idle Suc.IH)
      (blast intro: idle_kept_trans)
qed simp

lemma P_loop_kept:
  assumes "P_loop fuel wait_devices plain_SetLevel s l k = Inr (taken, k')"
  shows "keeps_pc k k'" "\<not> taken \<Longrightarrow> currentThread k' = currentThread k \<Longrightarrow> saved k'"
proof -
  from assms obtain b k1 where k1: "P_test s k = Inr (b, k1)" "if b then taken \<and> (\<exists>o'. plain_SetLevel l k1 = Inr (o', k'))
     else \<not> taken \<and> Thread_Sleep fuel wait_devices (InP s l) (currentThread k1) k1 = Inr k'"
    by (auto simp: P_loop_def elim!: bind_r_InrE split: if_split_asm)
  have t: "same_cpu k k1" using k1(1)
    by (auto simp: P_test_def elim!: bind_r_InrE dest!: same_upd split: if_split_asm)
  have sl: "keeps_pc k1 k' \<and> (currentThread k' = currentThread k1 \<longrightarrow> saved k')"
    if "Thread_Sleep fuel wait_devices (InP s l) (currentThread k1) k1 = Inr k'"
  proof -
    from that obtain k2 n k3 where k2: "Sleep_begin (currentThread k1) k1 = Inr k2" "sleep_loop fuel wait_devices k2 = Inr (n, k3)"
      "Run_before (InP s l) n k3 = Inr k'" by (auto simp: Thread_Sleep_def elim!: bind_r_InrE)
    have "idle_kept k1 k2" using k2(1) by (auto simp: Sleep_begin_def elim!: bind_r_InrE dest!: same_upd intro!: idle_kept_same)
    then have "idle_kept k1 k3" using sleep_loop_kept [OF k2(2)] by (rule idle_kept_trans)
    then show ?thesis using Run_before_saved [OF k2(3)] by (auto simp: idle_kept_def intro: keeps_trans keeps_regs)
  qed
  show "keeps_pc k k'" using k1(2) t sl
    by (auto simp: same_cpu_def keeps_pc_def cpu_ok_def dest!: same_plain_SetLevel split: if_split_asm)
  show "saved k'" if "\<not> taken" "currentThread k' = currentThread k"
    using k1(2) t sl that by (auto simp: same_cpu_def split: if_split_asm)
qed

lemma resume_current_kept:
  assumes "resume_current fuel wait_devices plain_SetLevel k = Inr (taken, k')" "saved k"
  shows "keeps_pc k k'" "\<not> taken \<Longrightarrow> currentThread k' = currentThread k \<Longrightarrow> saved k'"
proof -
  from assms(1) obtain th where th: "threads k (currentThread k) = Some th"
    by (auto simp: resume_current_def obj_Inr_iff elim!: bind_r_InrE)
  show "keeps_pc k k'" using assms th
    by (auto simp: resume_current_def split: option.split_asm resume.split_asm elim!: bind_r_InrE
        dest!: same_plain_SetLevel Run_after_keeps(1) P_loop_kept(1) intro: keeps_trans)
      (auto simp: same_cpu_def keeps_pc_def cpu_ok_def)
  show "saved k'" if "\<not> taken" "currentThread k' = currentThread k"
  proof -
    from assms(1) th that(1) obtain s l k1 where k1: "Run_after k = Inr k1" "P_loop fuel wait_devices plain_SetLevel s l k1 = Inr (taken, k')"
      by (auto simp: resume_current_def split: option.split_asm resume.split_asm elim!: bind_r_InrE)
    then show ?thesis using P_loop_kept(2) [OF k1(2) that(1)] Run_after_keeps(2) [OF k1(1) assms(2)] that(2) by simp
  qed
qed

lemma P_resumed_kept:
  "P_resumed n fuel wait_devices plain_SetLevel this (taken, k) = Inr k' \<Longrightarrow>
   (\<not> taken \<Longrightarrow> currentThread k = this \<Longrightarrow> saved k) \<Longrightarrow> keeps_pc k k'"
proof (induction n arbitrary: taken k)
  case (Suc n)
  show ?case
  proof (cases taken)
    case False
    with Suc.prems obtain b k1 where k1: "currentThread k = this" "saved k"
      "resume_current fuel wait_devices plain_SetLevel k = Inr (b, k1)"
      "P_resumed n fuel wait_devices plain_SetLevel this (b, k1) = Inr k'"
      by (auto elim!: bind_r_InrE split: if_split_asm)
    have "keeps_pc k1 k'"
      by (rule Suc.IH [OF k1(4)]) (use resume_current_kept(2) [OF k1(3,2)] k1(1) in simp)
    then show ?thesis using resume_current_kept(1) [OF k1(3,2)] by (blast intro: keeps_trans)
  qed (use Suc.prems in simp)
qed simp

lemma P_alone_kept:
  assumes "P_alone fuel wait_devices plain_SetLevel s k = Inr k'"
  shows "keeps_pc k k'"
proof -
  from assms obtain l k1 b k2 where k: "plain_SetLevel IntOff k = Inr (l, k1)"
    "P_loop fuel wait_devices plain_SetLevel s l k1 = Inr (b, k2)"
    "P_resumed 2 fuel wait_devices plain_SetLevel (currentThread k) (b, k2) = Inr k'"
    by (auto simp: P_alone_def Semaphore_P_def elim!: bind_r_InrE)
  have s: "keeps_pc k k1" "currentThread k1 = currentThread k"
    using same_plain_SetLevel [OF k(1)] by (simp_all add: same_cpu_def keeps_regs)
  have "keeps_pc k2 k'"
    by (rule P_resumed_kept [OF k(3)]) (use P_loop_kept(2) [OF k(2)] s(2) in simp)
  then show ?thesis using s(1) P_loop_kept(1) [OF k(2)] by (blast intro: keeps_trans)
qed

text \<open>The kernel's own calls, with what is outside the kernel arbitrary.\<close>

definition kernel_env :: "nat \<Rightarrow> nat \<Rightarrow> 32 word \<Rightarrow> byte \<Rightarrow> (rat \<Rightarrow> rat option) \<Rightarrow> 'z os_scheme sysenv" where
  "kernel_env fuel n w b rnd = \<lparr>se_calls = alone_calls fuel wait_devices plain_SetLevel, se_fuel = n, se_word = w,
     se_byte = b, se_rnd = rnd\<rparr>"

interpretation own: kernel_calls "kernel_env fuel n w b rnd" for fuel n w b rnd
  by unfold_locales (auto simp: kernel_env_def alone_calls_def same_cpu_def
      dest!: P_alone_kept same_V same_Fork intro: keeps_regs)

interpretation fault: trap_handler fault_handler
  by unfold_locales (use fault_handler_Inr in blast)

section \<open>Properties of the dispatch\<close>


text \<open>A call of \<^verbatim>\<open>CloseFile\<close> on the standard input, at address 8.\<close>

definition demo_close :: os where
  "demo_close = demo_os\<lparr>registers := (\<lambda>_. 0)(2 := SC_CloseFile, PCReg := 8, NextPCReg := 12)\<rparr>"

lemma demo_close_run:
  "ExceptionHandler (kernel_env 1 1 0 0 Some) SyscallException demo_close =
     Inr (demo_close\<lparr>registers := (\<lambda>_. 0)(2 := - 1, PrevPCReg := 8, PCReg := 12, NextPCReg := 16)\<rparr>)"
  by (simp add: ExceptionHandler_def ExceptionHandler_flow_def syscall_case_def demo_close_def SC_defs to_flow_def
      handle_SC_CloseFile_def Machine_ReadRegister_def Machine_WriteRegister_def IncrementR_eq reg_defs fun_upd_twist)


text \<open>
  \<^verbatim>\<open>PrintFloat\<close> of a zero skips an instruction.  Its handler advances the program counter itself, and the
  dispatch does it again: the program goes on after the instruction that follows the system call.
\<close>

lemma PrintFloat_zero_skips:
  assumes "cpu_ok k" "registers k 2 = SC_PrintFloat" "registers k 4 = 0" "rnd 0 = Some 0"
    and "console_write (kernel_env fuel n w b rnd) [48, 46, 48, 0] 3 k = Inr k1"
  shows "\<exists>k'. ExceptionHandler (kernel_env fuel n w b rnd) SyscallException k = Inr k' \<and>
    registers k' PCReg = registers k NextPCReg + 4 \<and> registers k' PrevPCReg = registers k NextPCReg"
proof -
  have k1: "keeps_pc k k1" by (rule own.keeps_console_write [OF assms(5)])
  have "handle_SC_PrintFloat (kernel_env fuel n w b rnd) k = IncrementR k1"
    using assms(3-5) by (simp add: handle_SC_PrintFloat_def Machine_ReadRegister_def reg_defs Let_def int_to_float_def kernel_env_def)
  then show ?thesis using assms(1,2) k1
    by (simp add: ExceptionHandler_def ExceptionHandler_flow_def syscall_case_def SC_defs to_flow_def IncrementR_eq
        Machine_ReadRegister_def reg_defs keeps_pc_def)
qed

end
