(* ===== verification/Disk_Files.thy ===== *)
theory Disk_Files
  imports User_Files
begin

text \<open>
  Files on the simulated disk, the configuration without \<^verbatim>\<open>FILESYS_STUB\<close>: file headers
  (\<^verbatim>\<open>filesys/filehdr.cc\<close>), directories (\<^verbatim>\<open>filesys/directory.cc\<close>), open files (\<^verbatim>\<open>filesys/openfile.cc\<close>) and the bitmap stored
  in a file.  The routines wait for the disk: \<open>P\<close> is the semaphore operation they wait with.  The file
  system is not prepared for concurrent use, as \<^verbatim>\<open>filesys/filesys.cc\<close> says; a header that is in memory is
  looked up once per operation.  \<open>raw\<close> is what freshly allocated memory contains, the same for every
  allocation.
\<close>

section \<open>Memory\<close>

definition fresh :: "(nat \<Rightarrow> byte) \<Rightarrow> nat \<Rightarrow> byte list" where
  "fresh raw n = map raw [0..<n]"

text \<open>The bytes \<^verbatim>\<open>buf[off], ..., buf[off + n - 1]\<close>, and copying into a buffer.\<close>

definition arr_slice :: "'a list \<Rightarrow> int \<Rightarrow> int \<Rightarrow> 'a list result" where
  "arr_slice buf off n =
     (if 0 \<le> off \<and> 0 \<le> n \<and> off + n \<le> int (length buf) then Inr (take (nat n) (drop (nat off) buf)) else Inl OutOfBounds)"

definition put_bytes :: "int \<Rightarrow> 'a list \<Rightarrow> 'a list \<Rightarrow> 'a list result" where
  "put_bytes off bs buf =
     (if 0 \<le> off \<and> off + int (length bs) \<le> int (length buf)
      then Inr (take (nat off) buf @ bs @ drop (nat off + length bs) buf) else Inl OutOfBounds)"

definition words_of :: "byte list \<Rightarrow> 32 word list" where
  "words_of bs = map (\<lambda>i. of_bytes (drop (4 * i) bs)) [0..<length bs div 4]"

definition word_bytes :: "32 word list \<Rightarrow> byte list" where
  "word_bytes ws = concat (map bytes_of ws)"

text \<open>The characters before the terminating zero, at most \<open>n\<close> of them.\<close>

definition c_prefix :: "nat \<Rightarrow> byte list \<Rightarrow> byte list" where
  "c_prefix n s = take n (takeWhile (\<lambda>b. b \<noteq> 0) s)"

definition strncmp_eq :: "nat \<Rightarrow> byte list \<Rightarrow> byte list \<Rightarrow> bool" where
  "strncmp_eq n a b \<longleftrightarrow> c_prefix n a = c_prefix n b"

text \<open>\<^verbatim>\<open>strncpy\<close> fills up with zeros and leaves what is behind the first \<open>n\<close> characters as it is.\<close>

definition strncpy :: "nat \<Rightarrow> byte list \<Rightarrow> byte list \<Rightarrow> byte list" where
  "strncpy n dst src = c_prefix n src @ replicate (n - length (c_prefix n src)) 0 @ drop n dst"

section \<open>State\<close>

definition NumDirect :: nat where "NumDirect = (SectorSize - 2 * 4) div 4"
definition MaxFileSize :: nat where "MaxFileSize = NumDirect * SectorSize"
definition FileNameMaxLen :: nat where "FileNameMaxLen = 9"

record FileHeader =
  fh_numBytes :: int
  fh_numSectors :: int
  fh_dataSectors :: "int list"

text \<open>The compiler puts unused bytes before \<^verbatim>\<open>sector\<close> and at the end, so that an entry has 20 bytes.\<close>

record DirectoryEntry =
  de_inUse :: bool
  de_gap :: "byte list"
  de_sector :: int
  de_name :: "byte list"
  de_tail :: "byte list"

record Directory =
  tableSize :: int
  dir_table :: "DirectoryEntry list"

record DiskFile =
  df_hdr :: FileHeader
  df_seekPosition :: int
  df_type :: int

text \<open>The pointers of the file system are \<open>None\<close> before they are initialised.\<close>

record dfs = sys +
  disk_files :: "nat \<Rightarrow> DiskFile option"
  disk_file_brk :: nat
  disk_file_table :: "nat option list"
  freeMapFile :: "nat option"
  directoryFile :: "nat option"

definition entry_size :: nat where "entry_size = 20"

declare NumDirect_def [nachos_defs] MaxFileSize_def [nachos_defs] FileNameMaxLen_def [nachos_defs] entry_size_def [nachos_defs]

section \<open>File headers\<close>

definition hdr_bytes :: "FileHeader \<Rightarrow> byte list" where
  "hdr_bytes h = word_bytes (of_int (fh_numBytes h) # of_int (fh_numSectors h) # map of_int (fh_dataSectors h))"

definition bytes_hdr :: "byte list \<Rightarrow> FileHeader" where
  "bytes_hdr bs = (let ws = words_of bs in
     \<lparr>fh_numBytes = sint (ws ! 0), fh_numSectors = sint (ws ! 1), fh_dataSectors = map sint (drop 2 ws)\<rparr>)"

text \<open>\<^verbatim>\<open>new FileHeader\<close>: there is no constructor.\<close>

definition FileHeader_new :: "(nat \<Rightarrow> byte) \<Rightarrow> FileHeader" where
  "FileHeader_new raw = bytes_hdr (fresh raw SectorSize)"

definition FileHeader_Allocate :: "int \<Rightarrow> FileHeader \<Rightarrow> BitMap \<Rightarrow> (bool \<times> FileHeader \<times> BitMap) result" where
  "FileHeader_Allocate fileSize h freeMap =
     (let n = divRoundUp fileSize (int SectorSize); h1 = h\<lparr>fh_numBytes := fileSize, fh_numSectors := n\<rparr> in
      bind_r (BitMap_NumClear freeMap) (\<lambda>c.
        if c < n then Inr (False, h1, freeMap)
        else bind_r (for_loop 0 (nat n) (\<lambda>i (h, b).
               bind_r (BitMap_FindFreeSlot b) (\<lambda>(s, b1).
               bind_r (arr_set (fh_dataSectors h) (int i) s) (\<lambda>ds. Inr (h\<lparr>fh_dataSectors := ds\<rparr>, b1)))) (h1, freeMap)) (\<lambda>(h2, b).
             Inr (True, h2, b))))"

definition FileHeader_Deallocate :: "FileHeader \<Rightarrow> BitMap \<Rightarrow> BitMap result" where
  "FileHeader_Deallocate h freeMap =
     for_loop 0 (nat (fh_numSectors h)) (\<lambda>i b.
       bind_r (arr_get (fh_dataSectors h) (int i)) (\<lambda>s.
       bind_r (BitMap_Test s b) (\<lambda>marked.
       bind_r (ASSERT marked) (\<lambda>_. BitMap_Clear s b)))) freeMap"

definition FileHeader_FetchFrom :: "'z sys_scheme semop \<Rightarrow> int \<Rightarrow> 'z sys_scheme \<Rightarrow> (FileHeader \<times> 'z sys_scheme) result" where
  "FileHeader_FetchFrom P s k = bind_r (SynchDisk_ReadSector P s k) (\<lambda>(bs, k1). Inr (bytes_hdr bs, k1))"

definition FileHeader_WriteBack :: "'z sys_scheme semop \<Rightarrow> int \<Rightarrow> FileHeader \<Rightarrow> 'z sys_scheme \<Rightarrow> 'z sys_scheme result" where
  "FileHeader_WriteBack P s h k = SynchDisk_WriteSector P s (hdr_bytes h) k"

definition FileHeader_ByteToSector :: "int \<Rightarrow> FileHeader \<Rightarrow> int result" where
  "FileHeader_ByteToSector offset h = arr_get (fh_dataSectors h) (c_div offset (int SectorSize))"

definition FileHeader_FileLength :: "FileHeader \<Rightarrow> int" where
  "FileHeader_FileLength h = fh_numBytes h"

section \<open>Open files\<close>

fun read_sectors :: "'z sys_scheme semop \<Rightarrow> FileHeader \<Rightarrow> int \<Rightarrow> nat \<Rightarrow> 'z sys_scheme \<Rightarrow>
    (byte list \<times> 'z sys_scheme) result" where
  "read_sectors P h i 0 k = Inr ([], k)"
| "read_sectors P h i (Suc n) k =
     bind_r (FileHeader_ByteToSector (i * int SectorSize) h) (\<lambda>s.
     bind_r (SynchDisk_ReadSector P s k) (\<lambda>(d, k1).
     bind_r (read_sectors P h (i + 1) n k1) (\<lambda>(ds, k2). Inr (d @ ds, k2))))"

fun write_sectors :: "'z sys_scheme semop \<Rightarrow> FileHeader \<Rightarrow> int \<Rightarrow> nat \<Rightarrow> byte list \<Rightarrow> 'z sys_scheme \<Rightarrow>
    'z sys_scheme result" where
  "write_sectors P h i 0 buf k = Inr k"
| "write_sectors P h i (Suc n) buf k =
     bind_r (FileHeader_ByteToSector (i * int SectorSize) h) (\<lambda>s.
     bind_r (SynchDisk_WriteSector P s buf k) (write_sectors P h (i + 1) n (drop SectorSize buf)))"

text \<open>The count that is returned, and the bytes stored at \<^verbatim>\<open>into\<close>.\<close>

definition hdr_ReadAt :: "'z sys_scheme semop \<Rightarrow> FileHeader \<Rightarrow> int \<Rightarrow> int \<Rightarrow> 'z sys_scheme \<Rightarrow>
    (int \<times> byte list \<times> 'z sys_scheme) result" where
  "hdr_ReadAt P h numBytes position k =
     (let fileLength = FileHeader_FileLength h in
      if numBytes \<le> 0 \<or> position \<ge> fileLength then Inr (0, [], k)
      else
        let numBytes = (if position + numBytes > fileLength then fileLength - position else numBytes);
            firstSector = divRoundDown position (int SectorSize);
            lastSector = divRoundDown (position + numBytes - 1) (int SectorSize)
        in bind_r (read_sectors P h firstSector (nat (1 + lastSector - firstSector)) k) (\<lambda>(buf, k1).
           bind_r (arr_slice buf (position - firstSector * int SectorSize) numBytes) (\<lambda>bs.
           Inr (numBytes, bs, k1))))"

text \<open>The buffer of \<^verbatim>\<open>WriteAt\<close> after the sectors that are modified in part have been read in.\<close>

definition write_buffer :: "(nat \<Rightarrow> byte) \<Rightarrow> 'z sys_scheme semop \<Rightarrow> FileHeader \<Rightarrow> int \<Rightarrow> int \<Rightarrow> int \<Rightarrow> int \<Rightarrow>
    'z sys_scheme \<Rightarrow> (byte list \<times> 'z sys_scheme) result" where
  "write_buffer raw P h position numBytes firstSector lastSector k =
     (let ss = int SectorSize; numSectors = 1 + lastSector - firstSector;
          buf = fresh raw (nat (numSectors * ss));
          firstAligned = (position = firstSector * ss);
          lastAligned = (position + numBytes = (lastSector + 1) * ss)
      in bind_r (if \<not> firstAligned
                 then bind_r (hdr_ReadAt P h ss (firstSector * ss) k) (\<lambda>(_, bs, k1).
                      bind_r (put_bytes 0 bs buf) (\<lambda>buf1. Inr (buf1, k1)))
                 else Inr (buf, k)) (\<lambda>(buf1, k1).
         if \<not> lastAligned \<and> (firstSector \<noteq> lastSector \<or> firstAligned)
         then bind_r (hdr_ReadAt P h ss (lastSector * ss) k1) (\<lambda>(_, bs, k2).
              bind_r (put_bytes ((lastSector - firstSector) * ss) bs buf1) (\<lambda>buf2. Inr (buf2, k2)))
         else Inr (buf1, k1)))"

definition hdr_WriteAt :: "(nat \<Rightarrow> byte) \<Rightarrow> 'z sys_scheme semop \<Rightarrow> FileHeader \<Rightarrow> byte list \<Rightarrow> int \<Rightarrow> int \<Rightarrow>
    'z sys_scheme \<Rightarrow> (int \<times> 'z sys_scheme) result" where
  "hdr_WriteAt raw P h from numBytes position k =
     (let fileLength = FileHeader_FileLength h in
      if numBytes \<le> 0 \<or> position \<ge> fileLength then Inr (0, k)
      else
        let numBytes = (if position + numBytes > fileLength then fileLength - position else numBytes);
            firstSector = divRoundDown position (int SectorSize);
            lastSector = divRoundDown (position + numBytes - 1) (int SectorSize)
        in bind_r (write_buffer raw P h position numBytes firstSector lastSector k) (\<lambda>(buf, k1).
           bind_r (arr_slice from 0 numBytes) (\<lambda>bs.
           bind_r (put_bytes (position - firstSector * int SectorSize) bs buf) (\<lambda>buf1.
           bind_r (write_sectors P h firstSector (nat (1 + lastSector - firstSector)) buf1 k1) (\<lambda>k2.
           Inr (numBytes, k2))))))"

text \<open>The two constructors; the first one opens the file read-only.\<close>

definition DiskFile_new_type :: "'z dfs_scheme semop \<Rightarrow> int \<Rightarrow> int \<Rightarrow> 'z dfs_scheme \<Rightarrow> (nat \<times> 'z dfs_scheme) result" where
  "DiskFile_new_type P s type k =
     bind_r (FileHeader_FetchFrom P s k) (\<lambda>(h, k1).
     Inr (disk_file_brk k1, k1\<lparr>disk_files := (disk_files k1)(disk_file_brk k1 \<mapsto>
        \<lparr>df_hdr = h, df_seekPosition = 0, df_type = type\<rparr>), disk_file_brk := Suc (disk_file_brk k1)\<rparr>))"

definition DiskFile_new :: "'z dfs_scheme semop \<Rightarrow> int \<Rightarrow> 'z dfs_scheme \<Rightarrow> (nat \<times> 'z dfs_scheme) result" where
  "DiskFile_new P s k = DiskFile_new_type P s 1 k"

definition DiskFile_delete :: "nat \<Rightarrow> 'z dfs_scheme \<Rightarrow> 'z dfs_scheme result" where
  "DiskFile_delete p k = bind_r (obj (disk_files k) p) (\<lambda>_. Inr (k\<lparr>disk_files := (disk_files k)(p := None)\<rparr>))"

definition DiskFile_Seek :: "nat \<Rightarrow> int \<Rightarrow> 'z dfs_scheme \<Rightarrow> 'z dfs_scheme result" where
  "DiskFile_Seek p position k = bind_r (obj (disk_files k) p) (\<lambda>f.
     Inr (k\<lparr>disk_files := (disk_files k)(p \<mapsto> f\<lparr>df_seekPosition := position\<rparr>)\<rparr>))"

definition DiskFile_CurPos :: "nat \<Rightarrow> 'z dfs_scheme \<Rightarrow> int result" where
  "DiskFile_CurPos p k = bind_r (obj (disk_files k) p) (\<lambda>f. Inr (df_seekPosition f))"

definition DiskFile_ReadAt :: "'z dfs_scheme semop \<Rightarrow> nat \<Rightarrow> int \<Rightarrow> int \<Rightarrow> 'z dfs_scheme \<Rightarrow>
    (int \<times> byte list \<times> 'z dfs_scheme) result" where
  "DiskFile_ReadAt P p numBytes position k =
     bind_r (obj (disk_files k) p) (\<lambda>f. hdr_ReadAt P (df_hdr f) numBytes position k)"

definition DiskFile_WriteAt :: "(nat \<Rightarrow> byte) \<Rightarrow> 'z dfs_scheme semop \<Rightarrow> nat \<Rightarrow> byte list \<Rightarrow> int \<Rightarrow> int \<Rightarrow> 'z dfs_scheme \<Rightarrow>
    (int \<times> 'z dfs_scheme) result" where
  "DiskFile_WriteAt raw P p from numBytes position k =
     bind_r (obj (disk_files k) p) (\<lambda>f. hdr_WriteAt raw P (df_hdr f) from numBytes position k)"

definition DiskFile_Read :: "'z dfs_scheme semop \<Rightarrow> nat \<Rightarrow> int \<Rightarrow> 'z dfs_scheme \<Rightarrow> (int \<times> byte list \<times> 'z dfs_scheme) result" where
  "DiskFile_Read P p numBytes k =
     bind_r (DiskFile_CurPos p k) (\<lambda>pos.
     bind_r (DiskFile_ReadAt P p numBytes pos k) (\<lambda>(result, bs, k1).
     bind_r (DiskFile_CurPos p k1) (\<lambda>pos1.
     bind_r (DiskFile_Seek p (pos1 + result) k1) (\<lambda>k2. Inr (result, bs, k2)))))"

definition DiskFile_Write :: "(nat \<Rightarrow> byte) \<Rightarrow> 'z dfs_scheme semop \<Rightarrow> nat \<Rightarrow> byte list \<Rightarrow> int \<Rightarrow> 'z dfs_scheme \<Rightarrow>
    (int \<times> 'z dfs_scheme) result" where
  "DiskFile_Write raw P p from numBytes k =
     bind_r (DiskFile_CurPos p k) (\<lambda>pos.
     bind_r (DiskFile_WriteAt raw P p from numBytes pos k) (\<lambda>(result, k1).
     bind_r (DiskFile_CurPos p k1) (\<lambda>pos1.
     bind_r (DiskFile_Seek p (pos1 + result) k1) (\<lambda>k2. Inr (result, k2)))))"

definition DiskFile_Length :: "nat \<Rightarrow> 'z dfs_scheme \<Rightarrow> int result" where
  "DiskFile_Length p k = bind_r (obj (disk_files k) p) (\<lambda>f. Inr (FileHeader_FileLength (df_hdr f)))"

section \<open>The bitmap in a file\<close>

text \<open>Bytes read into an object whose memory had other contents before.\<close>

definition overlay :: "byte list \<Rightarrow> byte list \<Rightarrow> byte list" where
  "overlay bs old = bs @ drop (length bs) old"

definition BitMap_FetchFrom :: "'z dfs_scheme semop \<Rightarrow> nat \<Rightarrow> BitMap \<Rightarrow> 'z dfs_scheme \<Rightarrow> (BitMap \<times> 'z dfs_scheme) result" where
  "BitMap_FetchFrom P file b k =
     bind_r (DiskFile_ReadAt P file (numWords b * 4) 0 k) (\<lambda>(_, bs, k1).
     Inr (b\<lparr>bm_words := words_of (overlay bs (word_bytes (bm_words b)))\<rparr>, k1))"

definition BitMap_WriteBack :: "(nat \<Rightarrow> byte) \<Rightarrow> 'z dfs_scheme semop \<Rightarrow> nat \<Rightarrow> BitMap \<Rightarrow> 'z dfs_scheme \<Rightarrow> 'z dfs_scheme result" where
  "BitMap_WriteBack raw P file b k =
     bind_r (DiskFile_WriteAt raw P file (word_bytes (bm_words b)) (numWords b * 4) 0 k) (\<lambda>(_, k1). Inr k1)"

section \<open>Directories\<close>

definition entry_bytes :: "DirectoryEntry \<Rightarrow> byte list" where
  "entry_bytes e = (if de_inUse e then 1 else 0) # de_gap e @ bytes_of (of_int (de_sector e)) @ de_name e @ de_tail e"

definition bytes_entry :: "byte list \<Rightarrow> DirectoryEntry" where
  "bytes_entry bs = \<lparr>de_inUse = (bs ! 0 \<noteq> 0), de_gap = take 3 (drop 1 bs), de_sector = sint (of_bytes (drop 4 bs)),
     de_name = take 10 (drop 8 bs), de_tail = take 2 (drop 18 bs)\<rparr>"

definition table_bytes :: "DirectoryEntry list \<Rightarrow> byte list" where
  "table_bytes t = concat (map entry_bytes t)"

definition bytes_table :: "byte list \<Rightarrow> DirectoryEntry list" where
  "bytes_table bs = map (\<lambda>i. bytes_entry (take entry_size (drop (entry_size * i) bs))) [0..<length bs div entry_size]"

definition Directory_new :: "(nat \<Rightarrow> byte) \<Rightarrow> int \<Rightarrow> Directory" where
  "Directory_new raw sz = \<lparr>tableSize = sz,
     dir_table = map (\<lambda>e. e\<lparr>de_inUse := False\<rparr>) (bytes_table (fresh raw (nat sz * entry_size)))\<rparr>"

definition Directory_FetchFrom :: "'z dfs_scheme semop \<Rightarrow> nat \<Rightarrow> Directory \<Rightarrow> 'z dfs_scheme \<Rightarrow> (Directory \<times> 'z dfs_scheme) result" where
  "Directory_FetchFrom P file d k =
     bind_r (DiskFile_ReadAt P file (tableSize d * int entry_size) 0 k) (\<lambda>(_, bs, k1).
     Inr (d\<lparr>dir_table := bytes_table (overlay bs (table_bytes (dir_table d)))\<rparr>, k1))"

definition Directory_WriteBack :: "(nat \<Rightarrow> byte) \<Rightarrow> 'z dfs_scheme semop \<Rightarrow> nat \<Rightarrow> Directory \<Rightarrow> 'z dfs_scheme \<Rightarrow> 'z dfs_scheme result" where
  "Directory_WriteBack raw P file d k =
     bind_r (DiskFile_WriteAt raw P file (table_bytes (dir_table d)) (tableSize d * int entry_size) 0 k) (\<lambda>(_, k1). Inr k1)"

text \<open>The loops of \<^verbatim>\<open>FindIndex\<close> and \<^verbatim>\<open>Add\<close>: the first index whose entry satisfies the test, or \<open>-1\<close>.\<close>

fun find_entry_from :: "(DirectoryEntry \<Rightarrow> bool) \<Rightarrow> nat \<Rightarrow> nat \<Rightarrow> DirectoryEntry list \<Rightarrow> int result" where
  "find_entry_from test i 0 t = Inr (- 1)"
| "find_entry_from test i (Suc n) t =
     bind_r (arr_get t (int i)) (\<lambda>e. if test e then Inr (int i) else find_entry_from test (Suc i) n t)"

definition Directory_FindIndex :: "byte list \<Rightarrow> Directory \<Rightarrow> int result" where
  "Directory_FindIndex name d =
     find_entry_from (\<lambda>e. de_inUse e \<and> strncmp_eq FileNameMaxLen (de_name e) name) 0 (nat (tableSize d)) (dir_table d)"

definition Directory_Find :: "byte list \<Rightarrow> Directory \<Rightarrow> int result" where
  "Directory_Find name d =
     bind_r (Directory_FindIndex name d) (\<lambda>i.
       if i \<noteq> - 1 then bind_r (arr_get (dir_table d) i) (\<lambda>e. Inr (de_sector e)) else Inr (- 1))"

definition Directory_Add :: "byte list \<Rightarrow> int \<Rightarrow> Directory \<Rightarrow> (bool \<times> Directory) result" where
  "Directory_Add name newSector d =
     bind_r (Directory_FindIndex name d) (\<lambda>i.
       if i \<noteq> - 1 then Inr (False, d)
       else bind_r (find_entry_from (\<lambda>e. \<not> de_inUse e) 0 (nat (tableSize d)) (dir_table d)) (\<lambda>j.
         if j = - 1 then Inr (False, d)
         else bind_r (arr_get (dir_table d) j) (\<lambda>e.
              bind_r (arr_set (dir_table d) j (e\<lparr>de_inUse := True, de_name := strncpy FileNameMaxLen (de_name e) name,
                 de_sector := newSector\<rparr>)) (\<lambda>t. Inr (True, d\<lparr>dir_table := t\<rparr>)))))"

definition Directory_Remove :: "byte list \<Rightarrow> Directory \<Rightarrow> (bool \<times> Directory) result" where
  "Directory_Remove name d =
     bind_r (Directory_FindIndex name d) (\<lambda>i.
       if i = - 1 then Inr (False, d)
       else bind_r (arr_get (dir_table d) i) (\<lambda>e.
            bind_r (arr_set (dir_table d) i (e\<lparr>de_inUse := False\<rparr>)) (\<lambda>t. Inr (True, d\<lparr>dir_table := t\<rparr>))))"

text \<open>The names \<^verbatim>\<open>List\<close> prints; one that fills its array is not terminated.\<close>

definition Directory_List :: "Directory \<Rightarrow> byte list list result" where
  "Directory_List d =
     for_loop 0 (nat (tableSize d)) (\<lambda>i out.
       bind_r (arr_get (dir_table d) (int i)) (\<lambda>e.
         if \<not> de_inUse e then Inr out
         else if 0 \<in> set (de_name e) then Inr (out @ [takeWhile (\<lambda>b. b \<noteq> 0) (de_name e)]) else Inl OutOfBounds)) []"

end
