(* ===== verification/Disk_FS.thy ===== *)
theory Disk_FS
  imports Disk_Files
begin

text \<open>
  The file system on the simulated disk, \<^verbatim>\<open>filesys/filesys.cc\<close>, and the routines of \<^verbatim>\<open>filesys/fstest.cc\<close> that use it.
  The bitmap of free sectors and the directory are files whose headers are in sectors 0 and 1.
\<close>

section \<open>Constants\<close>

definition FreeMapSector :: int where "FreeMapSector = 0"
definition DirectorySector :: int where "DirectorySector = 1"
definition FreeMapFileSize :: int where "FreeMapFileSize = NumSectors div BitsInByte"
definition NumDirEntries :: int where "NumDirEntries = 10"
definition DirectoryFileSize :: int where "DirectoryFileSize = int entry_size * NumDirEntries"

declare FreeMapSector_def [nachos_defs] DirectorySector_def [nachos_defs] FreeMapFileSize_def [nachos_defs]
  NumDirEntries_def [nachos_defs] DirectoryFileSize_def [nachos_defs]

text \<open>The pointers \<^verbatim>\<open>freeMapFile\<close> and \<^verbatim>\<open>directoryFile\<close>: using one before it is set is an error.\<close>

definition init_ptr :: "'a option \<Rightarrow> 'a result" where
  "init_ptr p = (case p of None \<Rightarrow> Inl BadPointer | Some x \<Rightarrow> Inr x)"

lemma init_ptr_simps [simp]: "init_ptr (Some x) = Inr x" "init_ptr None = Inl BadPointer"
  by (simp_all add: init_ptr_def)

text \<open>A bitmap just allocated, and a directory or bitmap fetched from its file.\<close>

definition new_map :: "(nat \<Rightarrow> byte) \<Rightarrow> BitMap result" where
  "new_map raw = BitMap_new NumSectors (words_of (fresh raw (nat NumSectors div 8)))"

definition fetch_map :: "(nat \<Rightarrow> byte) \<Rightarrow> 'z dfs_scheme semop \<Rightarrow> 'z dfs_scheme \<Rightarrow> (BitMap \<times> 'z dfs_scheme) result" where
  "fetch_map raw P k =
     bind_r (new_map raw) (\<lambda>b. bind_r (init_ptr (freeMapFile k)) (\<lambda>f. BitMap_FetchFrom P f b k))"

definition fetch_dir :: "(nat \<Rightarrow> byte) \<Rightarrow> 'z dfs_scheme semop \<Rightarrow> 'z dfs_scheme \<Rightarrow> (Directory \<times> 'z dfs_scheme) result" where
  "fetch_dir raw P k =
     bind_r (init_ptr (directoryFile k)) (\<lambda>f. Directory_FetchFrom P f (Directory_new raw NumDirEntries) k)"

definition flush_map :: "(nat \<Rightarrow> byte) \<Rightarrow> 'z dfs_scheme semop \<Rightarrow> BitMap \<Rightarrow> 'z dfs_scheme \<Rightarrow> 'z dfs_scheme result" where
  "flush_map raw P b k = bind_r (init_ptr (freeMapFile k)) (\<lambda>f. BitMap_WriteBack raw P f b k)"

definition flush_dir :: "(nat \<Rightarrow> byte) \<Rightarrow> 'z dfs_scheme semop \<Rightarrow> Directory \<Rightarrow> 'z dfs_scheme \<Rightarrow> 'z dfs_scheme result" where
  "flush_dir raw P d k = bind_r (init_ptr (directoryFile k)) (\<lambda>f. Directory_WriteBack raw P f d k)"

section \<open>Creating and removing\<close>

definition DiskFS_Create :: "(nat \<Rightarrow> byte) \<Rightarrow> 'z dfs_scheme semop \<Rightarrow> byte list \<Rightarrow> int \<Rightarrow> 'z dfs_scheme \<Rightarrow>
    (bool \<times> 'z dfs_scheme) result" where
  "DiskFS_Create raw P name initialSize k =
     bind_r (fetch_dir raw P k) (\<lambda>(directory, k1).
     bind_r (Directory_Find name directory) (\<lambda>found.
       if found \<noteq> - 1 then Inr (False, k1)
       else
         bind_r (fetch_map raw P k1) (\<lambda>(freeMap, k2).
         bind_r (BitMap_FindFreeSlot freeMap) (\<lambda>(s, freeMap1).
           if s = - 1 then Inr (False, k2)
           else
             bind_r (Directory_Add name s directory) (\<lambda>(added, directory1).
               if \<not> added then Inr (False, k2)
               else
                 bind_r (FileHeader_Allocate initialSize (FileHeader_new raw) freeMap1) (\<lambda>(allocated, hdr, freeMap2).
                   if \<not> allocated then Inr (False, k2)
                   else
                     bind_r (FileHeader_WriteBack P s hdr k2) (\<lambda>k3.
                     bind_r (flush_dir raw P directory1 k3) (\<lambda>k4.
                     bind_r (flush_map raw P freeMap2 k4) (\<lambda>k5. Inr (True, k5))))))))))"

definition DiskFS_Remove :: "(nat \<Rightarrow> byte) \<Rightarrow> 'z dfs_scheme semop \<Rightarrow> byte list \<Rightarrow> 'z dfs_scheme \<Rightarrow>
    (bool \<times> 'z dfs_scheme) result" where
  "DiskFS_Remove raw P name k =
     bind_r (fetch_dir raw P k) (\<lambda>(directory, k1).
     bind_r (Directory_Find name directory) (\<lambda>s.
       if s = - 1 then Inr (False, k1)
       else
         bind_r (FileHeader_FetchFrom P s k1) (\<lambda>(fileHdr, k2).
         bind_r (fetch_map raw P k2) (\<lambda>(freeMap, k3).
         bind_r (FileHeader_Deallocate fileHdr freeMap) (\<lambda>freeMap1.
         bind_r (BitMap_Clear s freeMap1) (\<lambda>freeMap2.
         bind_r (Directory_Remove name directory) (\<lambda>(_, directory1).
         bind_r (flush_map raw P freeMap2 k3) (\<lambda>k4.
         bind_r (flush_dir raw P directory1 k4) (\<lambda>k5. Inr (True, k5))))))))))"

section \<open>Opening\<close>

definition DiskFS_getIdxFreeSlot :: "'z dfs_scheme \<Rightarrow> int result" where
  "DiskFS_getIdxFreeSlot k = free_slot_loop 2 (nat N_FILES_IN_TABLE - 2) (disk_file_table k)"

text \<open>\<^verbatim>\<open>Open(char*)\<close> looks for a free slot of the table but does not use it.\<close>

definition DiskFS_Open :: "(nat \<Rightarrow> byte) \<Rightarrow> 'z dfs_scheme semop \<Rightarrow> byte list \<Rightarrow> 'z dfs_scheme \<Rightarrow>
    (nat option \<times> 'z dfs_scheme) result" where
  "DiskFS_Open raw P name k =
     bind_r (DiskFS_getIdxFreeSlot k) (\<lambda>freeslot.
       if freeslot = - 1 then Inr (None, k)
       else
         bind_r (fetch_dir raw P k) (\<lambda>(directory, k1).
         bind_r (Directory_Find name directory) (\<lambda>s.
           if s \<ge> 0 then bind_r (DiskFile_new P s k1) (\<lambda>(p, k2). Inr (Some p, k2)) else Inr (None, k1))))"

definition DiskFS_Open_type :: "(nat \<Rightarrow> byte) \<Rightarrow> 'z dfs_scheme semop \<Rightarrow> byte list \<Rightarrow> int \<Rightarrow> 'z dfs_scheme \<Rightarrow>
    (int \<times> 'z dfs_scheme) result" where
  "DiskFS_Open_type raw P name type k =
     bind_r (if type = 2 then Inr 0 else if type = 3 then Inr 1
             else if type = 0 \<or> type = 1 then DiskFS_getIdxFreeSlot k else Inr (- 1)) (\<lambda>freeslot.
       if freeslot = - 1 then Inr (- 1, k)
       else
         bind_r (fetch_dir raw P k) (\<lambda>(directory, k1).
         bind_r (Directory_Find name directory) (\<lambda>s.
           if s \<ge> 0
           then bind_r (DiskFile_new_type P s type k1) (\<lambda>(p, k2).
                bind_r (arr_set (disk_file_table k2) freeslot (Some p)) (\<lambda>tab.
                Inr (freeslot, k2\<lparr>disk_file_table := tab\<rparr>)))
           else Inr (- 1, k1))))"

section \<open>Starting\<close>

text \<open>\<^verbatim>\<open>freeMapFile = new OpenFile(FreeMapSector); directoryFile = new OpenFile(DirectorySector);\<close>\<close>

definition open_system_files :: "'z dfs_scheme semop \<Rightarrow> 'z dfs_scheme \<Rightarrow> 'z dfs_scheme result" where
  "open_system_files P k =
     bind_r (DiskFile_new P FreeMapSector k) (\<lambda>(f, k1).
     bind_r (DiskFile_new P DirectorySector (k1\<lparr>freeMapFile := Some f\<rparr>)) (\<lambda>(d, k2).
     Inr (k2\<lparr>directoryFile := Some d\<rparr>)))"

text \<open>The branch of the constructor that formats the disk.\<close>

definition format_disk :: "(nat \<Rightarrow> byte) \<Rightarrow> 'z dfs_scheme semop \<Rightarrow> 'z dfs_scheme \<Rightarrow> 'z dfs_scheme result" where
  "format_disk raw P k =
     bind_r (new_map raw) (\<lambda>b0.
     bind_r (BitMap_Mark FreeMapSector b0) (\<lambda>b1.
     bind_r (BitMap_Mark DirectorySector b1) (\<lambda>b2.
     bind_r (FileHeader_Allocate FreeMapFileSize (FileHeader_new raw) b2) (\<lambda>(ok1, mapHdr, b3).
     bind_r (ASSERT ok1) (\<lambda>_.
     bind_r (FileHeader_Allocate DirectoryFileSize (FileHeader_new raw) b3) (\<lambda>(ok2, dirHdr, b4).
     bind_r (ASSERT ok2) (\<lambda>_.
     bind_r (FileHeader_WriteBack P FreeMapSector mapHdr k) (\<lambda>k1.
     bind_r (FileHeader_WriteBack P DirectorySector dirHdr k1) (\<lambda>k2.
     bind_r (open_system_files P k2) (\<lambda>k3.
     bind_r (flush_map raw P b4 k3) (\<lambda>k4.
     flush_dir raw P (Directory_new raw NumDirEntries) k4)))))))))))"

text \<open>The names \<^verbatim>\<open>"stdin"\<close> and \<^verbatim>\<open>"stdout"\<close>.\<close>

definition stdin_name :: "byte list" where "stdin_name = [115, 116, 100, 105, 110]"
definition stdout_name :: "byte list" where "stdout_name = [115, 116, 100, 111, 117, 116]"

text \<open>The constructor; the pointers of the new object are not initialised.\<close>

definition DiskFS_new :: "(nat \<Rightarrow> byte) \<Rightarrow> 'z dfs_scheme semop \<Rightarrow> bool \<Rightarrow> 'z dfs_scheme \<Rightarrow> 'z dfs_scheme result" where
  "DiskFS_new raw P format k =
     bind_r (DiskFS_Create raw P stdin_name 0
       (k\<lparr>disk_file_table := replicate (nat N_FILES_IN_TABLE) None, freeMapFile := None, directoryFile := None\<rparr>)) (\<lambda>(_, k1).
     bind_r (DiskFS_Create raw P stdout_name 0 k1) (\<lambda>(_, k2).
     bind_r (DiskFS_Open_type raw P stdin_name 2 k2) (\<lambda>(_, k3).
     bind_r (DiskFS_Open_type raw P stdout_name 3 k3) (\<lambda>(_, k4).
     if format then format_disk raw P k4 else open_system_files P k4))))"

definition DiskFS_delete :: "'z dfs_scheme \<Rightarrow> 'z dfs_scheme result" where
  "DiskFS_delete k =
     for_loop 0 (nat N_FILES_IN_TABLE) (\<lambda>i k.
       bind_r (arr_get (disk_file_table k) (int i)) (\<lambda>e.
         case e of None \<Rightarrow> Inr k | Some p \<Rightarrow> DiskFile_delete p k)) k"

definition DiskFS_List :: "(nat \<Rightarrow> byte) \<Rightarrow> 'z dfs_scheme semop \<Rightarrow> 'z dfs_scheme \<Rightarrow> (byte list list \<times> 'z dfs_scheme) result" where
  "DiskFS_List raw P k =
     bind_r (fetch_dir raw P k) (\<lambda>(directory, k1). bind_r (Directory_List directory) (\<lambda>out. Inr (out, k1)))"

section \<open>Test routines\<close>

definition TransferSize :: nat where "TransferSize = 10"

text \<open>The loop of \<^verbatim>\<open>Copy\<close>: what is left of the UNIX file is written in pieces, whatever \<^verbatim>\<open>Write\<close> returns.\<close>

function copy_loop :: "(nat \<Rightarrow> byte) \<Rightarrow> 'z dfs_scheme semop \<Rightarrow> nat \<Rightarrow> byte list \<Rightarrow> 'z dfs_scheme \<Rightarrow> 'z dfs_scheme result" where
  "copy_loop raw P p bs k =
     (if bs = [] then Inr k
      else bind_r (DiskFile_Write raw P p (take TransferSize bs) (int (length (take TransferSize bs))) k) (\<lambda>(_, k1).
           copy_loop raw P p (drop TransferSize bs) k1))"
  by auto
termination by (relation "measure (\<lambda>(raw, P, p, bs, k). length bs)") (auto simp: TransferSize_def)

declare copy_loop.simps [simp del]

text \<open>\<^verbatim>\<open>Copy\<close>: \<open>from\<close> is what the UNIX file contains, if it can be opened.\<close>

definition Copy :: "(nat \<Rightarrow> byte) \<Rightarrow> 'z dfs_scheme semop \<Rightarrow> byte list option \<Rightarrow> byte list \<Rightarrow> 'z dfs_scheme \<Rightarrow> 'z dfs_scheme result" where
  "Copy raw P from to k =
     (case from of None \<Rightarrow> Inr k
      | Some bs \<Rightarrow>
          bind_r (DiskFS_Create raw P to (int (length bs)) k) (\<lambda>(created, k1).
            if \<not> created then Inr k1
            else bind_r (DiskFS_Open raw P to k1) (\<lambda>(openFile, k2).
                 case openFile of None \<Rightarrow> Inl AssertFail
                 | Some p \<Rightarrow> bind_r (copy_loop raw P p bs k2) (DiskFile_delete p))))"

text \<open>The loop of \<^verbatim>\<open>Print\<close>, with the characters printed; each turn but the last reads at least one byte.\<close>

fun print_loop :: "nat \<Rightarrow> 'z dfs_scheme semop \<Rightarrow> nat \<Rightarrow> byte list \<Rightarrow> 'z dfs_scheme \<Rightarrow> (byte list \<times> 'z dfs_scheme) result" where
  "print_loop 0 P p out k = Inl Diverges"
| "print_loop (Suc n) P p out k =
     bind_r (DiskFile_Read P p (int TransferSize) k) (\<lambda>(amountRead, bs, k1).
       if amountRead > 0 then print_loop n P p (out @ bs) k1 else Inr (out, k1))"

definition Print :: "nat \<Rightarrow> (nat \<Rightarrow> byte) \<Rightarrow> 'z dfs_scheme semop \<Rightarrow> byte list \<Rightarrow> 'z dfs_scheme \<Rightarrow>
    (byte list option \<times> 'z dfs_scheme) result" where
  "Print fuel raw P name k =
     bind_r (DiskFS_Open raw P name k) (\<lambda>(openFile, k1).
       case openFile of None \<Rightarrow> Inr (None, k1)
       | Some p \<Rightarrow> bind_r (print_loop fuel P p [] k1) (\<lambda>(out, k2).
                   bind_r (DiskFile_delete p k2) (\<lambda>k3. Inr (Some out, k3))))"

definition TestFile :: "byte list" where "TestFile = [84, 101, 115, 116, 70, 105, 108, 101]"
definition Contents :: "byte list" where "Contents = [49, 50, 51, 52, 53, 54, 55, 56, 57, 48]"
definition FileSize :: nat where "FileSize = 10 * 5000"

text \<open>The loops of \<^verbatim>\<open>FileWrite\<close> and \<^verbatim>\<open>FileRead\<close>; \<open>False\<close> if they give up.\<close>

fun write_loop :: "(nat \<Rightarrow> byte) \<Rightarrow> 'z dfs_scheme semop \<Rightarrow> nat \<Rightarrow> nat \<Rightarrow> 'z dfs_scheme \<Rightarrow> (bool \<times> 'z dfs_scheme) result" where
  "write_loop raw P p 0 k = Inr (True, k)"
| "write_loop raw P p (Suc n) k =
     bind_r (DiskFile_Write raw P p Contents 10 k) (\<lambda>(numBytes, k1).
       if numBytes < 10 then Inr (False, k1) else write_loop raw P p n k1)"

definition FileWrite :: "(nat \<Rightarrow> byte) \<Rightarrow> 'z dfs_scheme semop \<Rightarrow> 'z dfs_scheme \<Rightarrow> (bool \<times> 'z dfs_scheme) result" where
  "FileWrite raw P k =
     bind_r (DiskFS_Create raw P TestFile 0 k) (\<lambda>(created, k1).
       if \<not> created then Inr (False, k1)
       else bind_r (DiskFS_Open raw P TestFile k1) (\<lambda>(openFile, k2).
            case openFile of None \<Rightarrow> Inr (False, k2)
            | Some p \<Rightarrow> bind_r (write_loop raw P p (FileSize div 10) k2) (\<lambda>(done, k3).
                        bind_r (DiskFile_delete p k3) (\<lambda>k4. Inr (done, k4)))))"

fun read_loop :: "'z dfs_scheme semop \<Rightarrow> nat \<Rightarrow> nat \<Rightarrow> 'z dfs_scheme \<Rightarrow> (bool \<times> 'z dfs_scheme) result" where
  "read_loop P p 0 k = Inr (True, k)"
| "read_loop P p (Suc n) k =
     bind_r (DiskFile_Read P p 10 k) (\<lambda>(numBytes, bs, k1).
       if numBytes < 10 \<or> \<not> strncmp_eq 10 bs Contents then Inr (False, k1) else read_loop P p n k1)"

definition FileRead :: "(nat \<Rightarrow> byte) \<Rightarrow> 'z dfs_scheme semop \<Rightarrow> 'z dfs_scheme \<Rightarrow> (bool \<times> 'z dfs_scheme) result" where
  "FileRead raw P k =
     bind_r (DiskFS_Open raw P TestFile k) (\<lambda>(openFile, k1).
       case openFile of None \<Rightarrow> Inr (False, k1)
       | Some p \<Rightarrow> bind_r (read_loop P p (FileSize div 10) k1) (\<lambda>(done, k2).
                   bind_r (DiskFile_delete p k2) (\<lambda>k3. Inr (done, k3))))"

text \<open>\<^verbatim>\<open>PerformanceTest\<close>: whether the three parts succeed.\<close>

definition PerformanceTest :: "(nat \<Rightarrow> byte) \<Rightarrow> 'z dfs_scheme semop \<Rightarrow> 'z dfs_scheme \<Rightarrow>
    (bool \<times> bool \<times> bool \<times> 'z dfs_scheme) result" where
  "PerformanceTest raw P k =
     bind_r (FileWrite raw P k) (\<lambda>(written, k1).
     bind_r (FileRead raw P k1) (\<lambda>(read, k2).
     bind_r (DiskFS_Remove raw P TestFile k2) (\<lambda>(removed, k3). Inr (written, read, removed, k3))))"

end
