(* ===== verification/Synch_Disk.thy ===== *)
theory Synch_Disk
  imports Synch_Devices Device_Correct
begin

text \<open>
  The synchronous disk of \<^verbatim>\<open>filesys/synchdisk.cc\<close>: a request that returns only after the interrupt.  Its
  contract is the locale \<open>synch_disk\<close>: the disk is a list of sectors, of which a read returns one and a write
  replaces one, and the call returns.  The contract holds for a thread that is alone on a quiet machine and
  sleeps in \<^verbatim>\<open>Interrupt::Idle\<close> until the disk is done.
\<close>

section \<open>The disk as a list of sectors\<close>

definition disk :: "'z sys_scheme \<Rightarrow> byte list list" where
  "disk k = map (sector k) [0..<nat NumSectors]"

definition disk_wf :: "byte list list \<Rightarrow> bool" where
  "disk_wf D \<longleftrightarrow> length D = nat NumSectors \<and> (\<forall>s \<in> set D. length s = SectorSize)"

lemma length_disk [simp]: "length (disk k) = nat NumSectors"
  by (simp add: disk_def)

lemma disk_wf_update: "disk_wf D \<Longrightarrow> length d = SectorSize \<Longrightarrow> disk_wf (D[n := d])"
  by (auto simp: disk_wf_def dest: subsetD [OF set_update_subset_insert])

lemma disk_wf_nth: "disk_wf D \<Longrightarrow> n < nat NumSectors \<Longrightarrow> length (D ! n) = SectorSize"
  by (auto simp: disk_wf_def)

lemma disk_cong: "host k' = host k \<Longrightarrow> disk_fileno k' = disk_fileno k \<Longrightarrow> disk k' = disk k"
  by (auto simp: disk_def sector_def split: option.split)

lemma disk_update:
  assumes "\<forall>u < nat NumSectors. sector k' u = (if u = n then d else sector k u)"
  shows "disk k' = (disk k)[n := d]"
  by (rule nth_equalityI) (use assms in \<open>auto simp: disk_def nth_list_update\<close>)

lemma disk_ok_wf:
  assumes "disk_ok k"
  shows "disk_wf (disk k)"
proof -
  obtain ino off where e: "fd_entry (disk_fileno k) (host k) = Some (ino, off)" using assms by (auto simp: disk_ok_def)
  have "length (sector k n) = SectorSize" if "n < nat NumSectors" for n
  proof -
    have "int n < NumSectors" using that by (simp add: nachos_defs)
    then show ?thesis using sector_in_file [OF assms e, of "int n"] e by (simp add: sector_def)
  qed
  then show ?thesis by (auto simp: disk_wf_def disk_def)
qed

section \<open>Waiting for the disk alone\<close>

definition disk_pending :: "'z sys_scheme \<Rightarrow> bool" where
  "disk_pending k \<longleftrightarrow> (\<exists>w. pending k = [(w, Some (PendingInterrupt_new DiskDone w DiskInt))])"

text \<open>
  A machine with one thread, which runs in the kernel; no other thread is ready and none waits for the disk.
\<close>

definition alone :: "'z sys_scheme \<Rightarrow> bool" where
  "alone k \<longleftrightarrow> readyList k = [] \<and> threadToBeDestroyed k = None \<and> \<not> inHandler k \<and> cpu_ok k \<and>
     (\<exists>th. threads k (currentThread k) = Some th \<and> thr_space th = None \<and> thr_stack th \<in> {None, Some STACK_FENCEPOST}) \<and>
     (\<exists>sm. semaphores k (disk_semaphore k) = Some sm \<and> sem_value sm = 0 \<and> sem_queue sm = [])"

definition quiet :: "'z sys_scheme \<Rightarrow> bool" where
  "quiet k \<longleftrightarrow> disk_ok k \<and> head_ok k \<and> \<not> disk_active k \<and> pending k = [] \<and> alone k"

text \<open>What waiting does not change.\<close>

definition waited :: "'z sys_scheme \<Rightarrow> 'z sys_scheme \<Rightarrow> bool" where
  "waited k k' \<longleftrightarrow> host k' = host k \<and> disk_fileno k' = disk_fileno k \<and> disk_lastSector k' = disk_lastSector k \<and>
     disk_bufferInit k' = disk_bufferInit k \<and> disk_semaphore k' = disk_semaphore k \<and> currentThread k' = currentThread k \<and>
     threadToBeDestroyed k' = threadToBeDestroyed k \<and> sys.more k' = sys.more k \<and> totalTicks (stats k) \<le> totalTicks (stats k')"

lemma V_wake:
  assumes "level k = IntOff" "semaphores k s = Some sm" "sem_queue sm = [(key, Some t)]" "threads k t = Some th"
  shows "Semaphore_V plain_SetLevel s k = Inr (k\<lparr>threads := (threads k)(t \<mapsto> th\<lparr>thr_status := READY\<rparr>),
    readyList := readyList k @ [(0, Some t)], semaphores := (semaphores k)(s \<mapsto> sm\<lparr>sem_queue := [], sem_value := sem_value sm + 1\<rparr>)\<rparr>)"
  using assms by (simp add: Semaphore_V_def plain_SetLevel_def seq_remove_def seq_append_def upd_sem_def upd_thread_def
        Scheduler_ReadyToRun_def)

text \<open>The interrupt of the disk wakes the thread.\<close>

lemma Idle_disk:
  assumes "disk_pending k" "level k = IntOff" "cpu_ok k" "readyList k = []"
    "threads k t = Some th" "semaphores k (disk_semaphore k) = Some sm" "sem_queue sm = [(key, Some t)]"
  shows "\<exists>k'. Interrupt_Idle device_call k = Inr k' \<and> waited k k' \<and> pending k' = [] \<and> \<not> disk_active k' \<and> \<not> inHandler k' \<and>
      level k' = IntOff \<and> cpu_ok k' \<and> readyList k' = [(0, Some t)] \<and> threads k' = (threads k)(t \<mapsto> th\<lparr>thr_status := READY\<rparr>) \<and>
      semaphores k' = (semaphores k)(disk_semaphore k \<mapsto> sm\<lparr>sem_queue := [], sem_value := sem_value sm + 1\<rparr>)"
proof -
  obtain w where w: "pending k = [(w, Some (PendingInterrupt_new DiskDone w DiskInt))]" using assms(1) by (auto simp: disk_pending_def)
  define st where "st = (if totalTicks (stats k) < w then (stats k)\<lparr>idleTicks := idleTicks (stats k) + (w - totalTicks (stats k)), totalTicks := w\<rparr> else stats k)"
  define k1 where "k1 = k\<lparr>status := IdleMode, pending := [], stats := st\<rparr>"
  have "cpu_ok k1" using assms(3) by (simp add: cpu_ok_def k1_def)
  then obtain R where R: "Machine_DelayedLoad 0 0 k1 = Inr (k1\<lparr>registers := R\<rparr>)" "R LoadReg = 0" "R 0 = 0"
    using DelayedLoad_ok [of k1 0 0] by (simp add: cpu_ok_def reg_defs)
  define k2 where "k2 = k1\<lparr>registers := R, inHandler := True, status := SystemMode, disk_active := False\<rparr>"
  have c: "level k2 = IntOff" "semaphores k2 (disk_semaphore k2) = Some sm" "threads k2 t = Some th"
    using assms by (simp_all add: k2_def k1_def)
  define k3 where "k3 = k2\<lparr>threads := (threads k2)(t \<mapsto> th\<lparr>thr_status := READY\<rparr>), readyList := readyList k2 @ [(0, Some t)],
    semaphores := (semaphores k2)(disk_semaphore k2 \<mapsto> sm\<lparr>sem_queue := [], sem_value := sem_value sm + 1\<rparr>)\<rparr>"
  define k4 where "k4 = k3\<lparr>status := IdleMode, inHandler := False\<rparr>"
  have call: "device_call DiskDone (k1\<lparr>registers := R, inHandler := True, status := SystemMode\<rparr>) = Inr k3"
    using V_wake [OF c(1,2) assms(7) c(3)] by (simp add: device_call_def Disk_HandleInterrupt_def SynchDisk_RequestDone_def k2_def k3_def)
  have "Interrupt_CheckIfDue device_call True (k\<lparr>status := IdleMode\<rparr>) = Inr (True, k4)"
  proof -
    have "(if totalTicks (stats k) < w then k\<lparr>status := IdleMode, pending := [],
         stats := (stats k)\<lparr>idleTicks := idleTicks (stats k) + (w - totalTicks (stats k)), totalTicks := w\<rparr>\<rparr>
       else k\<lparr>status := IdleMode, pending := []\<rparr>) = k1" by (simp add: k1_def st_def)
    then show ?thesis using w assms(2) R(1) call
      by (cases "totalTicks (stats k) < w")
        (simp_all add: Interrupt_CheckIfDue_def seq_remove_def Let_def PendingInterrupt_new_def invoke_handler_def k4_def)
  qed
  moreover have "check_all device_call k4 = Inr k4"
    using assms(2) by (simp add: check_all_def Interrupt_CheckIfDue_def seq_remove_def k4_def k3_def k2_def k1_def)
  ultimately have "Interrupt_Idle device_call k = Inr (k4\<lparr>yieldOnReturn := False, status := SystemMode\<rparr>)"
    by (simp add: Interrupt_Idle_def)
  then show ?thesis using assms(2,4) R(2,3)
    by (simp add: k4_def k3_def k2_def k1_def waited_def st_def cpu_ok_def nachos_defs)
qed

text \<open>\<^verbatim>\<open>P\<close> sleeps once and returns with the semaphore taken.\<close>

lemma P_alone_disk:
  assumes "alone k" "disk_pending k" "2 \<le> fuel"
  shows "\<exists>k'. P_alone fuel (Interrupt_Idle device_call) plain_SetLevel (disk_semaphore k) k = Inr k' \<and> waited k k' \<and>
    pending k' = [] \<and> \<not> disk_active k' \<and> alone k'"
proof -
  let ?s = "disk_semaphore k" and ?t = "currentThread k"
  obtain f where f: "fuel = Suc (Suc f)" using assms(3) by (metis Suc_le_D numeral_2_eq_2 Suc_le_mono)
  obtain th sm where c: "threads k ?t = Some th" "thr_space th = None" "thr_stack th \<in> {None, Some STACK_FENCEPOST}"
    "semaphores k ?s = Some sm" "sem_value sm = 0" "sem_queue sm = []" "readyList k = []" "threadToBeDestroyed k = None"
    "\<not> inHandler k" "cpu_ok k" using assms(1) by (auto simp: alone_def)
  define sm1 where "sm1 = sm\<lparr>sem_queue := [(0, Some ?t)]\<rparr>"
  define k1 where "k1 = k\<lparr>level := IntOff, semaphores := (semaphores k)(?s \<mapsto> sm1)\<rparr>"
  define k2 where "k2 = k1\<lparr>threads := (threads k1)(?t \<mapsto> th\<lparr>thr_status := BLOCKED\<rparr>)\<rparr>"
  have test: "P_test ?s (k\<lparr>level := IntOff\<rparr>) = Inr (False, k1)"
    using c by (simp add: P_test_def seq_append_def upd_sem_def k1_def sm1_def)
  have sb: "Sleep_begin ?t k1 = Inr k2" using c by (simp add: Sleep_begin_def upd_thread_def k1_def k2_def)
  obtain k3 where k3: "Interrupt_Idle device_call k2 = Inr k3" "waited k2 k3" "pending k3 = []" "\<not> disk_active k3" "\<not> inHandler k3"
    "level k3 = IntOff" "cpu_ok k3" "readyList k3 = [(0, Some ?t)]"
    "threads k3 = (threads k2)(?t \<mapsto> th\<lparr>thr_status := READY\<rparr>)"
    "semaphores k3 = (semaphores k2)(?s \<mapsto> sm1\<lparr>sem_queue := [], sem_value := 1\<rparr>)"
    using Idle_disk [of k2 ?t "th\<lparr>thr_status := BLOCKED\<rparr>" sm1 0] assms(2) c
    by (auto simp: k2_def k1_def sm1_def disk_pending_def cpu_ok_def)
  define k4 where "k4 = k3\<lparr>readyList := []\<rparr>"
  have sl: "sleep_loop fuel (Interrupt_Idle device_call) k2 = Inr (?t, k4)"
  proof -
    have r2: "readyList k2 = []" "k2\<lparr>readyList := []\<rparr> = k2" using c(7) by (simp_all add: k2_def k1_def)
    have "Scheduler_FindNextToRun k2 = Inr (None, k2)" "Scheduler_FindNextToRun k3 = Inr (Some ?t, k4)"
      using r2 k3(8) by (simp_all add: Scheduler_FindNextToRun_def seq_remove_def k4_def)
    then show ?thesis using k3(1) by (simp add: f)
  qed
  define th5 where "th5 = th\<lparr>thr_status := RUNNING, machineState := Some (InP ?s (level k))\<rparr>"
  define k5 where "k5 = k4\<lparr>threads := (threads k2)(?t \<mapsto> th5)\<rparr>"
  have cur: "currentThread k3 = ?t" using k3(2) by (simp add: waited_def k2_def k1_def)
  have rb: "Run_before (InP ?s (level k)) ?t k4 = Inr k5"
    using c(2,3) k3(9) cur by (auto simp: Run_before_def Let_def Thread_CheckOverflow_def upd_thread_def k4_def k5_def th5_def)
  have P: "Semaphore_P fuel (Interrupt_Idle device_call) plain_SetLevel ?s k = Inr (False, k5)"
    using test sb sl rb c(9) by (simp add: Semaphore_P_def plain_SetLevel_def P_loop_def Thread_Sleep_def k1_def)
  define k6 where "k6 = k5\<lparr>semaphores := (semaphores k5)(?s \<mapsto> sm1\<lparr>sem_queue := [], sem_value := 0\<rparr>), level := level k\<rparr>"
  have t6: "threads k5 ?t = Some th5" "currentThread k5 = ?t" "threadToBeDestroyed k5 = None"
    using cur k3(2) c(8) by (simp_all add: k5_def k4_def waited_def k2_def k1_def)
  have "Run_after k5 = Inr k5" using t6 c(2) by (simp add: Run_after_def th5_def)
  moreover have "P_loop fuel (Interrupt_Idle device_call) plain_SetLevel ?s (level k) k5 = Inr (True, k6)"
    using k3(5,10) by (simp add: P_loop_def P_test_def upd_sem_def plain_SetLevel_def k6_def k5_def k4_def)
  ultimately have "resume_current fuel (Interrupt_Idle device_call) plain_SetLevel k5 = Inr (True, k6)"
    using t6 by (simp add: resume_current_def th5_def)
  then have "P_alone fuel (Interrupt_Idle device_call) plain_SetLevel ?s k = Inr k6"
    using P t6 by (simp add: P_alone_def numeral_2_eq_2)
  moreover have "waited k k6 \<and> pending k6 = [] \<and> \<not> disk_active k6"
    using k3(2-4) by (simp add: k6_def k5_def k4_def waited_def k2_def k1_def)
  moreover have "alone k6"
    using k3 t6 c(2,3) by (simp add: alone_def k6_def k5_def k4_def th5_def waited_def k2_def k1_def cpu_ok_def)
  ultimately show ?thesis by blast
qed

section \<open>Requests\<close>

text \<open>A request changes the host's file, the position of the head and the pending interrupts.\<close>

lemma UpdateLast_more [simp]:
  "sys.more (Disk_UpdateLast s k) = sys.more k" "currentThread (Disk_UpdateLast s k) = currentThread k"
  "readyList (Disk_UpdateLast s k) = readyList k" "threadToBeDestroyed (Disk_UpdateLast s k) = threadToBeDestroyed k"
  "inHandler (Disk_UpdateLast s k) = inHandler k" "registers (Disk_UpdateLast s k) = registers k"
  by (simp_all add: Disk_UpdateLast_def split: prod.split)

definition started :: "'z sys_scheme \<Rightarrow> 'z sys_scheme \<Rightarrow> bool" where
  "started k k' \<longleftrightarrow> disk_pending k' \<and> alone k' \<and> head_ok k' \<and> sys.more k' = sys.more k"

lemma Schedule_started:
  assumes "quiet k" "0 \<le> s" "s < NumSectors"
    "Interrupt_Schedule DiskDone t DiskInt (on_stats f (Disk_UpdateLast s (k\<lparr>host := h, disk_active := True\<rparr>))) = Inr k'"
    "\<And>st. totalTicks (f st) = totalTicks st"
  shows "started k k'"
proof -
  let ?k = "Disk_UpdateLast s (k\<lparr>host := h, disk_active := True\<rparr>)"
  have q: "head_ok k" "alone k" "pending k = []" using assms(1) by (auto simp: quiet_def)
  have "k' = (on_stats f ?k)\<lparr>pending := [(totalTicks (stats k) + t, Some (PendingInterrupt_new DiskDone (totalTicks (stats k) + t) DiskInt))]\<rparr>"
    using assms(4,5) q(3) by (auto simp: Interrupt_Schedule_def Let_def seq_insert_def on_stats_def ins_key_def elim!: bind_r_InrE)
  moreover have "head_ok ?k" using UpdateLast_head [OF _ assms(2,3), of "k\<lparr>host := h, disk_active := True\<rparr>"] q(1)
    by (simp add: head_ok_def)
  ultimately show ?thesis using q(2) assms(5)
    by (simp add: started_def disk_pending_def alone_def head_ok_def on_stats_def cpu_ok_def)
qed

lemma ReadRequest_started: "quiet k \<Longrightarrow> Disk_ReadRequest s k = Inr (d, k') \<Longrightarrow> started k k'"
  by (auto simp: Disk_ReadRequest_def Let_def ASSERT_def elim!: bind_r_InrE split: if_splits intro: Schedule_started)

lemma WriteRequest_started: "quiet k \<Longrightarrow> Disk_WriteRequest s d k = Inr k' \<Longrightarrow> started k k'"
  by (fastforce simp: Disk_WriteRequest_def Let_def ASSERT_def elim!: bind_r_InrE split: if_splits intro: Schedule_started)

lemma WriteRequest_take: "SectorSize \<le> length d \<Longrightarrow> Disk_WriteRequest s d k = Disk_WriteRequest s (take SectorSize d) k"
  by (simp add: Disk_WriteRequest_def)

text \<open>The whole request.\<close>

lemma waited_disk: "waited k k' \<Longrightarrow> disk k' = disk k \<and> (disk_ok k' \<longleftrightarrow> disk_ok k)"
  using disk_cong [of k' k] by (simp add: waited_def disk_ok_def)

lemma wait_done:
  assumes "started k k1" "disk_ok k1" "2 \<le> fuel"
  shows "\<exists>k2. P_alone fuel (Interrupt_Idle device_call) plain_SetLevel (disk_semaphore k1) k1 = Inr k2 \<and> quiet k2 \<and>
    sys.more k2 = sys.more k \<and> disk k2 = disk k1"
proof -
  have s: "alone k1" "disk_pending k1" "head_ok k1" "sys.more k1 = sys.more k" using assms(1) by (auto simp: started_def)
  from P_alone_disk [OF s(1,2) assms(3)] obtain k2 where
    k2: "P_alone fuel (Interrupt_Idle device_call) plain_SetLevel (disk_semaphore k1) k1 = Inr k2" "waited k1 k2"
      "pending k2 = []" "\<not> disk_active k2" "alone k2" by blast
  moreover have "head_ok k2" using s(3) k2(2) by (simp add: head_ok_def waited_def)
  ultimately show ?thesis using waited_disk [OF k2(2)] assms(2) s(4) by (auto simp: quiet_def waited_def)
qed

lemma ReadSector_quiet:
  assumes "quiet k" "n < nat NumSectors" "2 \<le> fuel"
  shows "\<exists>k'. SynchDisk_ReadSector (P_alone fuel (Interrupt_Idle device_call) plain_SetLevel) (int n) k = Inr (disk k ! n, k') \<and>
    quiet k' \<and> sys.more k' = sys.more k \<and> disk k' = disk k"
proof -
  have n: "0 \<le> int n" "int n < NumSectors" using assms(2) by (simp_all add: nachos_defs)
  have q: "disk_ok k" "head_ok k" "\<not> disk_active k" using assms(1) by (auto simp: quiet_def)
  from ReadRequest_ok [OF q n] obtain k1 where
    k1: "Disk_ReadRequest (int n) k = Inr (disk k ! n, k1)" "disk_ok k1" "disk k1 = disk k"
    using assms(2) by (auto simp: disk_def)
  from wait_done [OF ReadRequest_started [OF assms(1) k1(1)] k1(2) assms(3)] k1(1,3) show ?thesis
    by (auto simp: SynchDisk_ReadSector_def Lock_Acquire_def Lock_Release_def)
qed

lemma WriteSector_quiet:
  assumes "quiet k" "n < nat NumSectors" "SectorSize \<le> length d" "2 \<le> fuel"
  shows "\<exists>k'. SynchDisk_WriteSector (P_alone fuel (Interrupt_Idle device_call) plain_SetLevel) (int n) d k = Inr k' \<and>
    quiet k' \<and> sys.more k' = sys.more k \<and> disk k' = (disk k)[n := take SectorSize d]"
proof -
  have n: "0 \<le> int n" "int n < NumSectors" "length (take SectorSize d) = SectorSize" using assms(2,3) by (simp_all add: nachos_defs)
  have q: "disk_ok k" "head_ok k" "\<not> disk_active k" using assms(1) by (auto simp: quiet_def)
  from WriteRequest_ok [OF q n] obtain k1 where
    k1: "Disk_WriteRequest (int n) d k = Inr k1" "disk_ok k1" "disk k1 = (disk k)[n := take SectorSize d]"
    unfolding WriteRequest_take [OF assms(3), symmetric] by (auto intro: disk_update)
  from wait_done [OF WriteRequest_started [OF assms(1) k1(1)] k1(2) assms(4)] k1(1,3) show ?thesis
    by (auto simp: SynchDisk_WriteSector_def Lock_Acquire_def Lock_Release_def)
qed

section \<open>The contract\<close>

definition kept :: "'z sys_scheme \<Rightarrow> 'z sys_scheme \<Rightarrow> bool" where
  "kept k k' \<longleftrightarrow> sys.more k' = sys.more k \<and> disk k' = disk k"

lemma kept_refl [simp]: "kept k k"
  by (simp add: kept_def)

lemma kept_trans: "kept a b \<Longrightarrow> kept b c \<Longrightarrow> kept a c"
  by (simp add: kept_def)

locale synch_disk =
  fixes P :: "'z sys_scheme semop" and dok :: "'z sys_scheme \<Rightarrow> bool"
  assumes wf: "dok k \<Longrightarrow> disk_wf (disk k)"
    and read_sector: "dok k \<Longrightarrow> n < nat NumSectors \<Longrightarrow>
      \<exists>k'. SynchDisk_ReadSector P (int n) k = Inr (disk k ! n, k') \<and> dok k' \<and> kept k k'"
    and write_sector: "dok k \<Longrightarrow> n < nat NumSectors \<Longrightarrow> SectorSize \<le> length d \<Longrightarrow>
      \<exists>k'. SynchDisk_WriteSector P (int n) d k = Inr k' \<and> dok k' \<and> sys.more k' = sys.more k \<and>
        disk k' = (disk k)[n := take SectorSize d]"

text \<open>A thread that is alone.  Its sleep ends in the second pass of the loop, so two passes are allowed.\<close>

abbreviation P_disk :: "'z sys_scheme semop" where
  "P_disk \<equiv> P_alone 2 (Interrupt_Idle device_call) plain_SetLevel"

interpretation own_disk: synch_disk P_disk quiet
proof unfold_locales
  fix k :: "'z sys_scheme"
  show "disk_wf (disk k)" if "quiet k" using that by (simp add: quiet_def disk_ok_wf)
qed (simp_all add: kept_def ReadSector_quiet WriteSector_quiet)

end
