(* ===== verification/Disk_Correct.thy ===== *)
theory Disk_Correct
  imports Disk_FS Synch_Disk
begin

text \<open>
  Reading and writing files on the disk, over the contract \<open>synch_disk\<close>.  The content of a file is what its header makes of the sectors; \<^verbatim>\<open>ReadAt\<close> and \<^verbatim>\<open>WriteAt\<close> are proved to
  read and replace a part of it and to touch nothing else.
\<close>

section \<open>The content of a file\<close>

definition secs :: "FileHeader \<Rightarrow> nat list" where
  "secs h = map nat (take (nat (fh_numSectors h)) (fh_dataSectors h))"

definition hdr_ok :: "FileHeader \<Rightarrow> bool" where
  "hdr_ok h \<longleftrightarrow> 0 \<le> fh_numBytes h \<and> fh_numSectors h = divRoundUp (fh_numBytes h) (int SectorSize) \<and>
     fh_numSectors h \<le> int NumDirect \<and> length (fh_dataSectors h) = NumDirect \<and>
     (\<forall>s \<in> set (take (nat (fh_numSectors h)) (fh_dataSectors h)). 0 \<le> s \<and> s < NumSectors) \<and> distinct (secs h)"

definition content :: "FileHeader \<Rightarrow> byte list list \<Rightarrow> byte list" where
  "content h D = take (nat (fh_numBytes h)) (concat (map ((!) D) (secs h)))"

text \<open>Lists of blocks of the same length.\<close>

lemma concat_blocks:
  assumes "\<forall>x \<in> set xs. length x = b"
  shows "length (concat xs) = b * length xs"
    and "i < b * length xs \<Longrightarrow> concat xs ! i = xs ! (i div b) ! (i mod b)"
proof -
  show "length (concat xs) = b * length xs" using assms by (induction xs) auto
  show "concat xs ! i = xs ! (i div b) ! (i mod b)" if "i < b * length xs" using assms that
  proof (induction xs arbitrary: i)
    case (Cons x xs)
    show ?case
    proof (cases "i < b")
      case True
      then show ?thesis using Cons.prems by (simp add: nth_append)
    next
      case False
      then have b: "0 < b" using Cons.prems by (cases b) auto
      have "concat xs ! (i - b) = xs ! ((i - b) div b) ! ((i - b) mod b)"
        using Cons.prems False by (intro Cons.IH) auto
      moreover have "i div b = Suc ((i - b) div b)" "(i - b) mod b = i mod b"
        using False b by (simp_all add: le_div_geq le_mod_geq)
      ultimately show ?thesis using Cons.prems False by (simp add: nth_append)
    qed
  qed simp
qed

text \<open>A part of a list replaced, the rest cut off at its end.\<close>

definition overwrite :: "nat \<Rightarrow> 'a list \<Rightarrow> 'a list \<Rightarrow> 'a list" where
  "overwrite p bs c = take p c @ take (length c - p) bs @ drop (p + length bs) c"

lemma overwrite_nth:
  "i < length c \<Longrightarrow> p \<le> length c \<Longrightarrow> overwrite p bs c ! i = (if p \<le> i \<and> i < p + length bs then bs ! (i - p) else c ! i)"
  by (auto simp: overwrite_def nth_append min_def)

lemma secs_length [simp]: "hdr_ok h \<Longrightarrow> length (secs h) = nat (fh_numSectors h)"
  by (auto simp: hdr_ok_def secs_def min_def nat_le_iff)

lemma secs_bound: "hdr_ok h \<Longrightarrow> n \<in> set (secs h) \<Longrightarrow> n < nat NumSectors"
  by (auto simp: hdr_ok_def secs_def nachos_defs nat_less_iff)

lemma hdr_length:
  assumes "hdr_ok h"
  shows "nat (fh_numBytes h) \<le> SectorSize * nat (fh_numSectors h)"
    and "SectorSize * nat (fh_numSectors h) < nat (fh_numBytes h) + SectorSize"
    and "0 \<le> fh_numSectors h"
proof -
  have b: "0 \<le> fh_numBytes h" "fh_numSectors h = divRoundUp (fh_numBytes h) 512" using assms by (auto simp: hdr_ok_def nachos_defs)
  have "0 \<le> divRoundUp (fh_numBytes h) 512" using b(1) by (intro divRoundUp_nonneg) simp_all
  with divRoundUp_bounds [OF _ b(1), of 512] b show "nat (fh_numBytes h) \<le> SectorSize * nat (fh_numSectors h)"
    "SectorSize * nat (fh_numSectors h) < nat (fh_numBytes h) + SectorSize" "0 \<le> fh_numSectors h"
    by (simp_all add: nachos_defs)
qed

lemma image_blocks:
  assumes "hdr_ok h" "disk_wf D"
  shows "\<forall>x \<in> set (map ((!) D) (secs h)). length x = SectorSize"
  using assms by (auto intro!: disk_wf_nth dest: secs_bound)

lemma content_length [simp]: "hdr_ok h \<Longrightarrow> disk_wf D \<Longrightarrow> length (content h D) = nat (fh_numBytes h)"
  using hdr_length(1) [of h] by (simp add: content_def concat_blocks(1) [OF image_blocks] min_def)

lemma content_nth:
  assumes "hdr_ok h" "disk_wf D" "i < nat (fh_numBytes h)"
  shows "content h D ! i = D ! (secs h ! (i div SectorSize)) ! (i mod SectorSize)"
proof -
  have "i < SectorSize * nat (fh_numSectors h)" using hdr_length(1) [OF assms(1)] assms(3) by linarith
  moreover from this have "i div SectorSize < nat (fh_numSectors h)" by (simp add: less_mult_imp_div_less mult.commute)
  ultimately show ?thesis using assms concat_blocks(2) [OF image_blocks [OF assms(1,2)], of i] by (simp add: content_def)
qed

lemma content_cong: "(\<And>s. s \<in> set (secs h) \<Longrightarrow> D' ! s = D ! s) \<Longrightarrow> content h D' = content h D"
  by (simp add: content_def cong: map_cong)

section \<open>Reading and writing\<close>

lemma sector_of: "x div SectorSize * SectorSize \<le> x" "x < x div SectorSize * SectorSize + SectorSize"
  using div_mod_decomp [of x SectorSize] mod_less_divisor [of SectorSize x] by (simp_all add: nachos_defs)

lemma sector_shift:
  "(f * SectorSize + j) div SectorSize = f + j div SectorSize" "(f * SectorSize + j) mod SectorSize = j mod SectorSize"
  by (simp_all add: nachos_defs)

lemma divRoundDown_nat: "divRoundDown (int x) (int SectorSize) = int (x div SectorSize)"
  by (simp add: divRoundDown_def zdiv_int)

lemma sector_range:
  assumes "0 < m"
  shows "divRoundDown (int p) (int SectorSize) = int (p div SectorSize)"
    and "divRoundDown (int p + int m - 1) (int SectorSize) = int ((p + m - 1) div SectorSize)"
proof -
  have e: "int p + int m - 1 = int (p + m - 1)" using assms by simp
  show "divRoundDown (int p) (int SectorSize) = int (p div SectorSize)"
    "divRoundDown (int p + int m - 1) (int SectorSize) = int ((p + m - 1) div SectorSize)"
    unfolding e by (simp_all only: divRoundDown_nat)
qed

lemma arr_slice_nat: "a + m \<le> length buf \<Longrightarrow> arr_slice buf (int a) (int m) = Inr (take m (drop a buf))"
  by (simp add: arr_slice_def)

lemma put_bytes_nat:
  assumes "a + length bs \<le> length buf"
  obtains buf' where "put_bytes (int a) bs buf = Inr buf'" "length buf' = length buf"
    "\<And>j. j < length buf \<Longrightarrow> buf' ! j = (if a \<le> j \<and> j < a + length bs then bs ! (j - a) else buf ! j)"
proof
  show "put_bytes (int a) bs buf = Inr (take a buf @ bs @ drop (a + length bs) buf)" using assms by (simp add: put_bytes_def)
qed (use assms in \<open>auto simp: nth_append\<close>)

lemma not_in_part:
  assumes "distinct xs" "q < length xs" "q < f \<or> f + n \<le> q" "f + n \<le> length xs"
  shows "xs ! q \<notin> set (take n (drop f xs))"
  using assms by (auto simp: in_set_conv_nth nth_eq_iff_index_eq)

lemma secs_nth_bound: "hdr_ok h \<Longrightarrow> i < nat (fh_numSectors h) \<Longrightarrow> secs h ! i < nat NumSectors"
  by (rule secs_bound) (auto intro: nth_mem)

lemma ByteToSector_ok:
  assumes "hdr_ok h" "i < nat (fh_numSectors h)"
  shows "FileHeader_ByteToSector (int i * int SectorSize) h = Inr (int (secs h ! i))"
proof -
  have "c_div (int i * 512) 512 = int i" by simp
  moreover have "i < length (fh_dataSectors h)" using assms by (auto simp: hdr_ok_def)
  moreover have "fh_dataSectors h ! i \<in> set (take (nat (fh_numSectors h)) (fh_dataSectors h))"
    using assms(2) calculation(2) by (auto simp: in_set_conv_nth)
  then have "0 \<le> fh_dataSectors h ! i" using assms(1) by (auto simp: hdr_ok_def)
  ultimately show ?thesis using assms(2) by (simp add: FileHeader_ByteToSector_def secs_def nachos_defs)
qed

lemma blocks_nth:
  assumes "hdr_ok h" "disk_wf D" "i + n \<le> nat (fh_numSectors h)" "j < SectorSize * n"
  shows "concat (map ((!) D) (take n (drop i (secs h)))) ! j = D ! (secs h ! (i + j div SectorSize)) ! (j mod SectorSize)"
    and "length (concat (map ((!) D) (take n (drop i (secs h))))) = SectorSize * n"
proof -
  have b: "\<forall>x \<in> set (map ((!) D) (take n (drop i (secs h)))). length x = SectorSize"
    using assms(1,2) by (auto intro!: disk_wf_nth dest!: in_set_takeD in_set_dropD dest: secs_bound)
  have l: "length (map ((!) D) (take n (drop i (secs h)))) = n" using assms(1,3) by simp
  show "length (concat (map ((!) D) (take n (drop i (secs h))))) = SectorSize * n"
    using concat_blocks(1) [OF b] l by simp
  have "j div SectorSize < n" using assms(4) by (simp add: less_mult_imp_div_less mult.commute)
  then show "concat (map ((!) D) (take n (drop i (secs h)))) ! j = D ! (secs h ! (i + j div SectorSize)) ! (j mod SectorSize)"
    using concat_blocks(2) [OF b, of j] l assms by simp
qed

context synch_disk
begin

lemma read_sectors_ok:
  assumes "hdr_ok h" "dok k" "i + n \<le> nat (fh_numSectors h)"
  shows "\<exists>k'. read_sectors P h (int i) n k = Inr (concat (map ((!) (disk k)) (take n (drop i (secs h)))), k') \<and> dok k' \<and> kept k k'"
  using assms
proof (induction n arbitrary: i k)
  case (Suc n)
  then have i: "i < nat (fh_numSectors h)" by simp
  obtain k1 where k1: "SynchDisk_ReadSector P (int (secs h ! i)) k = Inr (disk k ! (secs h ! i), k1)" "dok k1" "kept k k1"
    using read_sector [OF Suc.prems(2) secs_nth_bound [OF Suc.prems(1) i]] by blast
  obtain k2 where k2: "read_sectors P h (int (Suc i)) n k1 = Inr (concat (map ((!) (disk k1)) (take n (drop (Suc i) (secs h)))), k2)"
    "dok k2" "kept k1 k2" using Suc.IH [OF Suc.prems(1) k1(2), of "Suc i"] Suc.prems(3) by auto
  have "drop i (secs h) = secs h ! i # drop (Suc i) (secs h)" using i Suc.prems(1) by (simp add: Cons_nth_drop_Suc)
  then show ?case using k1 k2 ByteToSector_ok [OF Suc.prems(1) i] kept_trans [OF k1(3) k2(3)]
    by (simp add: kept_def add.commute)
qed simp

text \<open>\<^verbatim>\<open>ReadAt\<close> returns a part of the content, cut off at the end of the file.\<close>

lemma ReadAt_part:
  assumes h: "hdr_ok h" and k: "dok k" and p: "p < nat (fh_numBytes h)" and n: "0 < n" "p + n \<le> nat (fh_numBytes h)"
  defines "f \<equiv> p div SectorSize" and "l \<equiv> (p + n - 1) div SectorSize"
  shows "\<exists>k' buf. read_sectors P h (int f) (Suc l - f) k = Inr (buf, k') \<and> dok k' \<and> kept k k' \<and>
    length buf = SectorSize * (Suc l - f) \<and> p - f * SectorSize + n \<le> length buf \<and>
    take n (drop (p - f * SectorSize) buf) = take n (drop p (content h (disk k)))"
proof -
  have "p + n - 1 < SectorSize * nat (fh_numSectors h)" using hdr_length(1) [OF h] n by linarith
  then have l: "l < nat (fh_numSectors h)" unfolding l_def by (simp add: less_mult_imp_div_less mult.commute)
  have fl: "f \<le> l" unfolding f_def l_def using n(1) by (intro div_le_mono) simp
  then have s: "f + (Suc l - f) \<le> nat (fh_numSectors h)" using l by simp
  let ?buf = "concat (map ((!) (disk k)) (take (Suc l - f) (drop f (secs h))))"
  obtain k' where k': "read_sectors P h (int f) (Suc l - f) k = Inr (?buf, k')" "dok k'" "kept k k'"
    using read_sectors_ok [OF h k s] by blast
  have len: "length ?buf = SectorSize * (Suc l - f)" using blocks_nth(2) [OF h wf [OF k] s, of 0] fl by (simp add: nachos_defs)
  have pl: "f * SectorSize \<le> p" "p + n \<le> Suc l * SectorSize" "p < f * SectorSize + SectorSize"
    using sector_of [of p] sector_of [of "p + n - 1"] n(1) by (simp_all add: f_def l_def)
  have fit: "p - f * SectorSize + n \<le> length ?buf"
  proof -
    have "SectorSize * (Suc l - f) = Suc l * SectorSize - f * SectorSize" by (metis diff_mult_distrib mult.commute)
    then show ?thesis using pl len by linarith
  qed
  have "take n (drop (p - f * SectorSize) ?buf) = take n (drop p (content h (disk k)))"
  proof (rule nth_equalityI)
    show "length (take n (drop (p - f * SectorSize) ?buf)) = length (take n (drop p (content h (disk k))))"
      using fit n h wf [OF k] by simp
  next
    fix i assume "i < length (take n (drop (p - f * SectorSize) ?buf))"
    then have i: "i < n" by simp
    let ?j = "p - f * SectorSize + i"
    have j: "?j < SectorSize * (Suc l - f)" using fit len i by simp
    have "f + ?j div SectorSize = (p + i) div SectorSize" "?j mod SectorSize = (p + i) mod SectorSize"
    proof -
      have "p + i = f * SectorSize + ?j" using pl(1) by simp
      then show "f + ?j div SectorSize = (p + i) div SectorSize" "?j mod SectorSize = (p + i) mod SectorSize"
        by (simp_all only: sector_shift)
    qed
    then have "?buf ! ?j = disk k ! (secs h ! ((p + i) div SectorSize)) ! ((p + i) mod SectorSize)"
      using blocks_nth(1) [OF h wf [OF k] s j] by simp
    then show "take n (drop (p - f * SectorSize) ?buf) ! i = take n (drop p (content h (disk k))) ! i"
      using i fit n h wf [OF k] content_nth [OF h wf [OF k], of "p + i"] by simp
  qed
  then show ?thesis using k' len fit by blast
qed

lemma ReadAt_content:
  assumes h: "hdr_ok h" and k: "dok k"
  shows "\<exists>k'. hdr_ReadAt P h n (int p) k =
      Inr (int (length (take (nat n) (drop p (content h (disk k))))), take (nat n) (drop p (content h (disk k))), k') \<and>
    dok k' \<and> kept k k'"
proof (cases "n \<le> 0 \<or> nat (fh_numBytes h) \<le> p")
  case True
  then have "n \<le> 0 \<or> fh_numBytes h \<le> int p" by (simp add: nat_le_iff)
  moreover have e: "take (nat n) (drop p (content h (disk k))) = []" using True h wf [OF k] by auto
  ultimately show ?thesis unfolding e using k by (intro exI [of _ k]) (simp add: hdr_ReadAt_def FileHeader_FileLength_def)
next
  case False
  define m where "m = min (nat n) (nat (fh_numBytes h) - p)"
  have m: "0 < m" "p + m \<le> nat (fh_numBytes h)" "p < nat (fh_numBytes h)" using False by (auto simp: m_def)
  have int_m: "(if int p + n > fh_numBytes h then fh_numBytes h - int p else n) = int m"
    using False by (auto simp: m_def min_def)
  let ?f = "p div SectorSize" and ?l = "(p + m - 1) div SectorSize"
  note d = sector_range [OF m(1), of p]
  have c: "nat (1 + int ?l - int ?f) = Suc ?l - ?f" by simp
  obtain k' buf where b: "read_sectors P h (int ?f) (Suc ?l - ?f) k = Inr (buf, k')" "dok k'" "kept k k'"
    "p - ?f * SectorSize + m \<le> length buf" "take m (drop (p - ?f * SectorSize) buf) = take m (drop p (content h (disk k)))"
    using ReadAt_part [OF h k m(3,1,2)] by blast
  have o: "int p - int ?f * int SectorSize = int (p - ?f * SectorSize)" using sector_of(1) [of p] by (simp only: of_nat_diff of_nat_mult)
  have t: "take m (drop p (content h (disk k))) = take (nat n) (drop p (content h (disk k)))"
    using h wf [OF k] by (simp add: m_def min_def)
  have len: "length (take (nat n) (drop p (content h (disk k)))) = m" using h wf [OF k] by (simp add: m_def min.commute)
  have "arr_slice buf (int p - int ?f * int SectorSize) (int m) = Inr (take (nat n) (drop p (content h (disk k))))"
    unfolding o arr_slice_nat [OF b(4)] b(5) t ..
  moreover have "\<not> (n \<le> 0 \<or> fh_numBytes h \<le> int p)" using False by (simp add: nat_le_iff)
  ultimately show ?thesis using b(1-3) c len
    by (simp add: hdr_ReadAt_def FileHeader_FileLength_def Let_def int_m d)
qed

text \<open>The buffer \<^verbatim>\<open>WriteAt\<close> prepares agrees with the file outside the part that is replaced.\<close>

lemma read_into_buffer:
  assumes h: "hdr_ok h" and k: "dok k" and "a * SectorSize + SectorSize \<le> length buf"
  shows "\<exists>buf' k'. bind_r (hdr_ReadAt P h (int SectorSize) (int (q * SectorSize)) k) (\<lambda>(_, bs, k1).
      bind_r (put_bytes (int (a * SectorSize)) bs buf) (\<lambda>buf1. Inr (buf1, k1))) = Inr (buf', k') \<and>
    dok k' \<and> kept k k' \<and> length buf' = length buf \<and>
    (\<forall>j < length buf. buf' ! j = (if a * SectorSize \<le> j \<and> j < a * SectorSize + SectorSize \<and>
        q * SectorSize + (j - a * SectorSize) < nat (fh_numBytes h)
      then content h (disk k) ! (q * SectorSize + (j - a * SectorSize)) else buf ! j))"
proof -
  let ?r = "take SectorSize (drop (q * SectorSize) (content h (disk k)))"
  have l: "length ?r = min SectorSize (nat (fh_numBytes h) - q * SectorSize)" using h wf [OF k] by (simp add: min.commute)
  obtain k' where k': "hdr_ReadAt P h (int SectorSize) (int (q * SectorSize)) k = Inr (int (length ?r), ?r, k')" "dok k'" "kept k k'"
    using ReadAt_content [OF h k, of "int SectorSize" "q * SectorSize"] unfolding nat_int by blast
  obtain buf' where b: "put_bytes (int (a * SectorSize)) ?r buf = Inr buf'" "length buf' = length buf"
    "\<And>j. j < length buf \<Longrightarrow> buf' ! j = (if a * SectorSize \<le> j \<and> j < a * SectorSize + length ?r then ?r ! (j - a * SectorSize) else buf ! j)"
    by (rule put_bytes_nat [of "a * SectorSize" ?r buf]) (use assms(3) l in auto)
  have "buf' ! j = (if a * SectorSize \<le> j \<and> j < a * SectorSize + SectorSize \<and> q * SectorSize + (j - a * SectorSize) < nat (fh_numBytes h)
      then content h (disk k) ! (q * SectorSize + (j - a * SectorSize)) else buf ! j)" if "j < length buf" for j
    unfolding b(3) [OF that] l using h wf [OF k] by auto
  then show ?thesis using k' b(1,2) by (intro exI [of _ buf'] exI [of _ k']) simp
qed

lemma write_buffer_ok:
  assumes h: "hdr_ok h" and k: "dok k" and n: "0 < n" "p + n \<le> nat (fh_numBytes h)"
  defines "f \<equiv> p div SectorSize" and "l \<equiv> (p + n - 1) div SectorSize"
  shows "\<exists>buf k'. write_buffer raw P h (int p) (int n) (int f) (int l) k = Inr (buf, k') \<and> dok k' \<and> kept k k' \<and>
    length buf = SectorSize * (Suc l - f) \<and>
    (\<forall>j < length buf. f * SectorSize + j < p \<or> p + n \<le> f * SectorSize + j \<longrightarrow> f * SectorSize + j < nat (fh_numBytes h) \<longrightarrow>
       buf ! j = content h (disk k) ! (f * SectorSize + j))"
proof -
  let ?S = SectorSize
  have pl: "f * ?S \<le> p" "p < f * ?S + ?S" "l * ?S < p + n"
    using sector_of [of p] sector_of [of "p + n - 1"] n(1) unfolding f_def l_def by linarith+
  have fl: "f \<le> l" unfolding f_def l_def using n(1) by (intro div_le_mono) simp
  then obtain m where m: "l = f + m" by (metis le_iff_add)
  have cond: "(int p = int f * int ?S) = (p = f * ?S)" "(int p + int n = (int l + 1) * int ?S) = (p + n = Suc l * ?S)"
    "(f = l) = (m = 0)" "(int l - int f) * int ?S = int (m * ?S)" "nat ((1 + int l - int f) * int ?S) = Suc m * ?S"
    "int f * int ?S = int (f * ?S)" "int l * int ?S = int (l * ?S)"
    unfolding m nachos_defs by (simp; linarith?)+
  let ?b0 = "fresh raw (Suc m * ?S)"
  have l0: "length ?b0 = Suc m * ?S" by (simp add: fresh_def)
  obtain b1 k1 where b1: "(if p \<noteq> f * ?S then bind_r (hdr_ReadAt P h (int ?S) (int (f * ?S)) k) (\<lambda>(_, bs, k1).
        bind_r (put_bytes 0 bs ?b0) (\<lambda>buf1. Inr (buf1, k1))) else Inr (?b0, k)) = Inr (b1, k1)" "dok k1" "kept k k1"
    "length b1 = Suc m * ?S"
    "\<And>j. p \<noteq> f * ?S \<Longrightarrow> j < ?S \<Longrightarrow> f * ?S + j < nat (fh_numBytes h) \<Longrightarrow> b1 ! j = content h (disk k) ! (f * ?S + j)"
    using read_into_buffer [OF h k, of 0 ?b0 f] l0 k by (cases "p = f * ?S") auto
  have dk: "disk k1 = disk k" using b1(3) by (simp add: kept_def)
  let ?last = "p + n \<noteq> Suc l * ?S \<and> (m \<noteq> 0 \<or> p = f * ?S)"
  obtain b2 k2 where b2: "(if ?last then bind_r (hdr_ReadAt P h (int ?S) (int (l * ?S)) k1) (\<lambda>(_, bs, k2).
        bind_r (put_bytes (int (m * ?S)) bs b1) (\<lambda>buf2. Inr (buf2, k2))) else Inr (b1, k1)) = Inr (b2, k2)" "dok k2" "kept k1 k2"
    "length b2 = Suc m * ?S"
    "\<And>j. j < Suc m * ?S \<Longrightarrow> b2 ! j = (if ?last \<and> m * ?S \<le> j \<and> j < m * ?S + ?S \<and> l * ?S + (j - m * ?S) < nat (fh_numBytes h)
      then content h (disk k) ! (l * ?S + (j - m * ?S)) else b1 ! j)"
    using read_into_buffer [OF h b1(2), of m b1 l, unfolded dk] b1(2,4) by (cases ?last) auto
  have "write_buffer raw P h (int p) (int n) (int f) (int l) k = Inr (b2, k2)"
    unfolding write_buffer_def Let_def cond of_nat_eq_iff by (simp only: b1(1) b2(1) bind_r_simps prod.case)
  moreover have "b2 ! j = content h (disk k) ! (f * ?S + j)"
    if j: "j < Suc m * ?S" "f * ?S + j < p \<or> p + n \<le> f * ?S + j" "f * ?S + j < nat (fh_numBytes h)" for j
    using j(2)
  proof
    assume x: "f * ?S + j < p"
    then have "p \<noteq> f * ?S" "j < ?S" using pl by linarith+
    moreover have "\<not> (?last \<and> m * ?S \<le> j)" using calculation by (cases m) auto
    ultimately show ?thesis using b1(5) b2(5) j by auto
  next
    assume x: "p + n \<le> f * ?S + j"
    have e: "l * ?S = f * ?S + m * ?S" "Suc l * ?S = f * ?S + Suc m * ?S" by (simp_all add: m algebra_simps)
    then have "p + n \<noteq> Suc l * ?S" "m * ?S < j" using x j(1) pl(3) by linarith+
    then show ?thesis using b1(5) [of j] b2(5) [OF j(1)] j e by (cases "m = 0") auto
  qed
  ultimately show ?thesis using b2(2,4) kept_trans [OF b1(3) b2(3)] m by (intro exI [of _ b2] exI [of _ k2]) (simp add: mult.commute)
qed

lemma write_sectors_ok:
  assumes "hdr_ok h" "dok k" "i + n \<le> nat (fh_numSectors h)" "length buf = SectorSize * n"
  shows "\<exists>k'. write_sectors P h (int i) n buf k = Inr k' \<and> dok k' \<and> sys.more k' = sys.more k \<and>
    (\<forall>u. u \<notin> set (take n (drop i (secs h))) \<longrightarrow> disk k' ! u = disk k ! u) \<and>
    (\<forall>j < n. disk k' ! (secs h ! (i + j)) = take SectorSize (drop (SectorSize * j) buf))"
  using assms
proof (induction n arbitrary: i k buf)
  case (Suc n)
  then have i: "i < nat (fh_numSectors h)" by simp
  let ?s = "secs h ! i"
  have s: "?s < nat NumSectors" using secs_nth_bound [OF Suc.prems(1) i] .
  obtain k1 where k1: "SynchDisk_WriteSector P (int ?s) buf k = Inr k1" "dok k1" "sys.more k1 = sys.more k"
    "disk k1 = (disk k)[?s := take SectorSize buf]"
    using write_sector [OF Suc.prems(2) s, of buf] Suc.prems(4) by auto
  obtain k2 where k2: "write_sectors P h (int (Suc i)) n (drop SectorSize buf) k1 = Inr k2" "dok k2" "sys.more k2 = sys.more k1"
    "\<And>u. u \<notin> set (take n (drop (Suc i) (secs h))) \<Longrightarrow> disk k2 ! u = disk k1 ! u"
    "\<And>j. j < n \<Longrightarrow> disk k2 ! (secs h ! (Suc i + j)) = take SectorSize (drop (SectorSize * j) (drop SectorSize buf))"
    using Suc.IH [OF Suc.prems(1) k1(2), of "Suc i" "drop SectorSize buf"] Suc.prems(3,4) by auto
  have d: "drop i (secs h) = ?s # drop (Suc i) (secs h)" using i Suc.prems(1) by (simp add: Cons_nth_drop_Suc)
  have "distinct (drop i (secs h))" using Suc.prems(1) by (simp add: hdr_ok_def)
  then have "?s \<notin> set (take n (drop (Suc i) (secs h)))" unfolding d by (auto dest: in_set_takeD)
  then have first: "disk k2 ! ?s = take SectorSize buf" using k2(4) k1(4) s by simp
  have "disk k2 ! (secs h ! (i + j)) = take SectorSize (drop (SectorSize * j) buf)" if "j < Suc n" for j
    using first k2(5) [of "j - 1"] that by (cases j) (simp_all add: add.commute)
  moreover have "disk k2 ! u = disk k ! u" if "u \<notin> set (take (Suc n) (drop i (secs h)))" for u
    using that k2(4) k1(4) unfolding d by simp
  ultimately show ?case using k1 k2(1-3) ByteToSector_ok [OF Suc.prems(1) i] by (simp add: add.commute)
qed simp

text \<open>\<^verbatim>\<open>WriteAt\<close> replaces a part of the content, cut off at the end of the file, and touches no other sector.\<close>

lemma WriteAt_part:
  assumes h: "hdr_ok h" and k: "dok k" and n: "0 < n" "p + n \<le> nat (fh_numBytes h)" "length bs = n"
  defines "f \<equiv> p div SectorSize" and "l \<equiv> (p + n - 1) div SectorSize"
  shows "\<exists>k'. bind_r (write_buffer raw P h (int p) (int n) (int f) (int l) k) (\<lambda>(buf, k1).
      bind_r (put_bytes (int (p - f * SectorSize)) bs buf) (\<lambda>buf1.
      write_sectors P h (int f) (Suc l - f) buf1 k1)) = Inr k' \<and> dok k' \<and> sys.more k' = sys.more k \<and>
    content h (disk k') = overwrite p bs (content h (disk k)) \<and> (\<forall>u. u \<notin> set (secs h) \<longrightarrow> disk k' ! u = disk k ! u)"
proof -
  let ?S = SectorSize
  have "p + n - 1 < ?S * nat (fh_numSectors h)" using hdr_length(1) [OF h] n by linarith
  then have l: "l < nat (fh_numSectors h)" unfolding l_def by (simp add: less_mult_imp_div_less mult.commute)
  have fl: "f \<le> l" unfolding f_def l_def using n(1) by (intro div_le_mono) simp
  then have s: "f + (Suc l - f) \<le> nat (fh_numSectors h)" using l by simp
  have pl: "f * ?S \<le> p" "p + n \<le> l * ?S + ?S"
    using sector_of [of p] sector_of [of "p + n - 1"] n(1) unfolding f_def l_def by linarith+
  obtain buf k1 where b: "write_buffer raw P h (int p) (int n) (int f) (int l) k = Inr (buf, k1)" "dok k1" "kept k k1"
    "length buf = ?S * (Suc l - f)"
    "\<And>j. j < length buf \<Longrightarrow> f * ?S + j < p \<or> p + n \<le> f * ?S + j \<Longrightarrow> f * ?S + j < nat (fh_numBytes h) \<Longrightarrow>
       buf ! j = content h (disk k) ! (f * ?S + j)"
    using write_buffer_ok [OF h k n(1,2), of raw] unfolding f_def l_def by blast
  have lb: "f * ?S + length buf = l * ?S + ?S"
    using b(4) le_Suc_ex [OF fl] by (auto simp: Suc_diff_le algebra_simps)
  obtain buf1 where b1: "put_bytes (int (p - f * ?S)) bs buf = Inr buf1" "length buf1 = length buf"
    "\<And>j. j < length buf \<Longrightarrow> buf1 ! j = (if p - f * ?S \<le> j \<and> j < p - f * ?S + length bs then bs ! (j - (p - f * ?S)) else buf ! j)"
    by (rule put_bytes_nat [of "p - f * ?S" bs buf]) (use pl lb n(3) in auto)
  obtain k2 where k2: "write_sectors P h (int f) (Suc l - f) buf1 k1 = Inr k2" "dok k2" "sys.more k2 = sys.more k1"
    "\<And>u. u \<notin> set (take (Suc l - f) (drop f (secs h))) \<Longrightarrow> disk k2 ! u = disk k1 ! u"
    "\<And>j. j < Suc l - f \<Longrightarrow> disk k2 ! (secs h ! (f + j)) = take ?S (drop (?S * j) buf1)"
    using write_sectors_ok [OF h b(2) s, of buf1] b(4) b1(2) by auto
  have dk: "disk k1 = disk k" "sys.more k1 = sys.more k" using b(3) by (simp_all add: kept_def)
  have "content h (disk k2) = overwrite p bs (content h (disk k))"
  proof (rule nth_equalityI)
    show "length (content h (disk k2)) = length (overwrite p bs (content h (disk k)))"
      using h n wf [OF k] wf [OF k2(2)] by (simp add: overwrite_def)
  next
    fix i assume "i < length (content h (disk k2))"
    then have i: "i < nat (fh_numBytes h)" using h wf [OF k2(2)] by simp
    let ?q = "i div ?S"
    have iq: "?q * ?S \<le> i" "i < ?q * ?S + ?S" using sector_of [of i] by auto
    have q: "?q < nat (fh_numSectors h)" using i hdr_length(1) [OF h] by (simp add: less_mult_imp_div_less mult.commute)
    have c: "content h (disk k2) ! i = disk k2 ! (secs h ! ?q) ! (i mod ?S)" by (rule content_nth [OF h wf [OF k2(2)] i])
    have ov: "overwrite p bs (content h (disk k)) ! i = (if p \<le> i \<and> i < p + n then bs ! (i - p) else content h (disk k) ! i)"
      using overwrite_nth [of i "content h (disk k)" p bs] i h wf [OF k] n by simp
    show "content h (disk k2) ! i = overwrite p bs (content h (disk k)) ! i"
    proof (cases "f \<le> ?q \<and> ?q \<le> l")
      case True
      then obtain r where r: "?q = f + r" "r < Suc l - f" by (metis add_diff_inverse_nat diff_less_mono le_imp_less_Suc leD)
      let ?j = "?S * r + i mod ?S"
      have j: "f * ?S + ?j = i" using r(1) div_mult_mod_eq [of i ?S] by (simp add: algebra_simps)
      have jl: "?j < length buf" using True mult_le_mono1 [of ?q l ?S] iq lb j by linarith
      have "disk k2 ! (secs h ! ?q) ! (i mod ?S) = buf1 ! ?j" using k2(5) [OF r(2)] jl b1(2) unfolding r(1) by (simp add: nachos_defs)
      also have "\<dots> = overwrite p bs (content h (disk k)) ! i"
      proof -
        have "p - f * ?S \<le> ?j \<and> ?j < p - f * ?S + length bs \<longleftrightarrow> p \<le> i \<and> i < p + n" "?j - (p - f * ?S) = i - p"
          using j pl(1) n(3) by linarith+
        then show ?thesis using b1(3) [OF jl] b(5) [OF jl] i unfolding ov j by auto
      qed
      finally show ?thesis unfolding c .
    next
      case False
      then have "secs h ! ?q \<notin> set (take (Suc l - f) (drop f (secs h)))"
        using h q s by (intro not_in_part) (auto simp: hdr_ok_def)
      moreover have "Suc ?q * ?S \<le> f * ?S \<or> Suc l * ?S \<le> ?q * ?S"
        using False by (intro disj_forward [OF _ mult_le_mono1 mult_le_mono1]) auto
      then have "i < p \<or> p + n \<le> i" using iq pl unfolding mult_Suc by linarith
      ultimately show ?thesis using c ov k2(4) dk content_nth [OF h wf [OF k] i] by auto
    qed
  qed
  moreover have "disk k2 ! u = disk k ! u" if "u \<notin> set (secs h)" for u
    using that k2(4) [of u] dk by (auto dest!: in_set_takeD in_set_dropD)
  ultimately show ?thesis using b(1) b1(1) k2(1-3) dk by (intro exI [of _ k2]) simp
qed

lemma WriteAt_content:
  fixes p :: nat
  assumes h: "hdr_ok h" and k: "dok k" and n: "nat n \<le> length from"
  defines "m \<equiv> min (nat n) (nat (fh_numBytes h) - p)"
  shows "\<exists>k'. hdr_WriteAt raw P h from n (int p) k = Inr (int m, k') \<and> dok k' \<and> sys.more k' = sys.more k \<and>
    content h (disk k') = overwrite p (take m from) (content h (disk k)) \<and> (\<forall>u. u \<notin> set (secs h) \<longrightarrow> disk k' ! u = disk k ! u)"
proof (cases "n \<le> 0 \<or> nat (fh_numBytes h) \<le> p")
  case True
  then have "n \<le> 0 \<or> fh_numBytes h \<le> int p" "m = 0" by (auto simp: nat_le_iff m_def)
  then show ?thesis using k by (intro exI [of _ k]) (auto simp: hdr_WriteAt_def FileHeader_FileLength_def overwrite_def)
next
  case False
  have m: "0 < m" "p + m \<le> nat (fh_numBytes h)" "length (take m from) = m" using False n by (auto simp: m_def)
  have int_m: "(if int p + n > fh_numBytes h then fh_numBytes h - int p else n) = int m"
    using False by (auto simp: m_def min_def)
  let ?f = "p div SectorSize" and ?l = "(p + m - 1) div SectorSize"
  note d = sector_range [OF m(1), of p]
  have c: "nat (1 + int ?l - int ?f) = Suc ?l - ?f" by simp
  have o: "int p - int ?f * int SectorSize = int (p - ?f * SectorSize)" using sector_of(1) [of p] by (simp only: of_nat_diff of_nat_mult)
  have a: "arr_slice from 0 (int m) = Inr (take m from)" using n by (simp add: arr_slice_def m_def)
  obtain k' where k': "bind_r (write_buffer raw P h (int p) (int m) (int ?f) (int ?l) k) (\<lambda>(buf, k1).
      bind_r (put_bytes (int (p - ?f * SectorSize)) (take m from) buf) (\<lambda>buf1.
      write_sectors P h (int ?f) (Suc ?l - ?f) buf1 k1)) = Inr k'" and r: "dok k'" "sys.more k' = sys.more k"
      "content h (disk k') = overwrite p (take m from) (content h (disk k))" "\<forall>u. u \<notin> set (secs h) \<longrightarrow> disk k' ! u = disk k ! u"
    using WriteAt_part [OF h k m, of raw] by blast
  have "\<not> (n \<le> 0 \<or> fh_numBytes h \<le> int p)" using False by (simp add: nat_le_iff)
  moreover from k' obtain buf k1 buf1 where "write_buffer raw P h (int p) (int m) (int ?f) (int ?l) k = Inr (buf, k1)"
    "put_bytes (int (p - ?f * SectorSize)) (take m from) buf = Inr buf1" "write_sectors P h (int ?f) (Suc ?l - ?f) buf1 k1 = Inr k'"
    by (auto elim!: bind_r_InrE)
  ultimately have "hdr_WriteAt raw P h from n (int p) k = Inr (int m, k')"
    by (simp only: hdr_WriteAt_def FileHeader_FileLength_def Let_def int_m d c o a if_False bind_r_simps prod.case)
  then show ?thesis using r by blast
qed

end

section \<open>Open files\<close>

lemma dfs_more:
  assumes "sys.more (k' :: 'z dfs_scheme) = sys.more k"
  shows "disk_files k' = disk_files k" "disk_file_brk k' = disk_file_brk k" "disk_file_table k' = disk_file_table k"
    "freeMapFile k' = freeMapFile k" "directoryFile k' = directoryFile k"
  using assms by (cases k, cases k', simp)+

lemma disk_dfs [simp]:
  "disk (k\<lparr>disk_files := F\<rparr>) = disk k" "disk (k\<lparr>disk_file_brk := n\<rparr>) = disk k" "disk (k\<lparr>disk_file_table := t\<rparr>) = disk k"
  "disk (k\<lparr>freeMapFile := p\<rparr>) = disk k" "disk (k\<lparr>directoryFile := p\<rparr>) = disk k"
  by (rule disk_cong; simp)+

text \<open>The contract of the disk in a kernel with open files, to which the disk is indifferent.\<close>

locale file_disk = synch_disk P dok for P :: "'z dfs_scheme semop" and dok :: "'z dfs_scheme \<Rightarrow> bool" +
  assumes dok_dfs [simp]: "dok (k\<lparr>disk_files := F\<rparr>) = dok k" "dok (k\<lparr>disk_file_brk := n\<rparr>) = dok k"
    "dok (k\<lparr>disk_file_table := t\<rparr>) = dok k" "dok (k\<lparr>freeMapFile := p\<rparr>) = dok k" "dok (k\<lparr>directoryFile := p\<rparr>) = dok k"
begin

lemma DiskFile_ReadAt_content:
  assumes "disk_files k p = Some f" "hdr_ok (df_hdr f)" "dok k"
  defines "part \<equiv> \<lambda>n q. take (nat n) (drop q (content (df_hdr f) (disk k)))"
  shows "\<exists>k'. DiskFile_ReadAt P p n (int q) k = Inr (int (length (part n q)), part n q, k') \<and> dok k' \<and> kept k k'"
  using ReadAt_content [OF assms(2,3)] assms(1) by (simp add: DiskFile_ReadAt_def part_def)

lemma DiskFile_WriteAt_content:
  assumes "disk_files k p = Some f" "hdr_ok (df_hdr f)" "dok k" "nat n \<le> length from"
  defines "m \<equiv> \<lambda>q. min (nat n) (nat (fh_numBytes (df_hdr f)) - q)"
  shows "\<exists>k'. DiskFile_WriteAt raw P p from n (int q) k = Inr (int (m q), k') \<and> dok k' \<and> sys.more k' = sys.more k \<and>
    content (df_hdr f) (disk k') = overwrite q (take (m q) from) (content (df_hdr f) (disk k)) \<and>
    (\<forall>u. u \<notin> set (secs (df_hdr f)) \<longrightarrow> disk k' ! u = disk k ! u)"
  using WriteAt_content [OF assms(2,3,4), of raw q] assms(1) by (simp add: DiskFile_WriteAt_def m_def)

lemma DiskFile_Read_content:
  fixes n :: int
  assumes f: "disk_files k p = Some f" "hdr_ok (df_hdr f)" "dok k" "df_seekPosition f = int q"
  defines "bs \<equiv> take (nat n) (drop q (content (df_hdr f) (disk k)))"
  shows "\<exists>k'. DiskFile_Read P p n k = Inr (int (length bs), bs, k') \<and> dok k' \<and> disk k' = disk k \<and>
    sys.more k' = sys.more (k\<lparr>disk_files := (disk_files k)(p \<mapsto> f\<lparr>df_seekPosition := int (q + length bs)\<rparr>)\<rparr>)"
proof -
  obtain k1 where k1: "DiskFile_ReadAt P p n (int q) k = Inr (int (length bs), bs, k1)" "dok k1" "kept k k1"
    using DiskFile_ReadAt_content [OF f(1-3)] unfolding bs_def by blast
  have m: "sys.more k1 = sys.more k" "disk k1 = disk k" using k1(3) by (simp_all add: kept_def)
  have f1: "disk_files k1 p = Some f" using dfs_more(1) [OF m(1)] f(1) by simp
  let ?k = "k1\<lparr>disk_files := (disk_files k1)(p \<mapsto> f\<lparr>df_seekPosition := int (q + length bs)\<rparr>)\<rparr>"
  have "DiskFile_Read P p n k = Inr (int (length bs), bs, ?k)"
    using k1(1) f(1,4) f1 by (simp add: DiskFile_Read_def DiskFile_CurPos_def DiskFile_Seek_def)
  moreover have "sys.more ?k = sys.more (k\<lparr>disk_files := (disk_files k)(p \<mapsto> f\<lparr>df_seekPosition := int (q + length bs)\<rparr>)\<rparr>)"
    using m(1) by (cases k, cases k1, simp)
  ultimately show ?thesis using k1(2) m(2) by (intro exI [of _ ?k]) simp
qed

lemma DiskFile_Write_content:
  assumes f: "disk_files k p = Some f" "hdr_ok (df_hdr f)" "dok k" "nat n \<le> length from" "df_seekPosition f = int q"
  defines "m \<equiv> min (nat n) (nat (fh_numBytes (df_hdr f)) - q)"
  shows "\<exists>k'. DiskFile_Write raw P p from n k = Inr (int m, k') \<and> dok k' \<and>
    sys.more k' = sys.more (k\<lparr>disk_files := (disk_files k)(p \<mapsto> f\<lparr>df_seekPosition := int (q + m)\<rparr>)\<rparr>) \<and>
    content (df_hdr f) (disk k') = overwrite q (take m from) (content (df_hdr f) (disk k)) \<and>
    (\<forall>u. u \<notin> set (secs (df_hdr f)) \<longrightarrow> disk k' ! u = disk k ! u)"
proof -
  obtain k1 where k1: "DiskFile_WriteAt raw P p from n (int q) k = Inr (int m, k1)" "dok k1" "sys.more k1 = sys.more k"
    "content (df_hdr f) (disk k1) = overwrite q (take m from) (content (df_hdr f) (disk k))"
    "\<forall>u. u \<notin> set (secs (df_hdr f)) \<longrightarrow> disk k1 ! u = disk k ! u"
    using DiskFile_WriteAt_content [OF f(1-4), of raw q] unfolding m_def by blast
  have f1: "disk_files k1 p = Some f" using dfs_more(1) [OF k1(3)] f(1) by simp
  let ?k = "k1\<lparr>disk_files := (disk_files k1)(p \<mapsto> f\<lparr>df_seekPosition := int (q + m)\<rparr>)\<rparr>"
  have "DiskFile_Write raw P p from n k = Inr (int m, ?k)"
    using k1(1) f(1,5) f1 by (simp add: DiskFile_Write_def DiskFile_CurPos_def DiskFile_Seek_def)
  moreover have "sys.more ?k = sys.more (k\<lparr>disk_files := (disk_files k)(p \<mapsto> f\<lparr>df_seekPosition := int (q + m)\<rparr>)\<rparr>)"
    using k1(3) by (cases k, cases k1, simp)
  ultimately show ?thesis using k1(2,4,5) by (intro exI [of _ ?k]) simp
qed

end

interpretation own_files: file_disk P_disk quiet
  by unfold_locales (simp_all add: quiet_def disk_ok_def head_ok_def alone_def cpu_ok_def)

section \<open>Properties\<close>

text \<open>
  C37: The synchronous disk returns.  A thread that is alone on the machine goes to sleep after each
  request, is woken by the interrupt of the disk and continues: a sector that is written is read back as it was
  written, no other sector changes, and the machine is quiet again.
\<close>

theorem SynchDisk_returns:
  assumes "quiet k" "n < nat NumSectors" "SectorSize \<le> length d"
  shows "\<exists>k1 k2. SynchDisk_WriteSector P_disk (int n) d k = Inr k1 \<and>
    SynchDisk_ReadSector P_disk (int n) k1 = Inr (take SectorSize d, k2) \<and> quiet k2 \<and>
    (\<forall>u. u \<noteq> n \<longrightarrow> disk k2 ! u = disk k ! u)"
proof -
  obtain k1 where k1: "SynchDisk_WriteSector P_disk (int n) d k = Inr k1" "quiet k1" "disk k1 = (disk k)[n := take SectorSize d]"
    using own_disk.write_sector [OF assms] by blast
  obtain k2 where k2: "SynchDisk_ReadSector P_disk (int n) k1 = Inr (disk k1 ! n, k2)" "quiet k2" "kept k1 k2"
    using own_disk.read_sector [OF k1(2) assms(2)] by blast
  have "disk k2 ! u = disk k ! u" if "u \<noteq> n" for u using k1(3) k2(3) that by (simp add: kept_def)
  then show ?thesis using k1(1,3) k2(1,2) assms(2) by auto
qed

text \<open>
  C8: \<^verbatim>\<open>OpenFile::WriteAt\<close> replaces exactly the bytes it is given.  Whatever the position and the length,
  aligned to sectors or not, the content of the file afterwards is the old one with the bytes written over it from
  the position on, cut off at the end of the file; the result is the number of bytes written; and every
  sector that is not one of the file keeps its data.
\<close>

theorem WriteAt_replaces:
  assumes "quiet k" "disk_files k p = Some f" "hdr_ok (df_hdr f)" "nat n \<le> length from"
  shows "\<exists>k' m. DiskFile_WriteAt raw P_disk p from n (int q) k = Inr (int m, k') \<and> quiet k' \<and>
    m = min (nat n) (nat (FileHeader_FileLength (df_hdr f)) - q) \<and>
    content (df_hdr f) (disk k') = overwrite q (take m from) (content (df_hdr f) (disk k)) \<and>
    (\<forall>u. u \<notin> set (secs (df_hdr f)) \<longrightarrow> disk k' ! u = disk k ! u)"
  using own_files.DiskFile_WriteAt_content [OF assms(2,3,1,4), of raw q] unfolding FileHeader_FileLength_def by blast

text \<open>
  C38: What is written to a file is read back.  Two pieces written one after the other, by calls of
  \<^verbatim>\<open>Write\<close> that continue where the last one ended, are read back in one piece after seeking to where the first began.
\<close>

theorem Write_Read:
  assumes "quiet k" "disk_files k p = Some f" "hdr_ok (df_hdr f)"
    "int (q + length a + length b) \<le> FileHeader_FileLength (df_hdr f)"
  shows "\<exists>k1 k2 k3 k4 k5. DiskFile_Seek p (int q) k = Inr k1 \<and>
    DiskFile_Write raw P_disk p a (int (length a)) k1 = Inr (int (length a), k2) \<and>
    DiskFile_Write raw P_disk p b (int (length b)) k2 = Inr (int (length b), k3) \<and>
    DiskFile_Seek p (int q) k3 = Inr k4 \<and>
    DiskFile_Read P_disk p (int (length a + length b)) k4 = Inr (int (length a + length b), a @ b, k5) \<and> quiet k5"
proof -
  let ?h = "df_hdr f" and ?at = "\<lambda>x. f\<lparr>df_seekPosition := int x\<rparr>"
  have len: "q + length a + length b \<le> nat (fh_numBytes ?h)" using assms(4) by (simp add: FileHeader_FileLength_def)
  let ?k1 = "k\<lparr>disk_files := (disk_files k)(p \<mapsto> ?at q)\<rparr>"
  have s1: "DiskFile_Seek p (int q) k = Inr ?k1" using assms(2) by (simp add: DiskFile_Seek_def)
  have m: "min (length a) (nat (fh_numBytes ?h) - q) = length a" "min (length b) (nat (fh_numBytes ?h) - (q + length a)) = length b"
    using len by simp_all
  obtain k2 where w2: "DiskFile_Write raw P_disk p a (int (length a)) ?k1 = Inr (int (length a), k2)" "quiet k2"
    "disk_files k2 p = Some (?at (q + length a))" "content ?h (disk k2) = overwrite q a (content ?h (disk k))"
    using own_files.DiskFile_Write_content [of ?k1 p "?at q" "int (length a)" a q raw] assms(1,3) m(1) by (auto dest!: dfs_more(1))
  obtain k3 where w3: "DiskFile_Write raw P_disk p b (int (length b)) k2 = Inr (int (length b), k3)" "quiet k3"
    "disk_files k3 p = Some (?at (q + length a + length b))" "content ?h (disk k3) = overwrite (q + length a) b (content ?h (disk k2))"
    using own_files.DiskFile_Write_content [of k2 p "?at (q + length a)" "int (length b)" b "q + length a" raw] w2(2,3) assms(3) m(2)
    by (auto dest!: dfs_more(1))
  let ?k4 = "k3\<lparr>disk_files := (disk_files k3)(p \<mapsto> ?at q)\<rparr>"
  have s4: "DiskFile_Seek p (int q) k3 = Inr ?k4" using w3(3) by (simp add: DiskFile_Seek_def)
  have "length (content ?h (disk k)) = nat (fh_numBytes ?h)" using assms(3) own_disk.wf [OF assms(1)] by simp
  then have part: "take (length a + length b) (drop q (content ?h (disk k3))) = a @ b"
    unfolding w3(4) w2(4) using len by (simp add: overwrite_def)
  obtain k5 where r: "DiskFile_Read P_disk p (int (length a + length b)) ?k4 = Inr (int (length a + length b), a @ b, k5)" "quiet k5"
    using own_files.DiskFile_Read_content [of ?k4 p "?at q" q "int (length a + length b)", unfolded nat_int] w3(2) assms(3)
    by (simp add: part) blast
  show ?thesis using s1 w2(1) w3(1) s4 r by blast
qed

section \<open>A machine to try them on\<close>

definition demo_hdr :: FileHeader where
  "demo_hdr = \<lparr>fh_numBytes = 1000, fh_numSectors = 2, fh_dataSectors = 10 # 7 # replicate 124 0\<rparr>"

definition demo_dfs :: dfs where
  "demo_dfs = sys.extend (demo_sys\<lparr>pending := [], level := IntOn\<rparr>)
     (dfs.fields [0 \<mapsto> \<lparr>df_hdr = demo_hdr, df_seekPosition = 0, df_type = 0\<rparr>] 1 (replicate 10 None) None None)"

lemmas demo_dfs_simps = demo_dfs_def sys.extend_def dfs.fields_def demo_sys_simps

lemma demo_hdr_ok: "hdr_ok demo_hdr"
  by (simp add: hdr_ok_def demo_hdr_def secs_def nachos_defs divRoundUp_def numeral_2_eq_2)

lemma demo_dfs_quiet: "quiet demo_dfs"
  by (simp add: quiet_def alone_def cpu_ok_def disk_ok_def head_ok_def demo_dfs_simps demo_main_def nachos_defs fd_entry_def
    Statistics_new_def)

lemma demo_dfs_file: "disk_files demo_dfs 0 = Some \<lparr>df_hdr = demo_hdr, df_seekPosition = 0, df_type = 0\<rparr>"
  by (simp add: demo_dfs_simps)

theorem SynchDisk_returns_witness:
  "\<exists>k1 k2. SynchDisk_WriteSector P_disk 5 (replicate 512 7) demo_dfs = Inr k1 \<and>
    SynchDisk_ReadSector P_disk 5 k1 = Inr (replicate 512 7, k2) \<and> quiet k2"
  using SynchDisk_returns [OF demo_dfs_quiet, of 5 "replicate 512 7"] by (simp add: nachos_defs) blast

theorem WriteAt_replaces_witness:
  "\<exists>k'. DiskFile_WriteAt (\<lambda>_. 0) P_disk 0 (replicate 600 7) 600 500 demo_dfs = Inr (500, k') \<and>
    content demo_hdr (disk k') = take 500 (content demo_hdr (disk demo_dfs)) @ replicate 500 7"
  using WriteAt_replaces [OF demo_dfs_quiet demo_dfs_file, of 600 "replicate 600 7" "\<lambda>_. 0" 500] demo_hdr_ok
    own_disk.wf [OF demo_dfs_quiet]
  by (auto simp: FileHeader_FileLength_def overwrite_def) (simp_all add: demo_hdr_def)

theorem Write_Read_witness:
  "\<exists>k1 k2 k3 k4 k5. DiskFile_Seek 0 510 demo_dfs = Inr k1 \<and> DiskFile_Write (\<lambda>_. 0) P_disk 0 [1, 2, 3] 3 k1 = Inr (3, k2) \<and>
    DiskFile_Write (\<lambda>_. 0) P_disk 0 [4, 5] 2 k2 = Inr (2, k3) \<and> DiskFile_Seek 0 510 k3 = Inr k4 \<and>
    DiskFile_Read P_disk 0 5 k4 = Inr (5, [1, 2, 3, 4, 5], k5) \<and> quiet k5"
  using Write_Read [OF demo_dfs_quiet demo_dfs_file, of 510 "[1, 2, 3]" "[4, 5]" "\<lambda>_. 0"] demo_hdr_ok
  by (simp add: FileHeader_FileLength_def demo_hdr_def)

end
