(* ===== verification/Disk_Layout.thy ===== *)
theory Disk_Layout
  imports Disk_Correct
begin

text \<open>
  What the structures of the disk file system look like on the disk: the bytes of headers, bitmaps and directories
  are read back as they were written, \<^verbatim>\<open>FileHeader::Allocate\<close> takes different free sectors, and a directory is
  an association list from names, of which nine characters count, to sectors.
\<close>

section \<open>Integers\<close>

definition int32 :: "int \<Rightarrow> bool" where
  "int32 x \<longleftrightarrow> - (2 ^ 31) \<le> x \<and> x < 2 ^ 31"

lemma sint_of_int32 [simp]: "int32 x \<Longrightarrow> sint (of_int x :: 32 word) = x"
  by (simp add: int32_def sint_sbintrunc' signed_take_bit_int_eq_self)

lemma int32_sint [simp]: "int32 (sint (w :: 32 word))"
  using sint_greater_eq [of w] sint_less [of w] by (simp add: int32_def)

lemma length_word_bytes [simp]: "length (word_bytes ws) = 4 * length ws"
  by (induction ws) (simp_all add: word_bytes_def)

lemma drop_word_bytes: "drop (4 * i) (word_bytes ws) = word_bytes (drop i ws)"
proof (induction ws arbitrary: i)
  case (Cons w ws)
  then show ?case by (cases i) (simp_all add: word_bytes_def)
qed (simp add: word_bytes_def)

lemma words_of_word_bytes [simp]: "words_of (word_bytes ws) = ws"
proof (rule nth_equalityI)
  fix i assume "i < length (words_of (word_bytes ws))"
  then have i: "i < length ws" by (simp add: words_of_def)
  then have "drop i ws = ws ! i # drop (Suc i) ws" by (simp add: Cons_nth_drop_Suc)
  then show "words_of (word_bytes ws) ! i = ws ! i" using i by (simp add: words_of_def drop_word_bytes) (simp add: word_bytes_def)
qed (simp add: words_of_def)

section \<open>File headers\<close>

definition hdr_wf :: "FileHeader \<Rightarrow> bool" where
  "hdr_wf h \<longleftrightarrow> int32 (fh_numBytes h) \<and> int32 (fh_numSectors h) \<and> length (fh_dataSectors h) = NumDirect \<and>
     (\<forall>s \<in> set (fh_dataSectors h). int32 s)"

lemma length_hdr_bytes: "hdr_wf h \<Longrightarrow> length (hdr_bytes h) = SectorSize"
  by (simp add: hdr_bytes_def hdr_wf_def nachos_defs)

lemma bytes_hdr_bytes [simp]: "hdr_wf h \<Longrightarrow> bytes_hdr (hdr_bytes h) = h"
  by (simp add: bytes_hdr_def hdr_bytes_def hdr_wf_def Let_def map_idI)

lemma hdr_wf_new: "hdr_wf (FileHeader_new raw)"
  by (simp add: FileHeader_new_def bytes_hdr_def hdr_wf_def Let_def words_of_def fresh_def nachos_defs)

text \<open>The loop of \<^verbatim>\<open>Allocate\<close> stores the slots that the bitmap hands out.\<close>

lemma allocate_loop:
  assumes "alloc_slots BitMap_FindFreeSlot n b = Inr (ss, b')" "i + n \<le> length (fh_dataSectors h)"
  shows "for_loop i n (\<lambda>i (h, b). bind_r (BitMap_FindFreeSlot b) (\<lambda>(s, b1).
      bind_r (arr_set (fh_dataSectors h) (int i) s) (\<lambda>ds. Inr (h\<lparr>fh_dataSectors := ds\<rparr>, b1)))) (h, b) =
    Inr (h\<lparr>fh_dataSectors := take i (fh_dataSectors h) @ ss @ drop (i + n) (fh_dataSectors h)\<rparr>, b') \<and> length ss = n"
  using assms
proof (induction n arbitrary: i h b ss)
  case (Suc n)
  then obtain s b1 ss' where s: "BitMap_FindFreeSlot b = Inr (s, b1)" "alloc_slots BitMap_FindFreeSlot n b1 = Inr (ss', b')" "ss = s # ss'"
    by (auto elim!: bind_r_InrE)
  let ?h = "h\<lparr>fh_dataSectors := (fh_dataSectors h)[i := s]\<rparr>"
  have "take (Suc i) ((fh_dataSectors h)[i := s]) = take i (fh_dataSectors h) @ [s]"
    using Suc.prems(2) by (simp add: take_Suc_conv_app_nth)
  with Suc.IH [OF s(2), of "Suc i" ?h] s Suc.prems(2) show ?case by simp
qed simp

lemma Allocate_ok:
  assumes b: "bitmap_ok b" "numBits b = NumSectors" and h: "hdr_wf h" and sz: "0 \<le> sz" "sz \<le> int MaxFileSize"
  defines "n \<equiv> nat (divRoundUp sz (int SectorSize))"
  shows "nat NumSectors < card (bits b) + n \<Longrightarrow> \<exists>h'. FileHeader_Allocate sz h b = Inr (False, h', b)"
    and "card (bits b) + n \<le> nat NumSectors \<Longrightarrow> \<exists>h' b'. FileHeader_Allocate sz h b = Inr (True, h', b') \<and> hdr_ok h' \<and> hdr_wf h' \<and>
      fh_numBytes h' = sz \<and> bitmap_ok b' \<and> numBits b' = NumSectors \<and> set (secs h') \<inter> bits b = {} \<and> bits b' = bits b \<union> set (secs h')"
proof -
  let ?q = "divRoundUp sz (int SectorSize)"
  have q: "0 \<le> ?q" "?q \<le> int NumDirect"
  proof -
    show "0 \<le> ?q" using sz(1) by (intro divRoundUp_nonneg) (simp_all add: nachos_defs)
    show "?q \<le> int NumDirect" using divRoundUp_bounds [of 512 sz] sz by (simp add: nachos_defs)
  qed
  have c: "card (bits b) \<le> nat NumSectors" using bm.card_used_le [OF b(1)] b(2) by simp
  have clear: "BitMap_NumClear b = Inr (int (nat NumSectors - card (bits b)))" using BitMap_NumClear_eq [OF b(1)] b(2) by simp
  show "\<exists>h'. FileHeader_Allocate sz h b = Inr (False, h', b)" if "nat NumSectors < card (bits b) + n"
  proof -
    have "int (nat NumSectors - card (bits b)) < ?q" using that c q(1) unfolding n_def by linarith
    then show ?thesis using clear by (simp add: FileHeader_Allocate_def Let_def)
  qed
  assume enough: "card (bits b) + n \<le> nat NumSectors"
  then have "n \<le> bm_size b - card (bits b)" using b(2) by simp
  from bm.alloc_slots_enough [OF b(1) this] obtain ns b' where
    ns: "alloc_slots BitMap_FindFreeSlot n b = Inr (map int ns, b')" "length ns = n" "distinct ns" "set ns \<inter> bits b = {}"
      "set ns \<subseteq> {..<nat NumSectors}" "bits b' = bits b \<union> set ns" "bitmap_ok b'" "bm_size b' = bm_size b" using b(2) by auto
  let ?h = "h\<lparr>fh_numBytes := sz, fh_numSectors := ?q\<rparr>"
  let ?h' = "?h\<lparr>fh_dataSectors := map int ns @ drop n (fh_dataSectors h)\<rparr>"
  have len: "n \<le> length (fh_dataSectors h)" using h q unfolding n_def by (simp add: hdr_wf_def)
  have "\<not> int (nat NumSectors - card (bits b)) < ?q" using enough q(1) unfolding n_def by linarith
  then have "FileHeader_Allocate sz h b = Inr (True, ?h', b')"
    using allocate_loop [OF ns(1), of 0 ?h] len clear by (simp add: FileHeader_Allocate_def Let_def n_def)
  moreover have secs: "secs ?h' = ns" using ns(2) by (simp add: secs_def n_def [symmetric] comp_def)
  moreover have "hdr_ok ?h'"
  proof -
    have "take (nat ?q) (fh_dataSectors ?h') = map int ns" using ns(2) by (simp add: n_def)
    moreover have "0 \<le> s \<and> s < NumSectors" if "s \<in> set (map int ns)" for s using ns(5) that by (auto simp: nachos_defs)
    moreover have "length (fh_dataSectors ?h') = NumDirect" using h ns(2) len by (simp add: hdr_wf_def)
    ultimately show ?thesis using sz(1) q(2) ns(3) secs by (simp add: hdr_ok_def)
  qed
  moreover have "hdr_wf ?h'"
  proof -
    have "int32 sz" "int32 ?q" using sz q by (simp_all add: int32_def nachos_defs)
    moreover have "int32 (int s)" if "s \<in> set ns" for s using ns(5) that by (auto simp: int32_def nachos_defs)
    ultimately show ?thesis using h ns(2) len by (auto simp: hdr_wf_def dest: in_set_dropD)
  qed
  moreover have "numBits b' = NumSectors" using ns(7,8) b by (simp add: bitmap_ok_def nachos_defs)
  ultimately show "\<exists>h' b'. FileHeader_Allocate sz h b = Inr (True, h', b') \<and> hdr_ok h' \<and> hdr_wf h' \<and>
      fh_numBytes h' = sz \<and> bitmap_ok b' \<and> numBits b' = NumSectors \<and> set (secs h') \<inter> bits b = {} \<and> bits b' = bits b \<union> set (secs h')"
    using ns(4,6,7) by (intro exI [of _ ?h'] exI [of _ b']) simp
qed

text \<open>A file too long for its header: the loop of \<^verbatim>\<open>Allocate\<close> writes behind the array.\<close>

lemma allocate_loop_overrun:
  assumes "alloc_slots BitMap_FindFreeSlot n b = Inr (ss, b')" "length (fh_dataSectors h) < i + n" "i \<le> length (fh_dataSectors h)"
  shows "for_loop i n (\<lambda>i (h, b). bind_r (BitMap_FindFreeSlot b) (\<lambda>(s, b1).
      bind_r (arr_set (fh_dataSectors h) (int i) s) (\<lambda>ds. Inr (h\<lparr>fh_dataSectors := ds\<rparr>, b1)))) (h, b) = Inl OutOfBounds"
  using assms
proof (induction n arbitrary: i h b ss)
  case (Suc n)
  then obtain s b1 ss' where s: "BitMap_FindFreeSlot b = Inr (s, b1)" "alloc_slots BitMap_FindFreeSlot n b1 = Inr (ss', b')"
    by (auto elim!: bind_r_InrE)
  show ?case
  proof (cases "i = length (fh_dataSectors h)")
    case True
    then show ?thesis using s(1) by (simp add: arr_set_def)
  next
    case False
    then show ?thesis using Suc.IH [OF s(2), of "h\<lparr>fh_dataSectors := (fh_dataSectors h)[i := s]\<rparr>" "Suc i"] s(1) Suc.prems(2,3) by simp
  qed
qed simp

lemma Allocate_overrun:
  assumes b: "bitmap_ok b" "numBits b = NumSectors" and h: "hdr_wf h" and sz: "int MaxFileSize < sz"
    and enough: "card (bits b) + nat (divRoundUp sz (int SectorSize)) \<le> nat NumSectors"
  shows "FileHeader_Allocate sz h b = Inl OutOfBounds"
proof -
  let ?q = "divRoundUp sz (int SectorSize)"
  have q: "int NumDirect < ?q" using divRoundUp_bounds [of 512 sz] sz by (simp add: nachos_defs)
  have clear: "BitMap_NumClear b = Inr (int (nat NumSectors - card (bits b)))" using BitMap_NumClear_eq [OF b(1)] b(2) by simp
  have "nat ?q \<le> bm_size b - card (bits b)" using b(2) enough by simp
  from bm.alloc_slots_enough [OF b(1) this] obtain ns b' where
    "alloc_slots BitMap_FindFreeSlot (nat ?q) b = Inr (map int ns, b')" by blast
  moreover obtain c where "BitMap_NumClear b = Inr c" "\<not> c < ?q" using clear enough q by (auto simp del: of_nat_diff)
  ultimately show ?thesis using allocate_loop_overrun [of "nat ?q" b "map int ns" b' "h\<lparr>fh_numBytes := sz, fh_numSectors := ?q\<rparr>" 0] q h
    by (simp add: FileHeader_Allocate_def Let_def hdr_wf_def)
qed

lemma Deallocate_ok:
  assumes b: "bitmap_ok b" "numBits b = NumSectors" and h: "hdr_ok h" and s: "set (secs h) \<subseteq> bits b"
  shows "\<exists>b'. FileHeader_Deallocate h b = Inr b' \<and> bitmap_ok b' \<and> numBits b' = NumSectors \<and> bits b' = bits b - set (secs h)"
proof -
  let ?n = "nat (fh_numSectors h)" and ?body = "\<lambda>i b. bind_r (arr_get (fh_dataSectors h) (int i)) (\<lambda>s.
       bind_r (BitMap_Test s b) (\<lambda>marked. bind_r (ASSERT marked) (\<lambda>_. BitMap_Clear s b)))"
  let ?I = "\<lambda>j b'. bitmap_ok b' \<and> numBits b' = NumSectors \<and> bits b' = bits b - set (take j (secs h))"
  have "\<exists>b'. for_loop 0 ?n ?body b = Inr b' \<and> ?I (0 + ?n) b'"
  proof (rule for_loop_rule)
    show "?I 0 b" using b by simp
  next
    fix j b1 assume j: "j < 0 + ?n" and I: "?I j b1"
    let ?s = "secs h ! j"
    have js: "j < length (secs h)" using j h by simp
    have s1: "fh_dataSectors h ! j = int ?s" "j < length (fh_dataSectors h)" using ByteToSector_ok [OF h, of j] j
      by (auto simp: FileHeader_ByteToSector_def arr_get_Inr_iff nachos_defs)
    have sb: "?s < bm_size b1" using secs_nth_bound [OF h] j I by simp
    have "?s \<notin> set (take j (secs h))" using h js by (auto simp: hdr_ok_def in_set_conv_nth nth_eq_iff_index_eq)
    then have t: "BitMap_Test (int ?s) b1 = Inr True" using BitMap_Test_correct [OF _ sb] I s js by (auto dest: nth_mem)
    obtain b2 where b2: "BitMap_Clear (int ?s) b1 = Inr b2" "bitmap_ok b2" "numBits b2 = numBits b1" "bits b2 = bits b1 - {?s}"
      using BitMap_Clear_correct [OF _ sb] I by blast
    have "take (Suc j) (secs h) = take j (secs h) @ [?s]" using js by (simp add: take_Suc_conv_app_nth)
    then show "\<exists>b'. ?body j b1 = Inr b' \<and> ?I (Suc j) b'" using b2 I t s1 by auto
  qed
  then show ?thesis using h by (auto simp: FileHeader_Deallocate_def)
qed

section \<open>Directory entries\<close>

definition entry_wf :: "DirectoryEntry \<Rightarrow> bool" where
  "entry_wf e \<longleftrightarrow> length (de_gap e) = 3 \<and> int32 (de_sector e) \<and> length (de_name e) = 10 \<and> length (de_tail e) = 2"

lemma length_entry_bytes [simp]: "entry_wf e \<Longrightarrow> length (entry_bytes e) = entry_size"
  by (simp add: entry_bytes_def entry_wf_def nachos_defs)

lemma bytes_entry_bytes [simp]: "entry_wf e \<Longrightarrow> bytes_entry (entry_bytes e) = e"
  by (simp add: bytes_entry_def entry_bytes_def entry_wf_def drop_Cons')

lemma entry_wf_bytes: "length bs = entry_size \<Longrightarrow> entry_wf (bytes_entry bs)"
  by (simp add: bytes_entry_def entry_wf_def nachos_defs)

lemma length_table_bytes: "\<forall>e \<in> set t. entry_wf e \<Longrightarrow> length (table_bytes t) = entry_size * length t"
  by (induction t) (simp_all add: table_bytes_def)

lemma drop_table_bytes: "\<forall>e \<in> set t. entry_wf e \<Longrightarrow> drop (entry_size * i) (table_bytes t) = table_bytes (drop i t)"
proof (induction t arbitrary: i)
  case (Cons e t)
  then show ?case by (cases i) (simp_all add: table_bytes_def)
qed (simp add: table_bytes_def)

lemma bytes_table_bytes [simp]:
  assumes "\<forall>e \<in> set t. entry_wf e"
  shows "bytes_table (table_bytes t) = t"
proof (rule nth_equalityI)
  show l: "length (bytes_table (table_bytes t)) = length t"
    by (simp add: bytes_table_def length_table_bytes [OF assms] nachos_defs)
  fix i assume "i < length (bytes_table (table_bytes t))"
  then have i: "i < length t" using l by simp
  then have "drop i t = t ! i # drop (Suc i) t" by (simp add: Cons_nth_drop_Suc)
  moreover have "entry_wf (t ! i)" using assms i by simp
  ultimately have "take entry_size (drop (entry_size * i) (table_bytes t)) = entry_bytes (t ! i)"
    unfolding drop_table_bytes [OF assms] by (simp add: table_bytes_def)
  then show "bytes_table (table_bytes t) ! i = t ! i"
    using i \<open>entry_wf (t ! i)\<close> l by (simp add: bytes_table_def)
qed

lemma Directory_new_wf: "\<forall>e \<in> set (dir_table (Directory_new raw sz)). entry_wf e \<and> \<not> de_inUse e" "length (dir_table (Directory_new raw sz)) = nat sz"
proof -
  have "entry_wf (bytes_entry (take entry_size (drop (entry_size * i) (fresh raw (nat sz * entry_size)))))" if "i < nat sz" for i
  proof -
    have "entry_size * i + entry_size \<le> nat sz * entry_size" using mult_le_mono2 [of "Suc i" "nat sz" entry_size] that by (simp add: mult.commute)
    then show ?thesis by (intro entry_wf_bytes) (simp add: fresh_def)
  qed
  then show "\<forall>e \<in> set (dir_table (Directory_new raw sz)). entry_wf e \<and> \<not> de_inUse e"
    by (auto simp: Directory_new_def bytes_table_def fresh_def nachos_defs entry_wf_def)
  show "length (dir_table (Directory_new raw sz)) = nat sz"
    by (simp add: Directory_new_def bytes_table_def fresh_def nachos_defs)
qed

section \<open>Directories\<close>

text \<open>The part of a name that counts, and the entries in use as an association list.\<close>

abbreviation short :: "byte list \<Rightarrow> byte list" where
  "short \<equiv> c_prefix FileNameMaxLen"

definition dirlist :: "DirectoryEntry list \<Rightarrow> (byte list \<times> int) list" where
  "dirlist t = map (\<lambda>e. (short (de_name e), de_sector e)) (filter de_inUse t)"

definition dir_ok :: "Directory \<Rightarrow> bool" where
  "dir_ok d \<longleftrightarrow> tableSize d = int (length (dir_table d)) \<and> (\<forall>e \<in> set (dir_table d). entry_wf e) \<and>
     distinct (map fst (dirlist (dir_table d)))"

lemma dirlist_split: "j < length t \<Longrightarrow> dirlist t = dirlist (take j t) @ dirlist [t ! j] @ dirlist (drop (Suc j) t)"
  by (subst id_take_nth_drop [of j t]) (simp_all add: dirlist_def)

lemma dirlist_update: "j < length t \<Longrightarrow> dirlist (t[j := e]) = dirlist (take j t) @ dirlist [e] @ dirlist (drop (Suc j) t)"
  by (simp add: dirlist_def upd_conv_take_nth_drop)

lemma dirlist_single: "dirlist [e] = (if de_inUse e then [(short (de_name e), de_sector e)] else [])"
  by (simp add: dirlist_def)

lemma strncpy_short: "short (strncpy FileNameMaxLen old name) = short name"
proof -
  let ?p = "short name" and ?w = "takeWhile (\<lambda>b. b \<noteq> (0 :: byte))"
  have p: "\<forall>b \<in> set ?p. b \<noteq> 0" by (auto simp: c_prefix_def dest!: in_set_takeD set_takeWhileD)
  then have "?w (?p @ xs) = ?p @ ?w xs" for xs by (simp add: takeWhile_append2)
  moreover have "length ?p \<le> FileNameMaxLen" by (simp add: c_prefix_def)
  ultimately show ?thesis
    by (cases "FileNameMaxLen - length ?p") (simp_all add: strncpy_def c_prefix_def [of FileNameMaxLen "strncpy FileNameMaxLen old name"] c_prefix_def)
qed

text \<open>The search.\<close>

lemma find_entry_from_cases:
  assumes "i + n \<le> length t"
  obtains (found) j where "i \<le> j" "j < i + n" "test (t ! j)" "find_entry_from test i n t = Inr (int j)"
  | (none) "\<And>j. i \<le> j \<Longrightarrow> j < i + n \<Longrightarrow> \<not> test (t ! j)" "find_entry_from test i n t = Inr (- 1)"
proof -
  have "(\<exists>j. i \<le> j \<and> j < i + n \<and> test (t ! j) \<and> find_entry_from test i n t = Inr (int j)) \<or>
    (\<forall>j. i \<le> j \<and> j < i + n \<longrightarrow> \<not> test (t ! j)) \<and> find_entry_from test i n t = Inr (- 1)"
    using assms
  proof (induction n arbitrary: i)
    case (Suc n)
    then have i: "i < length t" by simp
    show ?case
    proof (cases "test (t ! i)")
      case False
      have "(\<forall>j. i \<le> j \<and> j < i + Suc n \<longrightarrow> \<not> test (t ! j)) \<longleftrightarrow> (\<forall>j. Suc i \<le> j \<and> j < Suc i + n \<longrightarrow> \<not> test (t ! j))"
        using False by (metis Suc_leD Suc_leI add_Suc_right add_Suc le_neq_implies_less)
      then show ?thesis using Suc.IH [of "Suc i"] Suc.prems i False by (auto intro: Suc_leD)
    qed (use i in auto)
  qed auto
  then show thesis using found none by blast
qed

lemma FindIndex_cases:
  assumes "dir_ok d"
  obtains (found) j where "j < length (dir_table d)" "de_inUse (dir_table d ! j)" "short (de_name (dir_table d ! j)) = short name"
    "Directory_FindIndex name d = Inr (int j)" "map_of (dirlist (dir_table d)) (short name) = Some (de_sector (dir_table d ! j))"
  | (none) "map_of (dirlist (dir_table d)) (short name) = None" "Directory_FindIndex name d = Inr (- 1)"
proof -
  let ?t = "dir_table d" and ?test = "\<lambda>e. de_inUse e \<and> strncmp_eq FileNameMaxLen (de_name e) name"
  have n: "nat (tableSize d) = length ?t" using assms by (simp add: dir_ok_def)
  show thesis
  proof (rule find_entry_from_cases [of 0 "length ?t" ?t ?test])
    fix j assume j: "j < 0 + length ?t" "?test (?t ! j)" "find_entry_from ?test 0 (length ?t) ?t = Inr (int j)"
    then have "(short name, de_sector (?t ! j)) \<in> set (dirlist ?t)" by (force simp: dirlist_def strncmp_eq_def)
    then have "map_of (dirlist ?t) (short name) = Some (de_sector (?t ! j))" using assms by (simp add: dir_ok_def)
    then show thesis using j n by (intro found [of j]) (simp_all add: Directory_FindIndex_def strncmp_eq_def)
  next
    assume none': "\<And>j. 0 \<le> j \<Longrightarrow> j < 0 + length ?t \<Longrightarrow> \<not> ?test (?t ! j)" "find_entry_from ?test 0 (length ?t) ?t = Inr (- 1)"
    then have "short name \<notin> fst ` set (dirlist ?t)" by (fastforce simp: dirlist_def strncmp_eq_def in_set_conv_nth)
    then show thesis using none' n none by (simp add: Directory_FindIndex_def map_of_eq_None_iff)
  qed simp
qed

lemma Find_ok:
  assumes "dir_ok d"
  shows "Directory_Find name d = Inr (case map_of (dirlist (dir_table d)) (short name) of None \<Rightarrow> - 1 | Some s \<Rightarrow> s)"
  by (rule FindIndex_cases [OF assms, of name]) (simp_all add: Directory_Find_def)

lemma Add_full:
  assumes "dir_ok d" "length (dirlist (dir_table d)) = length (dir_table d)"
  shows "Directory_Add name s d = Inr (False, d)"
proof -
  let ?t = "dir_table d"
  have "filter de_inUse ?t = ?t" using assms(2) by (simp add: dirlist_def) (metis filter_True length_filter_less less_irrefl)
  then have all: "\<forall>e \<in> set ?t. de_inUse e" by (metis filter_id_conv)
  have "find_entry_from (\<lambda>e. \<not> de_inUse e) 0 (length ?t) ?t = Inr (- 1)"
    by (rule find_entry_from_cases [of 0 "length ?t" ?t "\<lambda>e. \<not> de_inUse e"]) (use all in auto)
  moreover have "nat (tableSize d) = length ?t" using assms(1) by (simp add: dir_ok_def)
  ultimately show ?thesis by (cases rule: FindIndex_cases [OF assms(1), of name]) (simp_all add: Directory_Add_def)
qed

lemma Add_ok:
  assumes d: "dir_ok d" and room: "length (dirlist (dir_table d)) < length (dir_table d)" and s: "int32 s"
    and new: "map_of (dirlist (dir_table d)) (short name) = None"
  shows "\<exists>t xs ys. Directory_Add name s d = Inr (True, d\<lparr>dir_table := t\<rparr>) \<and> dir_ok (d\<lparr>dir_table := t\<rparr>) \<and> length t = length (dir_table d) \<and>
    dirlist (dir_table d) = xs @ ys \<and> dirlist t = xs @ (short name, s) # ys"
proof -
  let ?t = "dir_table d"
  have n: "nat (tableSize d) = length ?t" using d by (simp add: dir_ok_def)
  have "\<not> (\<forall>e \<in> set ?t. de_inUse e)" using room filter_id_conv [of de_inUse ?t] by (auto simp: dirlist_def)
  then obtain j where j: "j < length ?t" "\<not> de_inUse (?t ! j)" "find_entry_from (\<lambda>e. \<not> de_inUse e) 0 (length ?t) ?t = Inr (int j)"
    by - (rule find_entry_from_cases [of 0 "length ?t" ?t "\<lambda>e. \<not> de_inUse e"], auto simp: in_set_conv_nth)
  let ?e = "(?t ! j)\<lparr>de_inUse := True, de_name := strncpy FileNameMaxLen (de_name (?t ! j)) name, de_sector := s\<rparr>"
  have add: "Directory_Add name s d = Inr (True, d\<lparr>dir_table := ?t[j := ?e]\<rparr>)"
    using new j n by (cases rule: FindIndex_cases [OF d, of name]) (simp_all add: Directory_Add_def)
  have split: "dirlist ?t = dirlist (take j ?t) @ dirlist (drop (Suc j) ?t)"
    "dirlist (?t[j := ?e]) = dirlist (take j ?t) @ (short name, s) # dirlist (drop (Suc j) ?t)"
    using j dirlist_split [OF j(1)] dirlist_update [OF j(1), of ?e] by (simp_all add: dirlist_single strncpy_short)
  have wf: "entry_wf (?t ! j)" using d j(1) by (auto simp: dir_ok_def)
  have "entry_wf ?e" using wf s by (simp add: entry_wf_def strncpy_def c_prefix_def nachos_defs)
  moreover have "distinct (map fst (dirlist (?t[j := ?e])))"
    using d new unfolding split(2) by (auto simp: dir_ok_def split(1) map_of_eq_None_iff)
  ultimately have "dir_ok (d\<lparr>dir_table := ?t[j := ?e]\<rparr>)"
    using d by (auto simp: dir_ok_def dest: subsetD [OF set_update_subset_insert])
  then show ?thesis using add split by (intro exI [of _ "?t[j := ?e]"]) auto
qed

lemma Remove_ok:
  assumes d: "dir_ok d" and old: "map_of (dirlist (dir_table d)) (short name) = Some s"
  shows "\<exists>t xs ys. Directory_Remove name d = Inr (True, d\<lparr>dir_table := t\<rparr>) \<and> dir_ok (d\<lparr>dir_table := t\<rparr>) \<and> length t = length (dir_table d) \<and>
    dirlist (dir_table d) = xs @ (short name, s) # ys \<and> dirlist t = xs @ ys"
proof -
  let ?t = "dir_table d"
  obtain j where j: "j < length ?t" "de_inUse (?t ! j)" "short (de_name (?t ! j)) = short name" "s = de_sector (?t ! j)"
    "Directory_FindIndex name d = Inr (int j)" using old by (cases rule: FindIndex_cases [OF d, of name]) auto
  let ?e = "(?t ! j)\<lparr>de_inUse := False\<rparr>"
  have rem: "Directory_Remove name d = Inr (True, d\<lparr>dir_table := ?t[j := ?e]\<rparr>)" using j by (simp add: Directory_Remove_def)
  have split: "dirlist ?t = dirlist (take j ?t) @ (short name, s) # dirlist (drop (Suc j) ?t)"
    "dirlist (?t[j := ?e]) = dirlist (take j ?t) @ dirlist (drop (Suc j) ?t)"
    using j dirlist_split [OF j(1)] dirlist_update [OF j(1), of ?e] by (simp_all add: dirlist_single)
  have "entry_wf (?t ! j)" using d j(1) by (auto simp: dir_ok_def)
  then have "entry_wf ?e" by (simp add: entry_wf_def)
  moreover have "distinct (map fst (dirlist (?t[j := ?e])))" using d unfolding split(2) by (auto simp: dir_ok_def split(1))
  ultimately have "dir_ok (d\<lparr>dir_table := ?t[j := ?e]\<rparr>)"
    using d by (auto simp: dir_ok_def dest: subsetD [OF set_update_subset_insert])
  then show ?thesis using rem split by (intro exI [of _ "?t[j := ?e]"]) auto
qed

end
