(* ===== verification/Disk_System.thy ===== *)
theory Disk_System
  imports Disk_Layout
begin

text \<open>
  The file system on the disk implements a map from names to contents.  \<open>on_disk\<close> is the invariant of the disk: the
  bitmap marks exactly the sectors that the headers, the two system files and the files of the directory occupy, and no
  sector belongs to two of them.  \<^verbatim>\<open>Create\<close>, \<^verbatim>\<open>Open\<close>, \<^verbatim>\<open>Remove\<close> and writing are proved against the map.
\<close>

section \<open>Files on the disk\<close>

definition hdr_at :: "byte list list \<Rightarrow> int \<Rightarrow> FileHeader" where
  "hdr_at D s = bytes_hdr (D ! nat s)"

text \<open>The sectors of a file, and of the files of a directory.\<close>

definition blocks :: "byte list list \<Rightarrow> int \<Rightarrow> nat list" where
  "blocks D s = nat s # secs (hdr_at D s)"

definition file_blocks :: "byte list list \<Rightarrow> (byte list \<times> int) list \<Rightarrow> nat list" where
  "file_blocks D L = concat (map (\<lambda>(n, s). blocks D s) L)"

definition files_ok :: "byte list list \<Rightarrow> (byte list \<times> int) list \<Rightarrow> bool" where
  "files_ok D L \<longleftrightarrow> (\<forall>(n, s) \<in> set L. 0 \<le> s \<and> s < NumSectors \<and> hdr_ok (hdr_at D s))"

text \<open>The abstract file system.\<close>

type_synonym files = "byte list \<Rightarrow> byte list option"

definition fs_view :: "byte list list \<Rightarrow> (byte list \<times> int) list \<Rightarrow> files" where
  "fs_view D L n = map_option (\<lambda>s. content (hdr_at D s) D) (map_of L n)"

lemma file_blocks_simps [simp]:
  "file_blocks D [] = []" "file_blocks D ((n, s) # L) = nat s # secs (hdr_at D s) @ file_blocks D L"
  "file_blocks D (L @ L') = file_blocks D L @ file_blocks D L'"
  by (simp_all add: file_blocks_def blocks_def)

lemma files_ok_simps [simp]:
  "files_ok D []" "files_ok D ((n, s) # L) \<longleftrightarrow> 0 \<le> s \<and> s < NumSectors \<and> hdr_ok (hdr_at D s) \<and> files_ok D L"
  "files_ok D (L @ L') \<longleftrightarrow> files_ok D L \<and> files_ok D L'"
  by (auto simp: files_ok_def)

text \<open>Files whose sectors do not change stay the same.\<close>

lemma file_frame:
  assumes "\<forall>u \<in> set (blocks D s). D' ! u = D ! u"
  shows "hdr_at D' s = hdr_at D s" "content (hdr_at D' s) D' = content (hdr_at D s) D"
proof -
  show h: "hdr_at D' s = hdr_at D s" using assms by (simp add: hdr_at_def blocks_def)
  show "content (hdr_at D' s) D' = content (hdr_at D s) D" unfolding h using assms by (intro content_cong) (simp add: blocks_def)
qed

lemma files_frame:
  assumes "\<forall>u \<in> set (file_blocks D L). D' ! u = D ! u"
  shows "file_blocks D' L = file_blocks D L" "files_ok D' L = files_ok D L" "fs_view D' L = fs_view D L"
proof -
  have s: "\<forall>u \<in> set (blocks D s). D' ! u = D ! u" if "(n, s) \<in> set L" for n s
    using assms that by (auto simp: file_blocks_def)
  show "file_blocks D' L = file_blocks D L" "files_ok D' L = files_ok D L"
    using file_frame(1) [OF s] by (auto simp: file_blocks_def files_ok_def blocks_def intro!: arg_cong [of _ _ concat])
  show "fs_view D' L = fs_view D L"
    using file_frame(2) [OF s] by (auto simp: fs_view_def fun_eq_iff dest: map_of_SomeD split: option.split intro!: option.map_cong)
qed

lemma files_ok_sector:
  assumes "files_ok D L" "map_of L name = Some s"
  obtains n where "s = int n" "n < nat NumSectors" "hdr_ok (hdr_at D s)"
proof -
  have "0 \<le> s" "s < NumSectors" "hdr_ok (hdr_at D s)" using assms by (auto simp: files_ok_def dest!: map_of_SomeD)
  then show thesis using that [of "nat s"] by simp
qed

lemma map_of_insert: "n \<notin> fst ` set (xs @ ys) \<Longrightarrow> map_of (xs @ (n, s) # ys) = (map_of (xs @ ys))(n \<mapsto> s)"
  by (induction xs) (auto simp: fun_upd_twist)

lemma map_of_delete:
  assumes "distinct (map fst (xs @ (n, s) # ys))"
  shows "map_of (xs @ ys) = (map_of (xs @ (n, s) # ys))(n := None)"
proof -
  have n: "n \<notin> fst ` set (xs @ ys)" using assms by auto
  then have "map_of (xs @ ys) n = None" by (simp only: map_of_eq_None_iff not_False_eq_True)
  then show ?thesis unfolding map_of_insert [OF n] by (simp only: fun_upd_upd fun_upd_idem)
qed

section \<open>The invariant\<close>

definition layout :: "FileHeader \<Rightarrow> FileHeader \<Rightarrow> byte list list \<Rightarrow> (byte list \<times> int) list \<Rightarrow> nat list" where
  "layout mh dh D L = 0 # 1 # secs mh @ secs dh @ file_blocks D L"

definition on_disk :: "FileHeader \<Rightarrow> FileHeader \<Rightarrow> byte list list \<Rightarrow> BitMap \<Rightarrow> Directory \<Rightarrow> bool" where
  "on_disk mh dh D b d \<longleftrightarrow>
     hdr_ok mh \<and> fh_numBytes mh = FreeMapFileSize \<and> hdr_at D FreeMapSector = mh \<and> content mh D = word_bytes (bm_words b) \<and>
     hdr_ok dh \<and> fh_numBytes dh = DirectoryFileSize \<and> hdr_at D DirectorySector = dh \<and> content dh D = table_bytes (dir_table d) \<and>
     bitmap_ok b \<and> numBits b = NumSectors \<and> dir_ok d \<and> tableSize d = NumDirEntries \<and> files_ok D (dirlist (dir_table d)) \<and>
     distinct (layout mh dh D (dirlist (dir_table d))) \<and> set (layout mh dh D (dirlist (dir_table d))) = bits b"

text \<open>The two files the kernel keeps open.\<close>

definition sysfiles :: "'z dfs_scheme \<Rightarrow> FileHeader \<Rightarrow> FileHeader \<Rightarrow> bool" where
  "sysfiles k mh dh \<longleftrightarrow> (\<exists>p q f g. freeMapFile k = Some p \<and> p < disk_file_brk k \<and> disk_files k p = Some f \<and> df_hdr f = mh \<and>
     directoryFile k = Some q \<and> q < disk_file_brk k \<and> disk_files k q = Some g \<and> df_hdr g = dh)"

text \<open>The state of the kernel and the disk implements an abstract file system.\<close>

definition fs_state :: "'z dfs_scheme \<Rightarrow> files \<Rightarrow> bool" where
  "fs_state k fs \<longleftrightarrow> (\<exists>mh dh b d. sysfiles k mh dh \<and> on_disk mh dh (disk k) b d \<and> fs = fs_view (disk k) (dirlist (dir_table d)))"

lemma sysfiles_more: "sysfiles k mh dh \<Longrightarrow> sys.more k' = sys.more k \<Longrightarrow> sysfiles k' mh dh"
  using dfs_more [of k' k] by (simp add: sysfiles_def)

lemma sysfiles_kept: "sysfiles k mh dh \<Longrightarrow> kept k k' \<Longrightarrow> sysfiles k' mh dh"
  by (simp add: kept_def sysfiles_more [of k])

lemma sysfiles_new:
  assumes "sysfiles k mh dh"
  shows "sysfiles (k\<lparr>disk_files := (disk_files k)(disk_file_brk k \<mapsto> f), disk_file_brk := Suc (disk_file_brk k)\<rparr>) mh dh"
    and "freeMapFile k \<noteq> Some (disk_file_brk k)" "directoryFile k \<noteq> Some (disk_file_brk k)"
proof -
  obtain p q g h where s: "freeMapFile k = Some p" "p < disk_file_brk k" "disk_files k p = Some g" "df_hdr g = mh"
    "directoryFile k = Some q" "q < disk_file_brk k" "disk_files k q = Some h" "df_hdr h = dh" using assms by (auto simp: sysfiles_def)
  then show "freeMapFile k \<noteq> Some (disk_file_brk k)" "directoryFile k \<noteq> Some (disk_file_brk k)" by auto
  show "sysfiles (k\<lparr>disk_files := (disk_files k)(disk_file_brk k \<mapsto> f), disk_file_brk := Suc (disk_file_brk k)\<rparr>) mh dh"
    unfolding sysfiles_def by (intro exI [of _ p] exI [of _ q] exI [of _ g] exI [of _ h]) (use s in simp)
qed

lemma sysfiles_seek:
  assumes "sysfiles k mh dh" "disk_files k p = Some f" "df_hdr f' = df_hdr f"
  shows "sysfiles (k\<lparr>disk_files := (disk_files k)(p \<mapsto> f')\<rparr>) mh dh"
proof -
  obtain a b g h where s: "freeMapFile k = Some a" "a < disk_file_brk k" "disk_files k a = Some g" "df_hdr g = mh"
    "directoryFile k = Some b" "b < disk_file_brk k" "disk_files k b = Some h" "df_hdr h = dh" using assms(1) by (auto simp: sysfiles_def)
  show ?thesis unfolding sysfiles_def
    by (intro exI [of _ a] exI [of _ b] exI [of _ "if a = p then f' else g"] exI [of _ "if b = p then f' else h"]) (use s assms(2,3) in auto)
qed

lemma sysfiles_delete:
  assumes "sysfiles k mh dh" "freeMapFile k \<noteq> Some p" "directoryFile k \<noteq> Some p"
  shows "sysfiles (k\<lparr>disk_files := (disk_files k)(p := None)\<rparr>) mh dh"
proof -
  obtain a b g h where s: "freeMapFile k = Some a" "a < disk_file_brk k" "disk_files k a = Some g" "df_hdr g = mh"
    "directoryFile k = Some b" "b < disk_file_brk k" "disk_files k b = Some h" "df_hdr h = dh" using assms(1) by (auto simp: sysfiles_def)
  show ?thesis unfolding sysfiles_def
    by (intro exI [of _ a] exI [of _ b] exI [of _ g] exI [of _ h]) (use s assms(2,3) in auto)
qed

text \<open>A file that a program has opened, with its name and its seek position.\<close>

definition fs_open :: "'z dfs_scheme \<Rightarrow> files \<Rightarrow> nat \<Rightarrow> byte list \<Rightarrow> nat \<Rightarrow> bool" where
  "fs_open k fs p n q \<longleftrightarrow> freeMapFile k \<noteq> Some p \<and> directoryFile k \<noteq> Some p \<and>
     (\<exists>mh dh b d f s. sysfiles k mh dh \<and> on_disk mh dh (disk k) b d \<and> fs = fs_view (disk k) (dirlist (dir_table d)) \<and>
       disk_files k p = Some f \<and> map_of (dirlist (dir_table d)) n = Some s \<and> df_hdr f = hdr_at (disk k) s \<and> df_seekPosition f = int q)"

lemma bitmap_words:
  assumes "bitmap_ok b" "numBits b = NumSectors"
  shows "numWords b = 32" "length (bm_words b) = 32"
  using assms by (simp_all add: bitmap_ok_def divRoundUp_def nachos_defs)

lemma same_bitmap: "numBits a = numBits b \<Longrightarrow> numWords a = numWords b \<Longrightarrow> a\<lparr>bm_words := bm_words b\<rparr> = (b :: BitMap)"
  by simp

lemma overwrite_all: "length bs = length c \<Longrightarrow> overwrite 0 bs c = bs"
  by (simp add: overwrite_def)

lemma new_map_ok: "\<exists>b. new_map raw = Inr b \<and> bitmap_ok b \<and> numBits b = NumSectors \<and> bits b = {}"
  unfolding new_map_def by (rule BitMap_new_correct) (simp_all add: words_of_def fresh_def divRoundUp_def nachos_defs)

text \<open>The number of sectors in use is a function of the abstract file system.\<close>

definition file_sectors :: "nat \<Rightarrow> nat" where
  "file_sectors n = nat (divRoundUp (int n) (int SectorSize))"

definition fs_used :: "files \<Rightarrow> nat" where
  "fs_used fs = 4 + (\<Sum>n \<in> dom fs. 1 + file_sectors (length (the (fs n))))"

lemma dom_fs_view: "dom (fs_view D L) = fst ` set L"
  by (simp add: fs_view_def dom_def flip: dom_map_of_conv_image_fst)

lemma length_secs: "hdr_ok h \<Longrightarrow> disk_wf D \<Longrightarrow> length (secs h) = file_sectors (length (content h D))"
  by (simp add: file_sectors_def) (simp add: hdr_ok_def)

lemma length_file_blocks:
  assumes "files_ok D L" "disk_wf D" "distinct (map fst L)"
  shows "length (file_blocks D L) = (\<Sum>n \<in> dom (fs_view D L). 1 + file_sectors (length (the (fs_view D L n))))"
proof -
  let ?g = "\<lambda>n. 1 + file_sectors (length (the (fs_view D L n)))"
  have "length (blocks D s) = ?g n" if "(n, s) \<in> set L" for n s
  proof -
    have "map_of L n = Some s" "hdr_ok (hdr_at D s)" using assms(1,3) that by (auto simp: files_ok_def)
    then show ?thesis using length_secs assms(2) by (simp add: blocks_def fs_view_def)
  qed
  then have "map (\<lambda>(n, s). length (blocks D s)) L = map ?g (map fst L)" by auto
  moreover have "length (file_blocks D L) = sum_list (map (\<lambda>(n, s). length (blocks D s)) L)"
    by (simp add: file_blocks_def length_concat comp_def case_prod_unfold)
  ultimately have "length (file_blocks D L) = sum_list (map ?g (map fst L))" by (simp only:)
  then show ?thesis unfolding dom_fs_view using sum.distinct_set_conv_list [OF assms(3), of ?g] by simp
qed

lemma used_sectors:
  assumes "on_disk mh dh D b d" "disk_wf D"
  shows "card (bits b) = fs_used (fs_view D (dirlist (dir_table d)))"
proof -
  let ?L = "dirlist (dir_table d)"
  have o: "distinct (layout mh dh D ?L)" "set (layout mh dh D ?L) = bits b" "files_ok D ?L" "distinct (map fst ?L)"
    using assms(1) by (auto simp: on_disk_def dir_ok_def)
  have "length (secs mh) = 1" "length (secs dh) = 1"
    using assms(1) by (auto simp: on_disk_def) (auto simp: hdr_ok_def divRoundUp_def nachos_defs)
  then have "length (layout mh dh D ?L) = fs_used (fs_view D ?L)"
    using length_file_blocks [OF o(3) assms(2) o(4)] by (simp add: layout_def fs_used_def)
  then show ?thesis using distinct_card [OF o(1)] o(2) by simp
qed

text \<open>The disk after a file was added, and after one was removed.\<close>

lemma system_sectors:
  assumes "on_disk mh dh D b d"
  shows "0 \<in> bits b" "1 \<in> bits b" "set (secs mh) \<subseteq> bits b" "set (secs dh) \<subseteq> bits b" "set (file_blocks D (dirlist (dir_table d))) \<subseteq> bits b"
    "{0, 1} \<inter> (set (secs mh) \<union> set (secs dh)) = {}" "set (secs mh) \<inter> set (secs dh) = {}"
    "set (file_blocks D (dirlist (dir_table d))) \<inter> ({0, 1} \<union> set (secs mh) \<union> set (secs dh)) = {}"
  using assms by (auto simp: on_disk_def layout_def)

lemma on_disk_frame:
  assumes o: "on_disk mh dh D b d" and D': "\<forall>u. u \<in> bits b \<longrightarrow> u \<notin> set (secs mh) \<union> set (secs dh) \<longrightarrow> D' ! u = D ! u"
  shows "hdr_at D' FreeMapSector = mh" "hdr_at D' DirectorySector = dh"
    and "set L \<subseteq> set (dirlist (dir_table d)) \<Longrightarrow> file_blocks D' L = file_blocks D L"
    and "set L \<subseteq> set (dirlist (dir_table d)) \<Longrightarrow> files_ok D' L"
    and "set L \<subseteq> set (dirlist (dir_table d)) \<Longrightarrow> fs_view D' L = fs_view D L"
proof -
  note s = system_sectors [OF o]
  have "D' ! 0 = D ! 0" "D' ! 1 = D ! 1" using D' s(1,2,6) by blast+
  moreover have "hdr_at D FreeMapSector = mh" "hdr_at D DirectorySector = dh" using o by (simp_all add: on_disk_def)
  ultimately show "hdr_at D' FreeMapSector = mh" "hdr_at D' DirectorySector = dh" by (simp_all add: hdr_at_def nachos_defs)
  assume L: "set L \<subseteq> set (dirlist (dir_table d))"
  have same: "\<forall>u \<in> set (file_blocks D L). D' ! u = D ! u"
  proof
    fix u assume "u \<in> set (file_blocks D L)"
    then have u: "u \<in> set (file_blocks D (dirlist (dir_table d)))" using L by (auto simp: file_blocks_def)
    then have "u \<in> bits b" "u \<notin> set (secs mh) \<union> set (secs dh)" using subsetD [OF s(5) u] s(8) by blast+
    then show "D' ! u = D ! u" using D' by simp
  qed
  have "files_ok D L" using o L by (auto simp: on_disk_def files_ok_def)
  with files_frame [OF same] show "file_blocks D' L = file_blocks D L" "files_ok D' L" "fs_view D' L = fs_view D L" by simp_all
qed

lemma on_disk_add:
  assumes o: "on_disk mh dh D b d" and n: "n \<notin> bits b" "n < nat NumSectors"
    and h: "hdr_ok h" "hdr_wf h" "set (secs h) \<inter> insert n (bits b) = {}"
    and d: "dir_ok d'" "tableSize d' = NumDirEntries" "dirlist (dir_table d) = xs @ ys" "dirlist (dir_table d') = xs @ (key, int n) # ys"
    and b: "bitmap_ok b'" "numBits b' = NumSectors" "bits b' = insert n (bits b) \<union> set (secs h)"
    and D: "D' ! n = hdr_bytes h" "content mh D' = word_bytes (bm_words b')" "content dh D' = table_bytes (dir_table d')"
      "\<And>u. u \<noteq> n \<Longrightarrow> u \<notin> set (secs mh) \<union> set (secs dh) \<Longrightarrow> D' ! u = D ! u"
  shows "on_disk mh dh D' b' d'"
    and "fs_view D' (dirlist (dir_table d')) = (fs_view D (dirlist (dir_table d)))(key \<mapsto> content h D')"
proof -
  let ?L = "dirlist (dir_table d)" and ?L' = "dirlist (dir_table d')"
  have "\<forall>u. u \<in> bits b \<longrightarrow> u \<notin> set (secs mh) \<union> set (secs dh) \<longrightarrow> D' ! u = D ! u" using D(4) n(1) by metis
  note f = on_disk_frame [OF o this]
  have hn: "hdr_at D' (int n) = h" using D(1) h(2) by (simp add: hdr_at_def)
  have sub: "set xs \<subseteq> set ?L" "set ys \<subseteq> set ?L" using d(3) by auto
  have ok: "files_ok D' ?L'" using f(4) [OF sub(1)] f(4) [OF sub(2)] h(1) hn n(2) unfolding d(4) by (simp add: nachos_defs)
  have fb: "file_blocks D' ?L' = file_blocks D xs @ n # secs h @ file_blocks D ys"
    unfolding d(4) by (simp add: hn f(3) [OF sub(1)] f(3) [OF sub(2)])
  have fb0: "file_blocks D ?L = file_blocks D xs @ file_blocks D ys" unfolding d(3) by simp
  have lay: "distinct (layout mh dh D ?L)" "set (layout mh dh D ?L) = bits b" using o by (auto simp: on_disk_def)
  have "distinct (secs h)" using h(1) by (simp add: hdr_ok_def)
  then have "distinct (layout mh dh D' ?L')" using lay n(1) h(3) unfolding layout_def fb fb0 by auto
  moreover have "set (layout mh dh D' ?L') = bits b'" using lay(2) b(3) unfolding layout_def fb fb0 by auto
  ultimately show "on_disk mh dh D' b' d'" using o f(1,2) D(2,3) d(1,2) b(1,2) ok by (simp add: on_disk_def)
  have "key \<notin> fst ` set (xs @ ys)" using d(1,4) by (auto simp: dir_ok_def)
  from map_of_insert [OF this, of "int n"] have "map_of ?L' = (map_of ?L)(key \<mapsto> int n)" unfolding d(3,4) .
  then show "fs_view D' ?L' = (fs_view D ?L)(key \<mapsto> content h D')"
    using f(5) [OF subset_refl] hn by (auto simp: fs_view_def fun_eq_iff)
qed

lemma on_disk_remove:
  assumes o: "on_disk mh dh D b d"
    and d: "dir_ok d'" "tableSize d' = NumDirEntries" "dirlist (dir_table d) = xs @ (key, s) # ys" "dirlist (dir_table d') = xs @ ys"
    and b: "bitmap_ok b'" "numBits b' = NumSectors" "bits b' = bits b - set (blocks D s)"
    and D: "content mh D' = word_bytes (bm_words b')" "content dh D' = table_bytes (dir_table d')"
      "\<And>u. u \<notin> set (secs mh) \<union> set (secs dh) \<Longrightarrow> D' ! u = D ! u"
  shows "on_disk mh dh D' b' d'"
    and "fs_view D' (dirlist (dir_table d')) = (fs_view D (dirlist (dir_table d)))(key := None)"
proof -
  let ?L = "dirlist (dir_table d)" and ?L' = "dirlist (dir_table d')"
  have "\<forall>u. u \<in> bits b \<longrightarrow> u \<notin> set (secs mh) \<union> set (secs dh) \<longrightarrow> D' ! u = D ! u" using D(3) by blast
  note f = on_disk_frame [OF o this]
  have sub: "set ?L' \<subseteq> set ?L" using d(3,4) by auto
  have fb: "file_blocks D' ?L' = file_blocks D xs @ file_blocks D ys" using f(3) [OF sub] unfolding d(4) by simp
  have fb0: "file_blocks D ?L = file_blocks D xs @ blocks D s @ file_blocks D ys" unfolding d(3) by (simp add: blocks_def)
  have lay: "distinct (layout mh dh D ?L)" "set (layout mh dh D ?L) = bits b" using o by (auto simp: on_disk_def)
  have "distinct (layout mh dh D' ?L')" using lay unfolding layout_def fb fb0 by auto
  moreover have "set (layout mh dh D' ?L') = bits b'" using lay(1) unfolding b(3) lay(2) [symmetric] layout_def fb fb0 by auto
  ultimately show "on_disk mh dh D' b' d'" using o f(1,2) f(4) [OF sub] D(1,2) d(1,2) b(1,2) by (simp add: on_disk_def)
  have "distinct (map fst ?L)" using o by (simp add: on_disk_def dir_ok_def)
  then have "map_of ?L' = (map_of ?L)(key := None)" unfolding d(3,4) by (rule map_of_delete)
  then have "fs_view D ?L' = (fs_view D ?L)(key := None)" by (simp add: fs_view_def fun_eq_iff)
  then show "fs_view D' ?L' = (fs_view D ?L)(key := None)" using f(5) [OF sub] by simp
qed

lemma on_disk_write:
  assumes o: "on_disk mh dh D b d" and s: "map_of (dirlist (dir_table d)) n = Some s"
    and D': "\<forall>u. u \<notin> set (secs (hdr_at D s)) \<longrightarrow> D' ! u = D ! u"
  shows "on_disk mh dh D' b d" "hdr_at D' s = hdr_at D s"
    and "fs_view D' (dirlist (dir_table d)) = (fs_view D (dirlist (dir_table d)))(n \<mapsto> content (hdr_at D s) D')"
proof -
  let ?L = "dirlist (dir_table d)" and ?S = "set (secs (hdr_at D s))"
  obtain xs ys where L: "?L = xs @ (n, s) # ys" using s by (meson map_of_SomeD split_list)
  have lay: "distinct (layout mh dh D ?L)" using o by (simp add: on_disk_def)
  then have dis: "nat s \<notin> ?S" "0 \<notin> ?S" "1 \<notin> ?S" "set (secs mh) \<inter> ?S = {}" "set (secs dh) \<inter> ?S = {}" "set (file_blocks D xs) \<inter> ?S = {}"
    "set (file_blocks D ys) \<inter> ?S = {}" unfolding layout_def L by auto
  show h: "hdr_at D' s = hdr_at D s" using D' dis(1) by (simp add: hdr_at_def)
  have "\<forall>u \<in> set (file_blocks D xs). D' ! u = D ! u" "\<forall>u \<in> set (file_blocks D ys). D' ! u = D ! u" using D' dis(6,7) by blast+
  note f = files_frame [OF this(1)] files_frame [OF this(2)]
  have fb: "file_blocks D' ?L = file_blocks D ?L" and fo: "files_ok D' ?L = files_ok D ?L" unfolding L using f h by simp_all
  have c: "content mh D' = content mh D" "content dh D' = content dh D" using D' dis(4,5) by (auto intro!: content_cong)
  have "hdr_at D' FreeMapSector = hdr_at D FreeMapSector" "hdr_at D' DirectorySector = hdr_at D DirectorySector"
    using D' dis(2,3) by (simp_all add: hdr_at_def nachos_defs)
  then show "on_disk mh dh D' b d" using o c fb fo by (simp add: on_disk_def layout_def)
  have "distinct (map fst ?L)" using o by (simp add: on_disk_def dir_ok_def)
  then have n: "n \<notin> fst ` set (xs @ ys)" unfolding L by auto
  have v: "fs_view E ?L = (fs_view E (xs @ ys))(n \<mapsto> content (hdr_at E s) E)" for E
    unfolding L fs_view_def map_of_insert [OF n] by (simp add: fun_eq_iff)
  have "\<forall>u \<in> set (file_blocks D (xs @ ys)). D' ! u = D ! u" using D' dis(6,7) by auto
  then have "fs_view D' (xs @ ys) = fs_view D (xs @ ys)" by (rule files_frame(3))
  then show "fs_view D' ?L = (fs_view D ?L)(n \<mapsto> content (hdr_at D s) D')" unfolding v by (simp add: h)
qed

text \<open>When a file can be created: the name is new, the directory has room and the disk has room.\<close>

definition can_create :: "files \<Rightarrow> byte list \<Rightarrow> nat \<Rightarrow> bool" where
  "can_create fs n sz \<longleftrightarrow> n \<notin> dom fs \<and> card (dom fs) < nat NumDirEntries \<and> fs_used fs + 1 + file_sectors sz \<le> nat NumSectors"

lemma on_disk_dir:
  assumes "on_disk mh dh D b d"
  shows "length (dir_table d) = nat NumDirEntries" "card (dom (fs_view D (dirlist (dir_table d)))) = length (dirlist (dir_table d))"
    "n \<in> dom (fs_view D (dirlist (dir_table d))) \<longleftrightarrow> map_of (dirlist (dir_table d)) n \<noteq> None"
proof -
  have d: "dir_ok d" "tableSize d = NumDirEntries" using assms by (auto simp: on_disk_def)
  then show "length (dir_table d) = nat NumDirEntries" by (metis dir_ok_def nat_int)
  show "card (dom (fs_view D (dirlist (dir_table d)))) = length (dirlist (dir_table d))"
    using d(1) distinct_card [of "map fst (dirlist (dir_table d))"] by (simp add: dom_fs_view dir_ok_def)
  show "n \<in> dom (fs_view D (dirlist (dir_table d))) \<longleftrightarrow> map_of (dirlist (dir_table d)) n \<noteq> None"
    by (simp add: fs_view_def dom_def)
qed

lemma find_slot:
  assumes "bitmap_ok b" "numBits b = NumSectors" "card (bits b) < nat NumSectors"
  shows "\<exists>n b'. BitMap_FindFreeSlot b = Inr (int n, b') \<and> n < nat NumSectors \<and> n \<notin> bits b \<and> bitmap_ok b' \<and> numBits b' = NumSectors \<and>
    bits b' = insert n (bits b)"
proof -
  from bm.find_least [OF assms(1)] assms(2,3) obtain n b' where n: "BitMap_FindFreeSlot b = Inr (int n, b')" "n < bm_size b" "n \<notin> bits b"
    "bitmap_ok b'" "bm_size b' = bm_size b" "bits b' = insert n (bits b)" by auto
  moreover have "numBits b' = NumSectors" using n(4,5) assms(1,2) unfolding bitmap_ok_def by (metis eq_nat_nat_iff)
  ultimately show ?thesis using assms(2) by auto
qed

section \<open>The bitmap and the directory in their files\<close>

context file_disk
begin

lemma fetch_map_ok:
  assumes "dok k" "sysfiles k mh dh" "hdr_ok mh" "content mh (disk k) = word_bytes (bm_words b)" "bitmap_ok b" "numBits b = NumSectors"
  shows "\<exists>k'. fetch_map raw P k = Inr (b, k') \<and> dok k' \<and> kept k k'"
proof -
  obtain p f where p: "freeMapFile k = Some p" "disk_files k p = Some f" "df_hdr f = mh" using assms(2) by (auto simp: sysfiles_def)
  obtain b0 where b0: "new_map raw = Inr b0" "bitmap_ok b0" "numBits b0 = NumSectors" using new_map_ok by blast
  note w = bitmap_words [OF assms(5,6)] bitmap_words [OF b0(2,3)]
  obtain k' where "DiskFile_ReadAt P p (numWords b0 * 4) (int 0) k = Inr (128, word_bytes (bm_words b), k')" "dok k'" "kept k k'"
    using DiskFile_ReadAt_content [OF p(2) _ assms(1), of "numWords b0 * 4" 0] assms(3,4) p(3) w by auto
  then show ?thesis using b0(1,3) p(1) w assms(6) by (simp add: fetch_map_def BitMap_FetchFrom_def overlay_def same_bitmap)
qed

lemma flush_map_ok:
  assumes "dok k" "sysfiles k mh dh" "hdr_ok mh" "fh_numBytes mh = FreeMapFileSize" "bitmap_ok b" "numBits b = NumSectors"
  shows "\<exists>k'. flush_map raw P b k = Inr k' \<and> dok k' \<and> sys.more k' = sys.more k \<and> content mh (disk k') = word_bytes (bm_words b) \<and>
    (\<forall>u. u \<notin> set (secs mh) \<longrightarrow> disk k' ! u = disk k ! u)"
proof -
  obtain p f where p: "freeMapFile k = Some p" "disk_files k p = Some f" "df_hdr f = mh" using assms(2) by (auto simp: sysfiles_def)
  note w = bitmap_words [OF assms(5,6)]
  have l: "length (content mh (disk k)) = 128" using assms(3,4) wf [OF assms(1)] by (simp add: nachos_defs)
  show ?thesis
    using DiskFile_WriteAt_content [OF p(2) _ assms(1), of "numWords b * 4" "word_bytes (bm_words b)" raw 0] assms(3,4) p w l
    by (auto simp: flush_map_def BitMap_WriteBack_def overwrite_all nachos_defs)
qed

lemma fetch_dir_ok:
  assumes "dok k" "sysfiles k mh dh" "hdr_ok dh" "content dh (disk k) = table_bytes (dir_table d)" "dir_ok d" "tableSize d = NumDirEntries"
  shows "\<exists>k'. fetch_dir raw P k = Inr (d, k') \<and> dok k' \<and> kept k k'"
proof -
  obtain p f where p: "directoryFile k = Some p" "disk_files k p = Some f" "df_hdr f = dh" using assms(2) by (auto simp: sysfiles_def)
  let ?d = "Directory_new raw NumDirEntries"
  have e: "\<forall>e \<in> set (dir_table d). entry_wf e" "\<forall>e \<in> set (dir_table ?d). entry_wf e" "length (dir_table d) = 10"
    using assms(5,6) Directory_new_wf(1) [of raw NumDirEntries] by (auto simp: dir_ok_def nachos_defs)
  then have l: "length (table_bytes (dir_table d)) = 200" "length (table_bytes (dir_table ?d)) = 200"
    using Directory_new_wf(2) [of raw NumDirEntries] by (simp_all add: length_table_bytes nachos_defs)
  have t: "tableSize ?d = NumDirEntries" "tableSize ?d * int entry_size = 200" by (simp_all add: Directory_new_def nachos_defs)
  obtain k' where "DiskFile_ReadAt P p 200 (int 0) k = Inr (200, table_bytes (dir_table d), k')" "dok k'" "kept k k'"
    using DiskFile_ReadAt_content [OF p(2) _ assms(1), of 200 0] assms(3,4) p(3) l by auto
  then show ?thesis using p(1) e(1) l t assms(6) by (simp add: fetch_dir_def Directory_FetchFrom_def overlay_def)
qed

lemma flush_dir_ok:
  assumes "dok k" "sysfiles k mh dh" "hdr_ok dh" "fh_numBytes dh = DirectoryFileSize" "dir_ok d" "tableSize d = NumDirEntries"
  shows "\<exists>k'. flush_dir raw P d k = Inr k' \<and> dok k' \<and> sys.more k' = sys.more k \<and> content dh (disk k') = table_bytes (dir_table d) \<and>
    (\<forall>u. u \<notin> set (secs dh) \<longrightarrow> disk k' ! u = disk k ! u)"
proof -
  obtain p f where p: "directoryFile k = Some p" "disk_files k p = Some f" "df_hdr f = dh" using assms(2) by (auto simp: sysfiles_def)
  have "\<forall>e \<in> set (dir_table d). entry_wf e" "length (dir_table d) = 10" using assms(5,6) by (auto simp: dir_ok_def nachos_defs)
  then have l: "length (table_bytes (dir_table d)) = 200" by (simp add: length_table_bytes nachos_defs)
  have lc: "length (content dh (disk k)) = 200" using assms(3,4) wf [OF assms(1)] by (simp add: nachos_defs)
  have t: "tableSize d * int entry_size = 200" using assms(6) by (simp add: nachos_defs)
  show ?thesis
    using DiskFile_WriteAt_content [OF p(2) _ assms(1), of 200 "table_bytes (dir_table d)" raw 0] assms(3,4) p l lc t
    by (auto simp: flush_dir_def Directory_WriteBack_def overwrite_all nachos_defs)
qed

text \<open>\<^verbatim>\<open>Create\<close>, up to the point where it begins to write.\<close>

lemma Create_fetched:
  assumes k: "dok k" and sf: "sysfiles k mh dh" and o: "on_disk mh dh (disk k) b d"
  obtains k1 k2 where "fetch_dir raw P k = Inr (d, k1)" "dok k1" "kept k k1" "fetch_map raw P k1 = Inr (b, k2)" "dok k2" "kept k k2" "sysfiles k2 mh dh"
proof -
  have o': "hdr_ok mh" "content mh (disk k) = word_bytes (bm_words b)" "bitmap_ok b" "numBits b = NumSectors"
    "hdr_ok dh" "content dh (disk k) = table_bytes (dir_table d)" "dir_ok d" "tableSize d = NumDirEntries"
    using o by (auto simp: on_disk_def)
  obtain k1 where k1: "fetch_dir raw P k = Inr (d, k1)" "dok k1" "kept k k1" using fetch_dir_ok [OF k sf o'(5-8)] by blast
  have s1: "sysfiles k1 mh dh" by (rule sysfiles_kept [OF sf k1(3)])
  have m1: "content mh (disk k1) = word_bytes (bm_words b)" using k1(3) o'(2) by (simp add: kept_def)
  obtain k2 where k2: "fetch_map raw P k1 = Inr (b, k2)" "dok k2" "kept k1 k2"
    using fetch_map_ok [OF k1(2) s1 o'(1) m1 o'(3,4)] by blast
  note k = kept_trans [OF k1(3) k2(3)]
  show thesis by (rule that [OF k1 k2(1,2) k sysfiles_kept [OF sf k]])
qed

lemma Create_refused:
  assumes k: "dok k" and sf: "sysfiles k mh dh" and o: "on_disk mh dh (disk k) b d" and max: "sz \<le> MaxFileSize"
    and no: "\<not> can_create (fs_view (disk k) (dirlist (dir_table d))) (short name) sz"
  shows "\<exists>k'. DiskFS_Create raw P name (int sz) k = Inr (False, k') \<and> dok k' \<and> kept k k'"
proof -
  let ?L = "dirlist (dir_table d)"
  have b: "bitmap_ok b" "numBits b = NumSectors" and d: "dir_ok d" and fo: "files_ok (disk k) ?L" using o by (auto simp: on_disk_def)
  note used = used_sectors [OF o wf [OF k]] and dir = on_disk_dir [OF o]
  obtain k1 k2 where f: "fetch_dir raw P k = Inr (d, k1)" "dok k1" "kept k k1" "fetch_map raw P k1 = Inr (b, k2)" "dok k2" "kept k k2"
    by (rule Create_fetched [OF k sf o])
  show ?thesis
  proof (cases "map_of ?L (short name)")
    case (Some s)
    then have "s \<noteq> - 1" using fo by (auto simp: files_ok_def dest!: map_of_SomeD)
    then show ?thesis using f Find_ok [OF d, of name] Some by (simp add: DiskFS_Create_def)
  next
    case new: None
    show ?thesis
    proof (cases "card (bits b) < nat NumSectors")
      case False
      then have "bits b = {..<bm_size b}" using bm.full_iff_card [OF b(1)] bm.card_used_le [OF b(1)] b(2) by simp
      then show ?thesis using f Find_ok [OF d, of name] new bm.find_full [OF b(1)] by (simp add: DiskFS_Create_def)
    next
      case True
      then obtain n b1 where n: "BitMap_FindFreeSlot b = Inr (int n, b1)" "n < nat NumSectors" "n \<notin> bits b" "bitmap_ok b1"
        "numBits b1 = NumSectors" "bits b1 = insert n (bits b)"
        using find_slot [OF b] by blast
      show ?thesis
      proof (cases "length ?L < length (dir_table d)")
        case False
        then have "length ?L = length (dir_table d)" by (metis dirlist_def length_filter_le length_map nat_less_le)
        then show ?thesis using f Find_ok [OF d, of name] new n(1) Add_full [OF d] by (simp add: DiskFS_Create_def)
      next
        case room: True
        have "int32 (int n)" using n(2) by (simp add: int32_def nachos_defs)
        from Add_ok [OF d room this new] obtain t where a: "Directory_Add name (int n) d = Inr (True, d\<lparr>dir_table := t\<rparr>)" by blast
        have "nat NumSectors < card (bits b1) + nat (divRoundUp (int sz) (int SectorSize))"
          using no new room dir used n(3,6) by (auto simp: can_create_def file_sectors_def)
        from Allocate_ok(1) [OF n(4,5) hdr_wf_new [of raw] _ _ this] max
        show ?thesis using f Find_ok [OF d, of name] new n(1) a by (auto simp: DiskFS_Create_def)
      qed
    qed
  qed
qed

text \<open>The three writes of \<^verbatim>\<open>Create\<close>, and the two of \<^verbatim>\<open>Remove\<close>.\<close>

lemma flush_both:
  assumes k: "dok k" and sf: "sysfiles k mh dh" and h: "hdr_ok mh" "fh_numBytes mh = FreeMapFileSize" "hdr_ok dh" "fh_numBytes dh = DirectoryFileSize"
    and dis: "set (secs mh) \<inter> set (secs dh) = {}"
    and b: "bitmap_ok b" "numBits b = NumSectors" and d: "dir_ok d" "tableSize d = NumDirEntries"
  shows "\<exists>k1 k2. flush_dir raw P d k = Inr k1 \<and> flush_map raw P b k1 = Inr k2 \<and> dok k2 \<and> sys.more k2 = sys.more k \<and>
      content mh (disk k2) = word_bytes (bm_words b) \<and> content dh (disk k2) = table_bytes (dir_table d) \<and>
      (\<forall>u. u \<notin> set (secs mh) \<union> set (secs dh) \<longrightarrow> disk k2 ! u = disk k ! u)"
    and "\<exists>k1 k2. flush_map raw P b k = Inr k1 \<and> flush_dir raw P d k1 = Inr k2 \<and> dok k2 \<and> sys.more k2 = sys.more k \<and>
      content mh (disk k2) = word_bytes (bm_words b) \<and> content dh (disk k2) = table_bytes (dir_table d) \<and>
      (\<forall>u. u \<notin> set (secs mh) \<union> set (secs dh) \<longrightarrow> disk k2 ! u = disk k ! u)"
proof -
  obtain k1 where k1: "flush_dir raw P d k = Inr k1" "dok k1" "sys.more k1 = sys.more k" "content dh (disk k1) = table_bytes (dir_table d)"
    "\<forall>u. u \<notin> set (secs dh) \<longrightarrow> disk k1 ! u = disk k ! u" using flush_dir_ok [OF k sf h(3,4) d] by blast
  obtain k2 where k2: "flush_map raw P b k1 = Inr k2" "dok k2" "sys.more k2 = sys.more k1" "content mh (disk k2) = word_bytes (bm_words b)"
    "\<forall>u. u \<notin> set (secs mh) \<longrightarrow> disk k2 ! u = disk k1 ! u"
    using flush_map_ok [OF k1(2) sysfiles_more [OF sf k1(3)] h(1,2) b] by blast
  have "content dh (disk k2) = content dh (disk k1)" using k2(5) dis by (intro content_cong) blast
  then show "\<exists>k1 k2. flush_dir raw P d k = Inr k1 \<and> flush_map raw P b k1 = Inr k2 \<and> dok k2 \<and> sys.more k2 = sys.more k \<and>
      content mh (disk k2) = word_bytes (bm_words b) \<and> content dh (disk k2) = table_bytes (dir_table d) \<and>
      (\<forall>u. u \<notin> set (secs mh) \<union> set (secs dh) \<longrightarrow> disk k2 ! u = disk k ! u)"
    using k1 k2 by (intro exI [of _ k1] exI [of _ k2]) simp
next
  obtain k1 where k1: "flush_map raw P b k = Inr k1" "dok k1" "sys.more k1 = sys.more k" "content mh (disk k1) = word_bytes (bm_words b)"
    "\<forall>u. u \<notin> set (secs mh) \<longrightarrow> disk k1 ! u = disk k ! u" using flush_map_ok [OF k sf h(1,2) b] by blast
  obtain k2 where k2: "flush_dir raw P d k1 = Inr k2" "dok k2" "sys.more k2 = sys.more k1" "content dh (disk k2) = table_bytes (dir_table d)"
    "\<forall>u. u \<notin> set (secs dh) \<longrightarrow> disk k2 ! u = disk k1 ! u"
    using flush_dir_ok [OF k1(2) sysfiles_more [OF sf k1(3)] h(3,4) d] by blast
  have "content mh (disk k2) = content mh (disk k1)" using k2(5) dis by (intro content_cong) blast
  then show "\<exists>k1 k2. flush_map raw P b k = Inr k1 \<and> flush_dir raw P d k1 = Inr k2 \<and> dok k2 \<and> sys.more k2 = sys.more k \<and>
      content mh (disk k2) = word_bytes (bm_words b) \<and> content dh (disk k2) = table_bytes (dir_table d) \<and>
      (\<forall>u. u \<notin> set (secs mh) \<union> set (secs dh) \<longrightarrow> disk k2 ! u = disk k ! u)"
    using k1 k2 by (intro exI [of _ k1] exI [of _ k2]) simp
qed

lemma Create_done:
  assumes k: "dok k" and sf: "sysfiles k mh dh" and o: "on_disk mh dh (disk k) b d" and max: "sz \<le> MaxFileSize"
    and yes: "can_create (fs_view (disk k) (dirlist (dir_table d))) (short name) sz"
  shows "\<exists>k' b' d' c. DiskFS_Create raw P name (int sz) k = Inr (True, k') \<and> dok k' \<and> sys.more k' = sys.more k \<and>
    on_disk mh dh (disk k') b' d' \<and> length c = sz \<and>
    fs_view (disk k') (dirlist (dir_table d')) = (fs_view (disk k) (dirlist (dir_table d)))(short name \<mapsto> c)"
proof -
  let ?L = "dirlist (dir_table d)"
  have b: "bitmap_ok b" "numBits b = NumSectors" and d: "dir_ok d" "tableSize d = NumDirEntries"
    and h: "hdr_ok mh" "fh_numBytes mh = FreeMapFileSize" "hdr_ok dh" "fh_numBytes dh = DirectoryFileSize" using o by (auto simp: on_disk_def)
  note used = used_sectors [OF o wf [OF k]] and dir = on_disk_dir [OF o] and sys = system_sectors [OF o]
  have new: "map_of ?L (short name) = None" and room: "length ?L < length (dir_table d)"
    and space: "card (bits b) + 1 + file_sectors sz \<le> nat NumSectors" using yes used dir by (auto simp: can_create_def)
  obtain k1 k2 where f: "fetch_dir raw P k = Inr (d, k1)" "dok k1" "kept k k1" "fetch_map raw P k1 = Inr (b, k2)" "dok k2" "kept k k2"
    "sysfiles k2 mh dh" by (rule Create_fetched [OF k sf o])
  have D2: "disk k2 = disk k" "sys.more k2 = sys.more k" using f(6) by (simp_all add: kept_def)
  obtain n b1 where n: "BitMap_FindFreeSlot b = Inr (int n, b1)" "n < nat NumSectors" "n \<notin> bits b" "bitmap_ok b1"
    "numBits b1 = NumSectors" "bits b1 = insert n (bits b)" using find_slot [OF b] space by auto
  have "int32 (int n)" using n(2) by (simp add: int32_def nachos_defs)
  from Add_ok [OF d(1) room this new] obtain t xs ys where a: "Directory_Add name (int n) d = Inr (True, d\<lparr>dir_table := t\<rparr>)"
    "dir_ok (d\<lparr>dir_table := t\<rparr>)" "?L = xs @ ys" "dirlist t = xs @ (short name, int n) # ys" by blast
  have "card (bits b1) + nat (divRoundUp (int sz) (int SectorSize)) \<le> nat NumSectors"
    using space n(3,6) by (simp add: file_sectors_def)
  from Allocate_ok(2) [OF n(4,5) hdr_wf_new [of raw] _ _ this] max obtain h' b' where
    al: "FileHeader_Allocate (int sz) (FileHeader_new raw) b1 = Inr (True, h', b')" "hdr_ok h'" "hdr_wf h'" "fh_numBytes h' = int sz"
      "bitmap_ok b'" "numBits b' = NumSectors" "set (secs h') \<inter> bits b1 = {}" "bits b' = bits b1 \<union> set (secs h')" by auto
  obtain k3 where k3: "FileHeader_WriteBack P (int n) h' k2 = Inr k3" "dok k3" "sys.more k3 = sys.more k2" "disk k3 = (disk k)[n := hdr_bytes h']"
    using write_sector [OF f(5) n(2), of "hdr_bytes h'"] length_hdr_bytes [OF al(3)] D2 by (auto simp: FileHeader_WriteBack_def)
  obtain k4 k5 where k5: "flush_dir raw P (d\<lparr>dir_table := t\<rparr>) k3 = Inr k4" "flush_map raw P b' k4 = Inr k5" "dok k5" "sys.more k5 = sys.more k3"
    "content mh (disk k5) = word_bytes (bm_words b')" "content dh (disk k5) = table_bytes t"
    "\<forall>u. u \<notin> set (secs mh) \<union> set (secs dh) \<longrightarrow> disk k5 ! u = disk k3 ! u"
    using flush_both(1) [OF k3(2) sysfiles_more [OF f(7) k3(3)] h sys(7) al(5,6) a(2), of raw] d(2) by auto
  have "n \<notin> set (secs mh) \<union> set (secs dh)" using n(3) sys(3,4) by blast
  then have n5: "disk k5 ! n = hdr_bytes h'" using k5(7) k3(4) n(2) by simp
  have other: "disk k5 ! u = disk k ! u" if "u \<noteq> n" "u \<notin> set (secs mh) \<union> set (secs dh)" for u using k5(7) k3(4) that by simp
  have "DiskFS_Create raw P name (int sz) k = Inr (True, k5)"
    using f(1,4) Find_ok [OF d(1), of name] new n(1) a(1) al(1) k3(1) k5(1,2) by (simp add: DiskFS_Create_def)
  moreover have "on_disk mh dh (disk k5) b' (d\<lparr>dir_table := t\<rparr>)"
    "fs_view (disk k5) (dirlist t) = (fs_view (disk k) ?L)(short name \<mapsto> content h' (disk k5))"
    using on_disk_add [OF o n(3,2) al(2,3) _ a(2) _ a(3) _ al(5,6) _ n5 k5(5) _ other] al(7,8) n(6) a(4) d(2) k5(6) by auto
  moreover have "length (content h' (disk k5)) = sz" using al(2,4) wf [OF k5(3)] by simp
  moreover have "sys.more k5 = sys.more k" using k5(4) k3(3) D2(2) by simp
  ultimately show ?thesis using k5(3)
    by (intro exI [of _ k5] exI [of _ b'] exI [of _ "d\<lparr>dir_table := t\<rparr>"] exI [of _ "content h' (disk k5)"]) simp
qed

lemma Remove_done:
  assumes k: "dok k" and sf: "sysfiles k mh dh" and o: "on_disk mh dh (disk k) b d"
    and old: "short name \<in> dom (fs_view (disk k) (dirlist (dir_table d)))"
  shows "\<exists>k' b' d'. DiskFS_Remove raw P name k = Inr (True, k') \<and> dok k' \<and> sys.more k' = sys.more k \<and> on_disk mh dh (disk k') b' d' \<and>
    fs_view (disk k') (dirlist (dir_table d')) = (fs_view (disk k) (dirlist (dir_table d)))(short name := None)"
proof -
  let ?L = "dirlist (dir_table d)"
  have b: "bitmap_ok b" "numBits b = NumSectors" and d: "dir_ok d" "tableSize d = NumDirEntries"
    and h: "hdr_ok mh" "fh_numBytes mh = FreeMapFileSize" "hdr_ok dh" "fh_numBytes dh = DirectoryFileSize"
    and m: "content mh (disk k) = word_bytes (bm_words b)" "content dh (disk k) = table_bytes (dir_table d)"
    and fo: "files_ok (disk k) ?L" using o by (auto simp: on_disk_def)
  note sys = system_sectors [OF o]
  obtain s where s: "map_of ?L (short name) = Some s" using old on_disk_dir(3) [OF o] by blast
  from Remove_ok [OF d(1) s] obtain t xs ys where r: "Directory_Remove name d = Inr (True, d\<lparr>dir_table := t\<rparr>)"
    "dir_ok (d\<lparr>dir_table := t\<rparr>)" "?L = xs @ (short name, s) # ys" "dirlist t = xs @ ys" by blast
  obtain n where n: "s = int n" "n < nat NumSectors" "hdr_ok (hdr_at (disk k) s)" by (rule files_ok_sector [OF fo s])
  let ?h = "hdr_at (disk k) s"
  have blk: "set (blocks (disk k) s) \<subseteq> bits b" using sys(5) unfolding r(3) by (auto simp: blocks_def)
  obtain k1 where k1: "fetch_dir raw P k = Inr (d, k1)" "dok k1" "kept k k1" using fetch_dir_ok [OF k sf h(3) m(2) d] by blast
  obtain k2 where k2: "FileHeader_FetchFrom P s k1 = Inr (?h, k2)" "dok k2" "kept k1 k2"
    using read_sector [OF k1(2) n(2)] k1(3) n(1) by (auto simp: FileHeader_FetchFrom_def hdr_at_def kept_def)
  note k02 = kept_trans [OF k1(3) k2(3)]
  have "content mh (disk k2) = word_bytes (bm_words b)" using k02 m(1) by (simp add: kept_def)
  from fetch_map_ok [OF k2(2) sysfiles_kept [OF sf k02] h(1) this b] obtain k3 where
    k3: "fetch_map raw P k2 = Inr (b, k3)" "dok k3" "kept k2 k3" by blast
  note k03 = kept_trans [OF k02 k3(3)]
  obtain b1 where b1: "FileHeader_Deallocate ?h b = Inr b1" "bitmap_ok b1" "numBits b1 = NumSectors" "bits b1 = bits b - set (secs ?h)"
    using Deallocate_ok [OF b n(3)] blk by (auto simp: blocks_def)
  obtain b2 where b2: "BitMap_Clear s b1 = Inr b2" "bitmap_ok b2" "numBits b2 = NumSectors" "bits b2 = bits b1 - {n}"
    using BitMap_Clear_correct [OF b1(2), of n] b1(3) n(1,2) by auto
  have bits2: "bits b2 = bits b - set (blocks (disk k) s)" unfolding b2(4) b1(4) blocks_def by (auto simp: n(1))
  obtain k4 k5 where k5: "flush_map raw P b2 k3 = Inr k4" "flush_dir raw P (d\<lparr>dir_table := t\<rparr>) k4 = Inr k5" "dok k5" "sys.more k5 = sys.more k3"
    "content mh (disk k5) = word_bytes (bm_words b2)" "content dh (disk k5) = table_bytes t"
    "\<forall>u. u \<notin> set (secs mh) \<union> set (secs dh) \<longrightarrow> disk k5 ! u = disk k3 ! u"
    using flush_both(2) [OF k3(2) sysfiles_kept [OF sf k03] h sys(7) b2(2,3) r(2), of raw] d(2) by auto
  have other: "disk k5 ! u = disk k ! u" if "u \<notin> set (secs mh) \<union> set (secs dh)" for u using k5(7) k03 that by (simp add: kept_def)
  have "s \<noteq> - 1" using n(1) by simp
  then have "DiskFS_Remove raw P name k = Inr (True, k5)"
    using k1(1) Find_ok [OF d(1), of name] s k2(1) k3(1) b1(1) b2(1) r(1) k5(1,2) by (simp add: DiskFS_Remove_def)
  moreover have "on_disk mh dh (disk k5) b2 (d\<lparr>dir_table := t\<rparr>)"
    "fs_view (disk k5) (dirlist t) = (fs_view (disk k) ?L)(short name := None)"
    using on_disk_remove [OF o r(2) _ r(3) _ b2(2,3) bits2 k5(5) _ other] r(4) d(2) k5(6) by auto
  moreover have "sys.more k5 = sys.more k" using k5(4) k03 by (simp add: kept_def)
  ultimately show ?thesis using k5(3) by (intro exI [of _ k5] exI [of _ b2] exI [of _ "d\<lparr>dir_table := t\<rparr>"]) simp
qed

lemma Remove_refused:
  assumes k: "dok k" and sf: "sysfiles k mh dh" and o: "on_disk mh dh (disk k) b d"
    and no: "short name \<notin> dom (fs_view (disk k) (dirlist (dir_table d)))"
  shows "\<exists>k'. DiskFS_Remove raw P name k = Inr (False, k') \<and> dok k' \<and> kept k k'"
proof -
  have d: "dir_ok d" "tableSize d = NumDirEntries" "hdr_ok dh" "content dh (disk k) = table_bytes (dir_table d)" using o by (auto simp: on_disk_def)
  obtain k1 where "fetch_dir raw P k = Inr (d, k1)" "dok k1" "kept k k1" using fetch_dir_ok [OF k sf d(3,4,1,2)] by blast
  then show ?thesis using Find_ok [OF d(1), of name] no on_disk_dir(3) [OF o, of "short name"] by (simp add: DiskFS_Remove_def)
qed

text \<open>Opening, reading, writing and closing.\<close>

lemma DiskFile_new_ok:
  assumes k: "dok k" and n: "n < nat NumSectors"
  shows "\<exists>k'. DiskFile_new_type P (int n) ty k = Inr (disk_file_brk k, k') \<and> dok k' \<and> disk k' = disk k \<and>
    sys.more k' = sys.more (k\<lparr>disk_files := (disk_files k)(disk_file_brk k \<mapsto> \<lparr>df_hdr = hdr_at (disk k) (int n), df_seekPosition = 0, df_type = ty\<rparr>),
      disk_file_brk := Suc (disk_file_brk k)\<rparr>)"
proof -
  obtain k1 where k1: "FileHeader_FetchFrom P (int n) k = Inr (hdr_at (disk k) (int n), k1)" "dok k1" "kept k k1"
    using read_sector [OF k n] by (auto simp: FileHeader_FetchFrom_def hdr_at_def)
  have m: "sys.more k1 = sys.more k" "disk k1 = disk k" using k1(3) by (simp_all add: kept_def)
  let ?k = "k1\<lparr>disk_files := (disk_files k1)(disk_file_brk k1 \<mapsto> \<lparr>df_hdr = hdr_at (disk k) (int n), df_seekPosition = 0, df_type = ty\<rparr>),
      disk_file_brk := Suc (disk_file_brk k1)\<rparr>"
  have "DiskFile_new_type P (int n) ty k = Inr (disk_file_brk k, ?k)" using k1(1) dfs_more(2) [OF m(1)] by (simp add: DiskFile_new_type_def)
  moreover have "sys.more ?k = sys.more (k\<lparr>disk_files := (disk_files k)(disk_file_brk k \<mapsto> \<lparr>df_hdr = hdr_at (disk k) (int n), df_seekPosition = 0, df_type = ty\<rparr>),
      disk_file_brk := Suc (disk_file_brk k)\<rparr>)" using m(1) by (cases k, cases k1, simp)
  ultimately show ?thesis using k1(2) m(2) by (intro exI [of _ ?k]) simp
qed

lemma Open_ok:
  assumes k: "dok k" and fs: "fs_state k fs" and slot: "DiskFS_getIdxFreeSlot k = Inr i" "i \<noteq> - 1" and n: "short name \<in> dom fs"
  shows "\<exists>k' p. DiskFS_Open raw P name k = Inr (Some p, k') \<and> dok k' \<and> fs_open k' fs p (short name) 0 \<and> disk_file_table k' = disk_file_table k"
proof -
  obtain mh dh b d where r: "sysfiles k mh dh" "on_disk mh dh (disk k) b d" "fs = fs_view (disk k) (dirlist (dir_table d))"
    using fs by (auto simp: fs_state_def)
  have d: "dir_ok d" "tableSize d = NumDirEntries" "hdr_ok dh" "content dh (disk k) = table_bytes (dir_table d)"
    "files_ok (disk k) (dirlist (dir_table d))" using r(2) by (auto simp: on_disk_def)
  obtain s where s: "map_of (dirlist (dir_table d)) (short name) = Some s" using n on_disk_dir(3) [OF r(2)] r(3) by blast
  obtain m where m: "s = int m" "m < nat NumSectors" by (rule files_ok_sector [OF d(5) s])
  obtain k1 where k1: "fetch_dir raw P k = Inr (d, k1)" "dok k1" "kept k k1" using fetch_dir_ok [OF k r(1) d(3,4,1,2)] by blast
  have D1: "disk k1 = disk k" using k1(3) by (simp add: kept_def)
  have sf: "sysfiles k1 mh dh" by (rule sysfiles_kept [OF r(1) k1(3)])
  let ?f = "\<lparr>df_hdr = hdr_at (disk k) s, df_seekPosition = 0, df_type = 1\<rparr>" and ?p = "disk_file_brk k1"
  let ?K = "k1\<lparr>disk_files := (disk_files k1)(?p \<mapsto> ?f), disk_file_brk := Suc ?p\<rparr>"
  obtain k2 where k2: "DiskFile_new P s k1 = Inr (?p, k2)" "dok k2" "disk k2 = disk k1" "sys.more k2 = sys.more ?K"
    using DiskFile_new_ok [OF k1(2) m(2), of 1] D1 m(1) by (auto simp: DiskFile_new_def)
  have K: "sysfiles ?K mh dh" "freeMapFile ?K \<noteq> Some ?p" "directoryFile ?K \<noteq> Some ?p" using sysfiles_new [OF sf] by simp_all
  have "DiskFS_Open raw P name k = Inr (Some ?p, k2)"
    using slot k1(1) Find_ok [OF d(1), of name] s m(1) k2(1) by (simp add: DiskFS_Open_def)
  moreover have "fs_open k2 fs ?p (short name) 0"
    unfolding fs_open_def using dfs_more [OF k2(4)] sysfiles_more [OF K(1) k2(4)] K(2,3) r(2,3) s k2(3) D1
    by (intro conjI exI [of _ mh] exI [of _ dh] exI [of _ b] exI [of _ d] exI [of _ ?f] exI [of _ s]) simp_all
  moreover have "disk_file_table k2 = disk_file_table k" using dfs_more(3) [OF k2(4)] k1(3) dfs_more(3) [of k1 k] by (simp add: kept_def)
  ultimately show ?thesis using k2(2) by blast
qed

lemma Open_refused:
  assumes k: "dok k" and fs: "fs_state k fs" and slot: "DiskFS_getIdxFreeSlot k = Inr i" and n: "short name \<notin> dom fs"
  shows "\<exists>k'. DiskFS_Open raw P name k = Inr (None, k') \<and> dok k' \<and> kept k k'"
proof -
  obtain mh dh b d where r: "sysfiles k mh dh" "on_disk mh dh (disk k) b d" "fs = fs_view (disk k) (dirlist (dir_table d))"
    using fs by (auto simp: fs_state_def)
  have d: "dir_ok d" "tableSize d = NumDirEntries" "hdr_ok dh" "content dh (disk k) = table_bytes (dir_table d)" using r(2) by (auto simp: on_disk_def)
  obtain k1 where k1: "fetch_dir raw P k = Inr (d, k1)" "dok k1" "kept k k1" using fetch_dir_ok [OF k r(1) d(3,4,1,2)] by blast
  have "map_of (dirlist (dir_table d)) (short name) = None" using n on_disk_dir(3) [OF r(2), of "short name"] r(3) by simp
  then show ?thesis using slot k k1 Find_ok [OF d(1), of name] by (cases "i = - 1") (auto simp: DiskFS_Open_def intro!: exI [of _ k])
qed

lemma open_parts:
  assumes "fs_open k fs p n q"
  obtains mh dh b d f s c where "sysfiles k mh dh" "on_disk mh dh (disk k) b d" "fs = fs_view (disk k) (dirlist (dir_table d))"
    "disk_files k p = Some f" "map_of (dirlist (dir_table d)) n = Some s" "df_hdr f = hdr_at (disk k) s" "df_seekPosition f = int q"
    "hdr_ok (df_hdr f)" "fs n = Some c" "c = content (df_hdr f) (disk k)" "freeMapFile k \<noteq> Some p" "directoryFile k \<noteq> Some p"
proof -
  obtain mh dh b d f s where o: "sysfiles k mh dh" "on_disk mh dh (disk k) b d" "fs = fs_view (disk k) (dirlist (dir_table d))"
    "disk_files k p = Some f" "map_of (dirlist (dir_table d)) n = Some s" "df_hdr f = hdr_at (disk k) s" "df_seekPosition f = int q"
    "freeMapFile k \<noteq> Some p" "directoryFile k \<noteq> Some p" using assms by (auto simp: fs_open_def)
  moreover have "hdr_ok (df_hdr f)" using o(2,5,6) by (auto simp: on_disk_def files_ok_def dest!: map_of_SomeD)
  moreover have "fs n = Some (content (df_hdr f) (disk k))" using o(3,5,6) by (simp add: fs_view_def)
  ultimately show thesis using that by blast
qed

lemma fs_Read_ok:
  assumes k: "dok k" and op: "fs_open k fs p n q" and c: "fs n = Some c"
  defines "bs \<equiv> \<lambda>m. take (nat m) (drop q c)"
  shows "\<exists>k'. DiskFile_Read P p m k = Inr (int (length (bs m)), bs m, k') \<and> dok k' \<and> fs_open k' fs p n (q + length (bs m)) \<and>
    disk_file_table k' = disk_file_table k"
proof -
  obtain mh dh b d f s c' where o: "sysfiles k mh dh" "on_disk mh dh (disk k) b d" "fs = fs_view (disk k) (dirlist (dir_table d))"
    "disk_files k p = Some f" "map_of (dirlist (dir_table d)) n = Some s" "df_hdr f = hdr_at (disk k) s" "df_seekPosition f = int q"
    "hdr_ok (df_hdr f)" "fs n = Some c'" "c' = content (df_hdr f) (disk k)" "freeMapFile k \<noteq> Some p" "directoryFile k \<noteq> Some p"
    by (rule open_parts [OF op])
  have c': "bs m = take (nat m) (drop q (content (df_hdr f) (disk k)))" using c o(9,10) by (simp add: bs_def)
  let ?f = "f\<lparr>df_seekPosition := int (q + length (bs m))\<rparr>"
  let ?K = "k\<lparr>disk_files := (disk_files k)(p \<mapsto> ?f)\<rparr>"
  obtain k' where k': "DiskFile_Read P p m k = Inr (int (length (bs m)), bs m, k')" "dok k'" "disk k' = disk k" "sys.more k' = sys.more ?K"
    using DiskFile_Read_content [OF o(4,8) k o(7), of m] unfolding c' by blast
  have "sysfiles k' mh dh" using sysfiles_more [OF sysfiles_seek [OF o(1,4), of ?f] k'(4)] by simp
  moreover have "disk_files k' p = Some ?f" "freeMapFile k' = freeMapFile k" "directoryFile k' = directoryFile k" "disk_file_table k' = disk_file_table k"
    using dfs_more [OF k'(4)] by simp_all
  ultimately have "fs_open k' fs p n (q + length (bs m)) \<and> disk_file_table k' = disk_file_table k" unfolding fs_open_def using o k'(3)
    by (intro conjI exI [of _ mh] exI [of _ dh] exI [of _ b] exI [of _ d] exI [of _ ?f] exI [of _ s]) simp_all
  then show ?thesis using k'(1,2) by blast
qed

lemma fs_Write_ok:
  assumes k: "dok k" and op: "fs_open k fs p n q" and c: "fs n = Some c" and enough: "nat m \<le> length from"
  defines "r \<equiv> min (nat m) (length c - q)"
  shows "\<exists>k'. DiskFile_Write raw P p from m k = Inr (int r, k') \<and> dok k' \<and> fs_open k' (fs(n \<mapsto> overwrite q (take r from) c)) p n (q + r) \<and>
    disk_file_table k' = disk_file_table k"
proof -
  obtain mh dh b d f s c' where o: "sysfiles k mh dh" "on_disk mh dh (disk k) b d" "fs = fs_view (disk k) (dirlist (dir_table d))"
    "disk_files k p = Some f" "map_of (dirlist (dir_table d)) n = Some s" "df_hdr f = hdr_at (disk k) s" "df_seekPosition f = int q"
    "hdr_ok (df_hdr f)" "fs n = Some c'" "c' = content (df_hdr f) (disk k)" "freeMapFile k \<noteq> Some p" "directoryFile k \<noteq> Some p"
    by (rule open_parts [OF op])
  have c': "c = content (df_hdr f) (disk k)" using c o(9,10) by simp
  then have len: "r = min (nat m) (nat (fh_numBytes (df_hdr f)) - q)" using o(8) wf [OF k] by (simp add: r_def)
  let ?f = "f\<lparr>df_seekPosition := int (q + r)\<rparr>"
  let ?K = "k\<lparr>disk_files := (disk_files k)(p \<mapsto> ?f)\<rparr>"
  obtain k' where k': "DiskFile_Write raw P p from m k = Inr (int r, k')" "dok k'" "sys.more k' = sys.more ?K"
    "content (df_hdr f) (disk k') = overwrite q (take r from) c" "\<forall>u. u \<notin> set (secs (df_hdr f)) \<longrightarrow> disk k' ! u = disk k ! u"
    using DiskFile_Write_content [OF o(4,8) k enough o(7), of raw] unfolding len [symmetric] c' [symmetric] by blast
  note w = on_disk_write [OF o(2,5) k'(5) [unfolded o(6)]]
  have "sysfiles k' mh dh" using sysfiles_more [OF sysfiles_seek [OF o(1,4), of ?f] k'(3)] by simp
  moreover have "disk_files k' p = Some ?f" "freeMapFile k' = freeMapFile k" "directoryFile k' = directoryFile k" "disk_file_table k' = disk_file_table k"
    using dfs_more [OF k'(3)] by simp_all
  moreover have "fs(n \<mapsto> overwrite q (take r from) c) = fs_view (disk k') (dirlist (dir_table d))" using w(3) k'(4) o(3,6) by simp
  ultimately have "fs_open k' (fs(n \<mapsto> overwrite q (take r from) c)) p n (q + r) \<and> disk_file_table k' = disk_file_table k"
    unfolding fs_open_def using o(5-7,11,12) w(1,2)
    by (intro conjI exI [of _ mh] exI [of _ dh] exI [of _ b] exI [of _ d] exI [of _ ?f] exI [of _ s]) simp_all
  then show ?thesis using k'(1,2) by blast
qed

lemma fs_delete_ok:
  assumes k: "dok k" and op: "fs_open k fs p n q"
  shows "\<exists>k'. DiskFile_delete p k = Inr k' \<and> dok k' \<and> fs_state k' fs \<and> disk_file_table k' = disk_file_table k"
proof -
  obtain mh dh b d f s c' where o: "sysfiles k mh dh" "on_disk mh dh (disk k) b d" "fs = fs_view (disk k) (dirlist (dir_table d))"
    "disk_files k p = Some f" "map_of (dirlist (dir_table d)) n = Some s" "df_hdr f = hdr_at (disk k) s" "df_seekPosition f = int q"
    "hdr_ok (df_hdr f)" "fs n = Some c'" "c' = content (df_hdr f) (disk k)" "freeMapFile k \<noteq> Some p" "directoryFile k \<noteq> Some p"
    by (rule open_parts [OF op])
  let ?k = "k\<lparr>disk_files := (disk_files k)(p := None)\<rparr>"
  have "fs_state ?k fs" unfolding fs_state_def using sysfiles_delete [OF o(1,11,12)] o(2,3)
    by (intro exI [of _ mh] exI [of _ dh] exI [of _ b] exI [of _ d]) simp
  then show ?thesis using k o(4) by (intro exI [of _ ?k]) (simp add: DiskFile_delete_def)
qed

end

end
