(* ===== verification/Disk_Refinement.thy ===== *)
theory Disk_Refinement
  imports Disk_System
begin

text \<open>
  The operations of the file system and the test routines of \<^verbatim>\<open>filesys/fstest.cc\<close> as operations on a map from
  names to contents.
\<close>

section \<open>Creating and removing files\<close>

lemma overwrite_parts:
  assumes "q + length (a @ b) \<le> length c"
  shows "overwrite (q + length a) b (overwrite q a c) = overwrite q (a @ b) c"
  using assms by (simp add: overwrite_def ac_simps)

text \<open>The allocations of the constructor.\<close>

lemma format_alloc:
  obtains b0 b1 b2 b3 b4 mh dh where "new_map raw = Inr b0" "BitMap_Mark FreeMapSector b0 = Inr b1" "BitMap_Mark DirectorySector b1 = Inr b2"
    "FileHeader_Allocate FreeMapFileSize (FileHeader_new raw) b2 = Inr (True, mh, b3)"
    "FileHeader_Allocate DirectoryFileSize (FileHeader_new raw) b3 = Inr (True, dh, b4)"
    "hdr_ok mh" "hdr_wf mh" "fh_numBytes mh = FreeMapFileSize" "hdr_ok dh" "hdr_wf dh" "fh_numBytes dh = DirectoryFileSize"
    "bitmap_ok b4" "numBits b4 = NumSectors" "bits b4 = {0, 1} \<union> set (secs mh) \<union> set (secs dh)"
    "{0, 1} \<inter> (set (secs mh) \<union> set (secs dh)) = {}" "set (secs mh) \<inter> set (secs dh) = {}"
proof -
  obtain b0 where b0: "new_map raw = Inr b0" "bitmap_ok b0" "numBits b0 = NumSectors" "bits b0 = {}" using new_map_ok by blast
  have N: "0 < bm_size b0" "1 < nat NumSectors" using b0(3) by (simp_all add: nachos_defs)
  obtain b1 where b1: "BitMap_Mark FreeMapSector b0 = Inr b1" "bitmap_ok b1" "numBits b1 = NumSectors" "bits b1 = {0}"
    using BitMap_Mark_correct [OF b0(2) N(1)] b0(3,4) by (auto simp: FreeMapSector_def)
  obtain b2 where b2: "BitMap_Mark DirectorySector b1 = Inr b2" "bitmap_ok b2" "numBits b2 = NumSectors" "bits b2 = {0, 1}"
    using BitMap_Mark_correct [OF b1(2), of 1] N(2) b1(3,4) by (auto simp: DirectorySector_def)
  have sizes: "0 \<le> FreeMapFileSize" "FreeMapFileSize \<le> int MaxFileSize" "0 \<le> DirectoryFileSize" "DirectoryFileSize \<le> int MaxFileSize"
    "nat (divRoundUp FreeMapFileSize (int SectorSize)) = 1" "nat (divRoundUp DirectoryFileSize (int SectorSize)) = 1"
    by (simp_all add: nachos_defs divRoundUp_def)
  have e1: "card (bits b2) + 1 \<le> nat NumSectors" by (simp add: b2(4) nachos_defs)
  obtain mh b3 where mh: "FileHeader_Allocate FreeMapFileSize (FileHeader_new raw) b2 = Inr (True, mh, b3)" "hdr_ok mh" "hdr_wf mh"
    "fh_numBytes mh = FreeMapFileSize" "bitmap_ok b3" "numBits b3 = NumSectors" "set (secs mh) \<inter> bits b2 = {}" "bits b3 = bits b2 \<union> set (secs mh)"
    using Allocate_ok(2) [OF b2(2,3) hdr_wf_new [of raw] sizes(1,2)] e1 unfolding sizes(5) by blast
  have "length (secs mh) = 1" using mh(2,4) sizes(5) by (simp add: hdr_ok_def)
  then have "card (bits b3) + 1 \<le> nat NumSectors"
    unfolding mh(8) b2(4) using card_Un_le [of "{0, 1}" "set (secs mh)"] card_length [of "secs mh"] by (simp add: nachos_defs)
  then obtain dh b4 where dh: "FileHeader_Allocate DirectoryFileSize (FileHeader_new raw) b3 = Inr (True, dh, b4)" "hdr_ok dh" "hdr_wf dh"
    "fh_numBytes dh = DirectoryFileSize" "bitmap_ok b4" "numBits b4 = NumSectors" "set (secs dh) \<inter> bits b3 = {}" "bits b4 = bits b3 \<union> set (secs dh)"
    using Allocate_ok(2) [OF mh(5,6) hdr_wf_new [of raw] sizes(3,4)] unfolding sizes(6) by blast
  have "bits b4 = {0, 1} \<union> set (secs mh) \<union> set (secs dh)" unfolding dh(8) mh(8) b2(4) ..
  moreover have "{0, 1} \<inter> (set (secs mh) \<union> set (secs dh)) = {}" "set (secs mh) \<inter> set (secs dh) = {}"
    using mh(7,8) dh(7) b2(4) by auto
  ultimately show thesis by (rule that [OF b0(1) b1(1) b2(1) mh(1) dh(1) mh(2-4) dh(2-6)])
qed

context file_disk
begin

lemma fs_Create_ok:
  assumes "dok k" "fs_state k fs" "sz \<le> MaxFileSize"
  shows "can_create fs (short name) sz \<Longrightarrow> \<exists>k' c. DiskFS_Create raw P name (int sz) k = Inr (True, k') \<and> dok k' \<and> length c = sz \<and>
      fs_state k' (fs(short name \<mapsto> c)) \<and> disk_file_table k' = disk_file_table k"
    and "\<not> can_create fs (short name) sz \<Longrightarrow> \<exists>k'. DiskFS_Create raw P name (int sz) k = Inr (False, k') \<and> dok k' \<and> fs_state k' fs \<and> kept k k'"
proof -
  obtain mh dh b d where r: "sysfiles k mh dh" "on_disk mh dh (disk k) b d" "fs = fs_view (disk k) (dirlist (dir_table d))"
    using assms(2) by (auto simp: fs_state_def)
  show "\<exists>k' c. DiskFS_Create raw P name (int sz) k = Inr (True, k') \<and> dok k' \<and> length c = sz \<and>
      fs_state k' (fs(short name \<mapsto> c)) \<and> disk_file_table k' = disk_file_table k" if can: "can_create fs (short name) sz"
  proof -
    obtain k' b' d' c where k': "DiskFS_Create raw P name (int sz) k = Inr (True, k')" "dok k'" "sys.more k' = sys.more k"
      "on_disk mh dh (disk k') b' d'" "length c = sz"
      "fs_view (disk k') (dirlist (dir_table d')) = (fs_view (disk k) (dirlist (dir_table d)))(short name \<mapsto> c)"
      using Create_done [OF assms(1) r(1,2) assms(3), of name raw] can [unfolded r(3)] by blast
    then have "fs_state k' (fs(short name \<mapsto> c))" unfolding fs_state_def using sysfiles_more [OF r(1) k'(3)] r(3)
      by (intro exI [of _ mh] exI [of _ dh] exI [of _ b'] exI [of _ d']) simp
    then show ?thesis using k'(1,2,5) dfs_more(3) [OF k'(3)] by blast
  qed
  show "\<exists>k'. DiskFS_Create raw P name (int sz) k = Inr (False, k') \<and> dok k' \<and> fs_state k' fs \<and> kept k k'" if can: "\<not> can_create fs (short name) sz"
  proof -
    obtain k' where k': "DiskFS_Create raw P name (int sz) k = Inr (False, k')" "dok k'" "kept k k'"
      using Create_refused [OF assms(1) r(1,2) assms(3), of name raw] can [unfolded r(3)] by blast
    then have "fs_state k' fs" unfolding fs_state_def using sysfiles_kept [OF r(1) k'(3)] r(2,3)
      by (intro exI [of _ mh] exI [of _ dh] exI [of _ b] exI [of _ d]) (simp add: kept_def)
    then show ?thesis using k' by blast
  qed
qed

lemma fs_Remove_ok:
  assumes "dok k" "fs_state k fs"
  shows "\<exists>k'. DiskFS_Remove raw P name k = Inr (short name \<in> dom fs, k') \<and> dok k' \<and> fs_state k' (fs(short name := None)) \<and>
    disk_file_table k' = disk_file_table k"
proof -
  obtain mh dh b d where r: "sysfiles k mh dh" "on_disk mh dh (disk k) b d" "fs = fs_view (disk k) (dirlist (dir_table d))"
    using assms(2) by (auto simp: fs_state_def)
  show ?thesis
  proof (cases "short name \<in> dom fs")
    case True
    obtain k' b' d' where k': "DiskFS_Remove raw P name k = Inr (True, k')" "dok k'" "sys.more k' = sys.more k" "on_disk mh dh (disk k') b' d'"
      "fs_view (disk k') (dirlist (dir_table d')) = (fs_view (disk k) (dirlist (dir_table d)))(short name := None)"
      using Remove_done [OF assms(1) r(1,2), of name raw] True r(3) by blast
    then have "fs_state k' (fs(short name := None))" unfolding fs_state_def using sysfiles_more [OF r(1) k'(3)] r(3)
      by (intro exI [of _ mh] exI [of _ dh] exI [of _ b'] exI [of _ d']) simp
    then show ?thesis using k'(1,2) dfs_more(3) [OF k'(3)] True by auto
  next
    case False
    obtain k' where k': "DiskFS_Remove raw P name k = Inr (False, k')" "dok k'" "kept k k'"
      using Remove_refused [OF assms(1) r(1,2), of name raw] False r(3) by blast
    have "fs(short name := None) = fs" using False by (simp add: domIff fun_upd_idem)
    moreover have "fs_state k' fs" unfolding fs_state_def using sysfiles_kept [OF r(1) k'(3)] k'(3) r(2,3)
      by (intro exI [of _ mh] exI [of _ dh] exI [of _ b] exI [of _ d]) (simp add: kept_def)
    ultimately show ?thesis using k' False dfs_more(3) [of k' k] by (auto simp: kept_def)
  qed
qed

section \<open>Formatting and starting\<close>

lemma open_system_ok:
  assumes k: "dok k"
  shows "\<exists>k'. open_system_files P k = Inr k' \<and> dok k' \<and> disk k' = disk k \<and>
    sysfiles k' (hdr_at (disk k) FreeMapSector) (hdr_at (disk k) DirectorySector) \<and> disk_file_table k' = disk_file_table k"
proof -
  let ?p = "disk_file_brk k" and ?f = "\<lambda>s. \<lparr>df_hdr = hdr_at (disk k) s, df_seekPosition = 0, df_type = 1\<rparr>"
  have N: "0 < nat NumSectors" "1 < nat NumSectors" by (simp_all add: nachos_defs)
  obtain k1 where k1: "DiskFile_new P FreeMapSector k = Inr (?p, k1)" "dok k1" "disk k1 = disk k"
    "sys.more k1 = sys.more (k\<lparr>disk_files := (disk_files k)(?p \<mapsto> ?f FreeMapSector), disk_file_brk := Suc ?p\<rparr>)"
    using DiskFile_new_ok [OF k N(1), of 1] by (auto simp: DiskFile_new_def FreeMapSector_def)
  note m1 = dfs_more [OF k1(4)]
  let ?k1 = "k1\<lparr>freeMapFile := Some ?p\<rparr>"
  have b1: "disk_file_brk ?k1 = Suc ?p" using m1(2) by simp
  obtain k2 where k2: "DiskFile_new P DirectorySector ?k1 = Inr (Suc ?p, k2)" "dok k2" "disk k2 = disk k"
    "sys.more k2 = sys.more (?k1\<lparr>disk_files := (disk_files ?k1)(Suc ?p \<mapsto> ?f DirectorySector), disk_file_brk := Suc (Suc ?p)\<rparr>)"
    using DiskFile_new_ok [of ?k1, OF _ N(2), of 1] k1(2,3) b1 by (auto simp: DiskFile_new_def DirectorySector_def)
  note m2 = dfs_more [OF k2(4)]
  let ?k2 = "k2\<lparr>directoryFile := Some (Suc ?p)\<rparr>"
  have "open_system_files P k = Inr ?k2" using k1(1) k2(1) by (simp add: open_system_files_def)
  moreover have "sysfiles ?k2 (hdr_at (disk k) FreeMapSector) (hdr_at (disk k) DirectorySector)"
    unfolding sysfiles_def using m1 m2
    by (intro exI [of _ ?p] exI [of _ "Suc ?p"] exI [of _ "?f FreeMapSector"] exI [of _ "?f DirectorySector"]) simp
  moreover have "disk_file_table ?k2 = disk_file_table k" using m1(3) m2(3) by simp
  ultimately show ?thesis using k2(2,3) by (intro exI [of _ ?k2]) simp
qed

text \<open>A disk with a file system is used again by the next kernel.\<close>

lemma restart_ok:
  assumes "dok k" "on_disk mh dh (disk k) b d"
  shows "\<exists>k'. open_system_files P k = Inr k' \<and> dok k' \<and> fs_state k' (fs_view (disk k) (dirlist (dir_table d)))"
proof -
  have "hdr_at (disk k) FreeMapSector = mh" "hdr_at (disk k) DirectorySector = dh" using assms(2) by (simp_all add: on_disk_def)
  with open_system_ok [OF assms(1)] obtain k' where k': "open_system_files P k = Inr k'" "dok k'" "disk k' = disk k" "sysfiles k' mh dh" by auto
  then have "fs_state k' (fs_view (disk k) (dirlist (dir_table d)))" unfolding fs_state_def using assms(2)
    by (intro exI [of _ mh] exI [of _ dh] exI [of _ b] exI [of _ d]) simp
  then show ?thesis using k'(1,2) by blast
qed

lemma format_ok:
  assumes k: "dok k"
  shows "\<exists>k'. format_disk raw P k = Inr k' \<and> dok k' \<and> fs_state k' Map.empty \<and> disk_file_table k' = disk_file_table k"
proof -
  let ?d = "Directory_new raw NumDirEntries"
  obtain b0 b1 b2 b3 b4 mh dh where al: "new_map raw = Inr b0" "BitMap_Mark FreeMapSector b0 = Inr b1" "BitMap_Mark DirectorySector b1 = Inr b2"
    "FileHeader_Allocate FreeMapFileSize (FileHeader_new raw) b2 = Inr (True, mh, b3)"
    "FileHeader_Allocate DirectoryFileSize (FileHeader_new raw) b3 = Inr (True, dh, b4)"
    and mh: "hdr_ok mh" "hdr_wf mh" "fh_numBytes mh = FreeMapFileSize" and dh: "hdr_ok dh" "hdr_wf dh" "fh_numBytes dh = DirectoryFileSize"
    and b4: "bitmap_ok b4" "numBits b4 = NumSectors" "bits b4 = {0, 1} \<union> set (secs mh) \<union> set (secs dh)"
    and dis: "{0, 1} \<inter> (set (secs mh) \<union> set (secs dh)) = {}" "set (secs mh) \<inter> set (secs dh) = {}" by (rule format_alloc)
  have N: "0 < nat NumSectors" "1 < nat NumSectors" by (simp_all add: nachos_defs)
  obtain k1 where k1: "FileHeader_WriteBack P FreeMapSector mh k = Inr k1" "dok k1" "sys.more k1 = sys.more k" "disk k1 = (disk k)[0 := hdr_bytes mh]"
    using write_sector [OF k, of 0 "hdr_bytes mh"] length_hdr_bytes [OF mh(2)] N by (auto simp: FileHeader_WriteBack_def FreeMapSector_def)
  obtain k2 where k2: "FileHeader_WriteBack P DirectorySector dh k1 = Inr k2" "dok k2" "sys.more k2 = sys.more k1" "disk k2 = (disk k1)[1 := hdr_bytes dh]"
    using write_sector [OF k1(2) N(2), of "hdr_bytes dh"] length_hdr_bytes [OF dh(2)] by (auto simp: FileHeader_WriteBack_def DirectorySector_def)
  have "0 < length (disk k)" "1 < length (disk k)" using N by simp_all
  then have h2: "hdr_at (disk k2) FreeMapSector = mh" "hdr_at (disk k2) DirectorySector = dh"
    using k1(4) k2(4) mh(2) dh(2) by (simp_all add: hdr_at_def FreeMapSector_def DirectorySector_def)
  obtain k3 where k3: "open_system_files P k2 = Inr k3" "dok k3" "disk k3 = disk k2" "sysfiles k3 mh dh" "disk_file_table k3 = disk_file_table k2"
    using open_system_ok [OF k2(2)] h2 by auto
  have d: "dir_ok ?d" "tableSize ?d = NumDirEntries" "dirlist (dir_table ?d) = []"
    using Directory_new_wf [of raw NumDirEntries] by (auto simp: dir_ok_def dirlist_def filter_empty_conv Directory_new_def nachos_defs)
  obtain k4 k5 where k5: "flush_map raw P b4 k3 = Inr k4" "flush_dir raw P ?d k4 = Inr k5" "dok k5" "sys.more k5 = sys.more k3"
    "content mh (disk k5) = word_bytes (bm_words b4)" "content dh (disk k5) = table_bytes (dir_table ?d)"
    "\<forall>u. u \<notin> set (secs mh) \<union> set (secs dh) \<longrightarrow> disk k5 ! u = disk k3 ! u"
    using flush_both(2) [OF k3(2,4) mh(1,3) dh(1,3) dis(2) b4(1,2) d(1,2), of raw] by blast
  have "format_disk raw P k = Inr k5"
    using al k1(1) k2(1) k3(1) k5(1,2) by (simp add: format_disk_def)
  moreover have "hdr_at (disk k5) FreeMapSector = mh" "hdr_at (disk k5) DirectorySector = dh"
    using k5(7) dis(1) h2 k3(3) by (simp_all add: hdr_at_def FreeMapSector_def DirectorySector_def)
  moreover have "distinct (layout mh dh (disk k5) [])" "set (layout mh dh (disk k5) []) = bits b4"
    using dis mh(1) dh(1) unfolding b4(3) by (auto simp: layout_def hdr_ok_def)
  ultimately have "on_disk mh dh (disk k5) b4 ?d" using mh(1,3) dh(1,3) b4(1,2) d k5(5,6) by (simp add: on_disk_def)
  then have "fs_state k5 Map.empty" unfolding fs_state_def using sysfiles_more [OF k3(4) k5(4)] d(3)
    by (intro exI [of _ mh] exI [of _ dh] exI [of _ b4] exI [of _ ?d]) (simp add: fs_view_def fun_eq_iff)
  moreover have "disk_file_table k5 = disk_file_table k"
    using dfs_more(3) [OF k5(4)] dfs_more(3) [OF k2(3)] dfs_more(3) [OF k1(3)] k3(5) by simp
  ultimately show ?thesis using \<open>format_disk raw P k = Inr k5\<close> k5(3) by blast
qed

section \<open>Test routines\<close>

lemma copy_loop_ok:
  assumes "dok k" "fs_open k fs p n q" "fs n = Some c" "q + length bs \<le> length c"
  shows "\<exists>k'. copy_loop raw P p bs k = Inr k' \<and> dok k' \<and> fs_open k' (fs(n \<mapsto> overwrite q bs c)) p n (q + length bs) \<and>
    disk_file_table k' = disk_file_table k"
  using assms
proof (induction "length bs" arbitrary: bs k fs q c rule: less_induct)
  case less
  show ?case
  proof (cases "bs = []")
    case True
    have "overwrite q [] c = c" using less.prems(4) by (simp add: overwrite_def)
    then show ?thesis using True less.prems by (simp add: copy_loop.simps [of raw P p "[]"] fun_upd_idem)
  next
    case False
    define a where "a = take TransferSize bs"
    define b where "b = drop TransferSize bs"
    have bs: "bs = a @ b" by (simp add: a_def b_def)
    have r: "min (nat (int (length a))) (length c - q) = length a" using less.prems(4) bs by simp
    obtain k1 where k1: "DiskFile_Write raw P p a (int (length a)) k = Inr (int (length a), k1)" "dok k1"
      "fs_open k1 (fs(n \<mapsto> overwrite q a c)) p n (q + length a)" "disk_file_table k1 = disk_file_table k"
      using fs_Write_ok [OF less.prems(1-3), of "int (length a)" a raw] unfolding r by auto
    have len: "length b < length bs" using False by (simp add: b_def TransferSize_def)
    have l: "length (overwrite q a c) = length c" using less.prems(4) bs by (simp add: overwrite_def)
    have ab: "length a + length b = length bs" by (simp add: bs)
    then have "q + length a + length b \<le> length (overwrite q a c)" unfolding l using less.prems(4) by linarith
    from less.hyps [OF len k1(2,3) _ this] obtain k2 where k2: "copy_loop raw P p b k1 = Inr k2" "dok k2"
      "fs_open k2 ((fs(n \<mapsto> overwrite q a c))(n \<mapsto> overwrite (q + length a) b (overwrite q a c))) p n (q + length a + length b)"
      "disk_file_table k2 = disk_file_table k1" by auto
    have "overwrite (q + length a) b (overwrite q a c) = overwrite q bs c"
      using overwrite_parts [of q a b c] less.prems(4) bs by simp
    then have "fs_open k2 (fs(n \<mapsto> overwrite q bs c)) p n (q + length bs)" using k2(3) ab by (simp add: add.assoc)
    moreover have "copy_loop raw P p bs k = Inr k2" using k1(1) k2(1) False by (subst copy_loop.simps) (simp flip: a_def b_def)
    ultimately show ?thesis using k2(2,4) k1(4) by auto
  qed
qed

lemma print_loop_ok:
  assumes "dok k" "fs_open k fs p n q" "fs n = Some c" "q \<le> length c" "length c - q < fuel"
  shows "\<exists>k'. print_loop fuel P p out k = Inr (out @ drop q c, k') \<and> dok k' \<and> fs_open k' fs p n (length c) \<and> disk_file_table k' = disk_file_table k"
  using assms
proof (induction fuel arbitrary: k q out)
  case (Suc fuel)
  define bs where "bs = take TransferSize (drop q c)"
  obtain k1 where k1: "DiskFile_Read P p (int TransferSize) k = Inr (int (length bs), bs, k1)" "dok k1" "fs_open k1 fs p n (q + length bs)"
    "disk_file_table k1 = disk_file_table k" using fs_Read_ok [OF Suc.prems(1-3), of "int TransferSize"] by (auto simp: bs_def)
  show ?case
  proof (cases "q = length c")
    case True
    then show ?thesis using k1 by (simp add: bs_def)
  next
    case False
    have "drop (q + length bs) c = drop TransferSize (drop q c)"
      by (cases "TransferSize \<le> length (drop q c)") (simp_all add: bs_def add.commute)
    then have bs: "0 < length bs" "q + length bs \<le> length c" "bs @ drop (q + length bs) c = drop q c"
      using False Suc.prems(4) by (simp_all add: bs_def TransferSize_def del: drop_drop)
    moreover have "length c - (q + length bs) < fuel" using bs(1,2) Suc.prems(5) by linarith
    ultimately obtain k2 where "print_loop fuel P p (out @ bs) k1 = Inr ((out @ bs) @ drop (q + length bs) c, k2)" "dok k2"
      "fs_open k2 fs p n (length c)" "disk_file_table k2 = disk_file_table k1" using Suc.IH [OF k1(2,3) Suc.prems(3), of "out @ bs"] by blast
    then show ?thesis using k1(1,4) bs by simp
  qed
qed simp

lemma Copy_ok:
  assumes k: "dok k" and fs: "fs_state k fs" and slot: "DiskFS_getIdxFreeSlot k = Inr i" "i \<noteq> - 1"
    and len: "length bs \<le> MaxFileSize" and can: "can_create fs (short to) (length bs)"
  shows "\<exists>k'. Copy raw P (Some bs) to k = Inr k' \<and> dok k' \<and> fs_state k' (fs(short to \<mapsto> bs)) \<and> disk_file_table k' = disk_file_table k"
proof -
  obtain k1 c where k1: "DiskFS_Create raw P to (int (length bs)) k = Inr (True, k1)" "dok k1" "length c = length bs"
    "fs_state k1 (fs(short to \<mapsto> c))" "disk_file_table k1 = disk_file_table k" using fs_Create_ok(1) [OF k fs len can] by blast
  have "DiskFS_getIdxFreeSlot k1 = Inr i" using slot(1) k1(5) by (simp add: DiskFS_getIdxFreeSlot_def)
  from Open_ok [OF k1(2,4) this slot(2), of to raw] obtain k2 p where k2: "DiskFS_Open raw P to k1 = Inr (Some p, k2)" "dok k2"
    "fs_open k2 (fs(short to \<mapsto> c)) p (short to) 0" "disk_file_table k2 = disk_file_table k1" by auto
  from copy_loop_ok [OF k2(2,3), of c bs raw] k1(3) obtain k3 where k3: "copy_loop raw P p bs k2 = Inr k3" "dok k3"
    "fs_open k3 (fs(short to \<mapsto> bs)) p (short to) (length bs)" "disk_file_table k3 = disk_file_table k2" by (auto simp: overwrite_all)
  from fs_delete_ok [OF k3(2,3)] obtain k4 where k4: "DiskFile_delete p k3 = Inr k4" "dok k4" "fs_state k4 (fs(short to \<mapsto> bs))"
    "disk_file_table k4 = disk_file_table k3" by blast
  have "Copy raw P (Some bs) to k = Inr k4" using k1(1) k2(1) k3(1) k4(1) by (simp add: Copy_def)
  then show ?thesis using k4(2-4) k3(4) k2(4) k1(5) by auto
qed

lemma Print_ok:
  assumes k: "dok k" and fs: "fs_state k fs" and slot: "DiskFS_getIdxFreeSlot k = Inr i" "i \<noteq> - 1"
    and c: "fs (short name) = Some c" and fuel: "length c < fuel"
  shows "\<exists>k'. Print fuel raw P name k = Inr (Some c, k') \<and> dok k' \<and> fs_state k' fs"
proof -
  from Open_ok [OF k fs slot, of name raw] c obtain k1 p where k1: "DiskFS_Open raw P name k = Inr (Some p, k1)" "dok k1"
    "fs_open k1 fs p (short name) 0" by auto
  from print_loop_ok [OF k1(2,3) c, of fuel "[]"] fuel obtain k2 where k2: "print_loop fuel P p [] k1 = Inr (c, k2)" "dok k2"
    "fs_open k2 fs p (short name) (length c)" by auto
  from fs_delete_ok [OF k2(2,3)] obtain k3 where "DiskFile_delete p k2 = Inr k3" "dok k3" "fs_state k3 fs" by blast
  then show ?thesis using k1(1) k2(1) by (simp add: Print_def)
qed

lemma test_turns: "FileSize div 10 = Suc 4999"
  by (simp add: FileSize_def)

lemma FileWrite_fails:
  assumes k: "dok k" and fs: "fs_state k fs" and slot: "DiskFS_getIdxFreeSlot k = Inr i" "i \<noteq> - 1" and can: "can_create fs (short TestFile) 0"
  shows "\<exists>k'. FileWrite raw P k = Inr (False, k') \<and> dok k' \<and> fs_state k' (fs(short TestFile \<mapsto> [])) \<and> disk_file_table k' = disk_file_table k"
proof -
  obtain k1 where k1: "DiskFS_Create raw P TestFile 0 k = Inr (True, k1)" "dok k1"
    "fs_state k1 (fs(short TestFile \<mapsto> []))" "disk_file_table k1 = disk_file_table k" using fs_Create_ok(1) [OF k fs _ can, of raw] by auto
  have "DiskFS_getIdxFreeSlot k1 = Inr i" using slot(1) k1(4) by (simp add: DiskFS_getIdxFreeSlot_def)
  from Open_ok [OF k1(2,3) this slot(2), of TestFile raw] obtain k2 p where k2: "DiskFS_Open raw P TestFile k1 = Inr (Some p, k2)" "dok k2"
    "fs_open k2 (fs(short TestFile \<mapsto> [])) p (short TestFile) 0" "disk_file_table k2 = disk_file_table k1" by auto
  from fs_Write_ok [OF k2(2,3), of "[]" 10 Contents raw] obtain k3 where k3: "DiskFile_Write raw P p Contents 10 k2 = Inr (0, k3)" "dok k3"
    "fs_open k3 (fs(short TestFile \<mapsto> [])) p (short TestFile) 0" "disk_file_table k3 = disk_file_table k2"
    by (auto simp: Contents_def overwrite_def)
  from fs_delete_ok [OF k3(2,3)] obtain k4 where k4: "DiskFile_delete p k3 = Inr k4" "dok k4" "fs_state k4 (fs(short TestFile \<mapsto> []))"
    "disk_file_table k4 = disk_file_table k3" by blast
  have "write_loop raw P p (FileSize div 10) k2 = Inr (False, k3)" unfolding test_turns write_loop.simps by (simp add: k3(1))
  then have "FileWrite raw P k = Inr (False, k4)" using k1(1) k2(1) k4(1) by (simp add: FileWrite_def)
  then show ?thesis using k4(2-4) k3(4) k2(4) k1(4) by auto
qed

lemma FileRead_fails:
  assumes k: "dok k" and fs: "fs_state k fs" and slot: "DiskFS_getIdxFreeSlot k = Inr i" "i \<noteq> - 1" and c: "fs (short TestFile) = Some []"
  shows "\<exists>k'. FileRead raw P k = Inr (False, k') \<and> dok k' \<and> fs_state k' fs \<and> disk_file_table k' = disk_file_table k"
proof -
  from Open_ok [OF k fs slot, of TestFile raw] c obtain k1 p where k1: "DiskFS_Open raw P TestFile k = Inr (Some p, k1)" "dok k1"
    "fs_open k1 fs p (short TestFile) 0" "disk_file_table k1 = disk_file_table k" by auto
  from fs_Read_ok [OF k1(2,3) c, of 10] obtain k2 where k2: "DiskFile_Read P p 10 k1 = Inr (0, [], k2)" "dok k2"
    "fs_open k2 fs p (short TestFile) 0" "disk_file_table k2 = disk_file_table k1" by auto
  from fs_delete_ok [OF k2(2,3)] obtain k3 where k3: "DiskFile_delete p k2 = Inr k3" "dok k3" "fs_state k3 fs" "disk_file_table k3 = disk_file_table k2" by blast
  have "read_loop P p (FileSize div 10) k1 = Inr (False, k2)" unfolding test_turns read_loop.simps by (simp add: k2(1))
  then have "FileRead raw P k = Inr (False, k3)" using k1(1) k3(1) by (simp add: FileRead_def)
  then show ?thesis using k3(2-4) k2(4) k1(4) by auto
qed

end

section \<open>Properties\<close>

text \<open>
  C39: Formatting makes an empty file system.  Whatever is on the disk and in the memory of the kernel, the
  constructor's formatting branch writes a disk that represents no files, with a bitmap that marks exactly the two headers
  and their two files.
\<close>

theorem format_empty:
  assumes "quiet k"
  shows "\<exists>k'. format_disk raw P_disk k = Inr k' \<and> quiet k' \<and> fs_state k' Map.empty"
  using own_files.format_ok [OF assms, of raw] by blast

text \<open>
  C2: \<^verbatim>\<open>Create\<close> adds a file of the given size.  It succeeds exactly if the name, of which nine characters count,
  is new, the directory has a free entry and the disk has sectors for the header and the data.  Then the file exists
  and every other file keeps its content; otherwise no file changes.
\<close>

theorem Create_refines:
  assumes "quiet k" "fs_state k fs" "sz \<le> MaxFileSize"
  shows "\<exists>k'. quiet k' \<and> (if can_create fs (short name) sz
    then DiskFS_Create raw P_disk name (int sz) k = Inr (True, k') \<and> (\<exists>c. length c = sz \<and> fs_state k' (fs(short name \<mapsto> c)))
    else DiskFS_Create raw P_disk name (int sz) k = Inr (False, k') \<and> fs_state k' fs)"
  using own_files.fs_Create_ok [OF assms, of name raw] by (cases "can_create fs (short name) sz") auto

text \<open>
  C7: \<^verbatim>\<open>Remove\<close> deletes the named file and no other.  It reports whether the file existed; its header and
  its data are given back to the bitmap, and all other files keep their contents.
\<close>

theorem Remove_refines:
  assumes "quiet k" "fs_state k fs"
  shows "\<exists>k'. DiskFS_Remove raw P_disk name k = Inr (short name \<in> dom fs, k') \<and> quiet k' \<and> fs_state k' (fs(short name := None))"
  using own_files.fs_Remove_ok [OF assms, of raw name] by blast

text \<open>
  C6: What \<^verbatim>\<open>Copy\<close> copies to the disk, \<^verbatim>\<open>Print\<close> prints.  A UNIX file that fits is copied, in pieces of
  \<^verbatim>\<open>TransferSize\<close> bytes, to a new file; the other files keep their contents; and printing the new file gives the
  bytes of the UNIX file.  Both loops end: one more turn than there are bytes is enough.
\<close>

theorem Copy_Print:
  assumes "quiet k" "fs_state k fs" "DiskFS_getIdxFreeSlot k = Inr i" "i \<noteq> - 1" "length bs \<le> MaxFileSize"
    "can_create fs (short to) (length bs)" "length bs < fuel"
  shows "\<exists>k1 k2. Copy raw P_disk (Some bs) to k = Inr k1 \<and> fs_state k1 (fs(short to \<mapsto> bs)) \<and>
    Print fuel raw P_disk to k1 = Inr (Some bs, k2) \<and> quiet k2 \<and> fs_state k2 (fs(short to \<mapsto> bs))"
proof -
  obtain k1 where k1: "Copy raw P_disk (Some bs) to k = Inr k1" "quiet k1" "fs_state k1 (fs(short to \<mapsto> bs))"
    "disk_file_table k1 = disk_file_table k" using own_files.Copy_ok [OF assms(1-6)] by blast
  have "DiskFS_getIdxFreeSlot k1 = Inr i" using assms(3) k1(4) by (simp add: DiskFS_getIdxFreeSlot_def)
  from own_files.Print_ok [OF k1(2,3) this assms(4), of to bs fuel raw] assms(7) k1 show ?thesis by auto
qed

text \<open>
  C40: The performance test does not measure anything.  It creates its file with size 0, and files do not grow: the
  first write returns 0 bytes and the first read as well, so both parts give up, and only the removal succeeds.
\<close>

theorem PerformanceTest_fails:
  assumes "quiet k" "fs_state k fs" "DiskFS_getIdxFreeSlot k = Inr i" "i \<noteq> - 1" "can_create fs (short TestFile) 0"
  shows "\<exists>k'. PerformanceTest raw P_disk k = Inr (False, False, True, k') \<and> quiet k' \<and> fs_state k' fs"
proof -
  let ?fs = "fs(short TestFile \<mapsto> [])"
  obtain k1 where k1: "FileWrite raw P_disk k = Inr (False, k1)" "quiet k1" "fs_state k1 ?fs" "disk_file_table k1 = disk_file_table k"
    using own_files.FileWrite_fails [OF assms] by blast
  have "DiskFS_getIdxFreeSlot k1 = Inr i" using assms(3) k1(4) by (simp add: DiskFS_getIdxFreeSlot_def)
  from own_files.FileRead_fails [OF k1(2,3) this assms(4), of raw] obtain k2 where
    k2: "FileRead raw P_disk k1 = Inr (False, k2)" "quiet k2" "fs_state k2 ?fs" by auto
  from own_files.fs_Remove_ok [OF k2(2,3), of raw TestFile] obtain k3 where
    k3: "DiskFS_Remove raw P_disk TestFile k2 = Inr (True, k3)" "quiet k3" "fs_state k3 (?fs(short TestFile := None))" by auto
  have "?fs(short TestFile := None) = fs" using assms(5) by (simp add: can_create_def domIff fun_upd_idem)
  then show ?thesis using k1(1) k2(1) k3 by (simp add: PerformanceTest_def)
qed

text \<open>The constructor of the file system calls \<^verbatim>\<open>Create\<close> before it has set \<^verbatim>\<open>directoryFile\<close>.\<close>

lemma DiskFS_new_fails: "DiskFS_new raw P format k = Inl BadPointer"
  by (simp add: DiskFS_new_def DiskFS_Create_def fetch_dir_def)

section \<open>A disk to try them on\<close>

lemma demo_formatted:
  obtains k where "format_disk (\<lambda>_. 7) P_disk demo_dfs = Inr k" "quiet k" "fs_state k Map.empty" "DiskFS_getIdxFreeSlot k = Inr 2"
proof -
  obtain k where k: "format_disk (\<lambda>_. 7) P_disk demo_dfs = Inr k" "quiet k" "fs_state k Map.empty" "disk_file_table k = replicate 10 None"
    using own_files.format_ok [OF demo_dfs_quiet, of "\<lambda>_. 7"] by (auto simp: demo_dfs_simps)
  have "nat N_FILES_IN_TABLE - 2 = Suc 97" by (simp add: nachos_defs)
  then have "DiskFS_getIdxFreeSlot k = Inr 2" using k(4) by (simp only: DiskFS_getIdxFreeSlot_def free_slot_loop.simps) (simp add: arr_get_def)
  then show thesis using that k(1-3) by blast
qed

lemma demo_can_create: "can_create Map.empty n 0" "can_create Map.empty n 3" "can_create Map.empty n 600"
  by (simp_all add: can_create_def fs_used_def file_sectors_def divRoundUp_def nachos_defs)

theorem format_empty_witness: "\<exists>k'. format_disk (\<lambda>_. 7) P_disk demo_dfs = Inr k' \<and> fs_state k' Map.empty"
  using format_empty [OF demo_dfs_quiet, of "\<lambda>_. 7"] by blast

theorem Create_refines_witness:
  "\<exists>k k'. format_disk (\<lambda>_. 7) P_disk demo_dfs = Inr k \<and> DiskFS_Create (\<lambda>_. 7) P_disk [65, 66] 600 k = Inr (True, k')"
proof -
  obtain k where k: "format_disk (\<lambda>_. 7) P_disk demo_dfs = Inr k" "quiet k" "fs_state k Map.empty" by (rule demo_formatted)
  then show ?thesis using Create_refines [OF k(2,3), of 600 "[65, 66]" "\<lambda>_. 7"] demo_can_create(3) by (auto simp: nachos_defs)
qed

theorem Remove_refines_witness:
  "\<exists>k k'. format_disk (\<lambda>_. 7) P_disk demo_dfs = Inr k \<and> DiskFS_Remove (\<lambda>_. 7) P_disk [65, 66] k = Inr (False, k')"
proof -
  obtain k where k: "format_disk (\<lambda>_. 7) P_disk demo_dfs = Inr k" "quiet k" "fs_state k Map.empty" by (rule demo_formatted)
  then show ?thesis using Remove_refines [OF k(2,3), of "\<lambda>_. 7" "[65, 66]"] by auto
qed

theorem Copy_Print_witness:
  "\<exists>k k1 k2. format_disk (\<lambda>_. 7) P_disk demo_dfs = Inr k \<and> Copy (\<lambda>_. 7) P_disk (Some [1, 2, 3]) [65] k = Inr k1 \<and>
    Print 4 (\<lambda>_. 7) P_disk [65] k1 = Inr (Some [1, 2, 3], k2)"
proof -
  obtain k where k: "format_disk (\<lambda>_. 7) P_disk demo_dfs = Inr k" "quiet k" "fs_state k Map.empty" "DiskFS_getIdxFreeSlot k = Inr 2" by (rule demo_formatted)
  then show ?thesis using Copy_Print [OF k(2-4), of "[1, 2, 3]" "[65]" 4 "\<lambda>_. 7"] demo_can_create(2) by (auto simp: nachos_defs numeral_3_eq_3)
qed

theorem PerformanceTest_fails_witness:
  "\<exists>k k'. format_disk (\<lambda>_. 7) P_disk demo_dfs = Inr k \<and> PerformanceTest (\<lambda>_. 7) P_disk k = Inr (False, False, True, k')"
proof -
  obtain k where k: "format_disk (\<lambda>_. 7) P_disk demo_dfs = Inr k" "quiet k" "fs_state k Map.empty" "DiskFS_getIdxFreeSlot k = Inr 2" by (rule demo_formatted)
  then show ?thesis using PerformanceTest_fails [OF k(2-4), of "\<lambda>_. 7"] demo_can_create(1) by auto
qed

end
