(* ===== verification/Spec2Isabelle.thy ===== *)
theory Spec2Isabelle
  imports Mips_Correct Proc_Correct Syscall_Correct Disk_Refinement
begin

text \<open>
  \<^bold>\<open>Nachos 3.4 with user programs.\<close>

  The sources are under \<^verbatim>\<open>src/nachos/nachos-3.4/code\<close>; file names below are relative to it.  Nachos is a
  teaching operating system that runs on a simulated MIPS machine.  The simulation
  (\<^verbatim>\<open>machine/\<close>) provides a CPU with address translation, a clock with pending interrupts, and a timer, a
  console, a disk and a network.  The kernel (\<^verbatim>\<open>threads/\<close>, \<^verbatim>\<open>userprog/\<close>, \<^verbatim>\<open>filesys/\<close>, \<^verbatim>\<open>network/\<close>) runs on the host and is
  entered by traps of the CPU (\<^verbatim>\<open>Machine::RaiseException\<close>) and by device interrupts
  (\<^verbatim>\<open>Interrupt::CheckIfDue\<close>).

  \<^bold>\<open>How programs are modelled.\<close>  An operation is a function from the state to a result.  A result is the value
  and the new state, or the reason why the operation does not return: a failed \<^verbatim>\<open>ASSERT\<close>, a bad pointer,
  an array index out of bounds, an arithmetic trap of the host, a loop that does not end, a machine
  that has halted, or a thread that has finished (\<open>stop\<close> in \<open>Nachos_Prelude\<close>).  Objects that the kernel
  allocates are entries of stores, which are partial maps from addresses; using a deleted object is an
  error.  Machine integers are words of 32 bits and characters words of 8 bits where their width
  matters.  The state is one record that grows with the layers: \<open>hw\<close> (\<open>Hardware_State\<close>), \<open>kern\<close> with threads
  and semaphores (\<open>Threads\<close>), \<open>sys\<close> with devices (\<open>Devices\<close>), \<open>net\<close> with the post office (\<open>Post_Office\<close>), \<open>os\<close>
  with files, address spaces and processes (\<open>User_Files\<close>); the file system on the disk extends \<open>sys\<close> to
  \<open>dfs\<close> (\<open>Disk_Files\<close>).  An operation is polymorphic in the layers above
  it.  What comes from outside is an argument or a field of the host's record: keys typed, packets
  received, random numbers, contents of uninitialised memory, rounding of floating point numbers.

  \<^bold>\<open>Theories and sources.\<close>
  \<^item> \<open>Nachos_Prelude\<close>: results, C division, counting loops, arrays, words; \<^verbatim>\<open>threads/utility.h\<close>.
  \<^item> \<open>Slot_Alloc\<close>: the locale of a slot allocator.  \<open>Bitmap\<close>: \<^verbatim>\<open>userprog/bitmap.cc\<close> on its array of words, an instance
    of that locale; the first free slot is found and marked, and allocation is undone by \<^verbatim>\<open>Clear\<close>.
  \<^item> \<open>Linked_List\<close>: \<^verbatim>\<open>threads/list.cc\<close> on a heap of elements, proved to implement sequences with keys; the
    kernel's queues above it use the sequences.
  \<^item> \<open>Hardware_State\<close>, \<open>Machine\<close>: \<^verbatim>\<open>machine/machine.cc\<close>, \<^verbatim>\<open>machine/translate.cc\<close>; translation refines an abstract
    function, memory and string transfers have the round trips.
  \<^item> \<open>Mips_Decode\<close>, \<open>Mips_Sim\<close>, \<open>Mips_Correct\<close>: \<^verbatim>\<open>machine/mipssim.h\<close>, \<^verbatim>\<open>machine/mipssim.cc\<close>; decoding, every
    instruction, delayed loads, overflow traps, and the register invariant \<open>cpu_ok\<close> under the contract
    \<open>trap_handler\<close> of the exception handler.
  \<^item> \<open>Interrupts\<close>: \<^verbatim>\<open>machine/interrupt.cc\<close>, \<^verbatim>\<open>machine/timer.cc\<close>, \<^verbatim>\<open>machine/stats.cc\<close>; the locale \<open>device_handlers\<close> states what
    interrupt handlers must keep, and with it every due interrupt is delivered.
  \<^item> \<open>Threads\<close>, \<open>Thread_System\<close>, \<open>Thread_Invariants\<close>: \<^verbatim>\<open>threads/thread.cc\<close>, \<^verbatim>\<open>threads/scheduler.cc\<close>, \<^verbatim>\<open>threads/synch.cc\<close>.  The
    steps of all threads, interleaved at context switches, are an inductive relation; it refines an
    abstract machine of queues, no thread is lost, semaphores count, and no wake-up is lost.
  \<^item> \<open>Host\<close>: the calls of \<^verbatim>\<open>machine/sysdep.cc\<close> on a record of the host's files, keyboard, display and sockets.
  \<^item> \<open>Devices\<close>, \<open>Device_Correct\<close>: \<^verbatim>\<open>machine/console.cc\<close>, \<^verbatim>\<open>machine/disk.cc\<close>, \<^verbatim>\<open>machine/network.cc\<close>, an instance of
    \<open>device_handlers\<close>; the disk keeps what is written and answers within a bounded time.
  \<^item> \<open>Synch_Devices\<close>: \<^verbatim>\<open>threads/synchcons.cc\<close>, \<^verbatim>\<open>filesys/synchdisk.cc\<close>, \<^verbatim>\<open>threads/synchlist.cc\<close>.
  \<^item> \<open>Post_Office\<close>: \<^verbatim>\<open>network/post.cc\<close>; mail sent by one machine arrives in the addressed box of another.
  \<^item> \<open>User_Files\<close>: the host files of \<^verbatim>\<open>filesys/openfile.h\<close> and \<^verbatim>\<open>filesys/filesys.h\<close> (\<^verbatim>\<open>FILESYS_STUB\<close>).
  \<^item> \<open>Sem_Table\<close>: \<^verbatim>\<open>userprog/stable.cc\<close>, proved to be a bounded finite map.
  \<^item> \<open>Addr_Space\<close>: \<^verbatim>\<open>userprog/addrspace.cc\<close>; frames of an address space are fresh and are all returned.
  \<^item> \<open>Proc_Table\<close>, \<open>Proc_Correct\<close>: \<^verbatim>\<open>userprog/pcb.cc\<close>, \<^verbatim>\<open>userprog/ptable.cc\<close>; starting, ending and joining processes.
  \<^item> \<open>Console_Calls\<close>, \<open>Console_Correct\<close>, \<open>Syscalls\<close>, \<open>Syscall_Correct\<close>: \<^verbatim>\<open>userprog/exception.cc\<close>.  The locale \<open>kernel_calls\<close>
    states what a system call needs of the thread system; it holds for the thread system of \<open>Threads\<close>,
    and gives the contract \<open>trap_handler\<close> the CPU relies on.
  \<^item> \<open>Synch_Disk\<close>: the contract \<open>synch_disk\<close> of \<^verbatim>\<open>filesys/synchdisk.cc\<close>, a list of sectors that are read and replaced by calls
    that return; it holds for a thread that is alone (\<open>quiet\<close>) and sleeps until the interrupt of the disk.
  \<^item> \<open>Disk_Files\<close>, \<open>Disk_FS\<close>: the file system on the disk, the configuration without \<^verbatim>\<open>FILESYS_STUB\<close>:
    \<^verbatim>\<open>filesys/filehdr.cc\<close>, \<^verbatim>\<open>filesys/directory.cc\<close>, \<^verbatim>\<open>filesys/openfile.cc\<close>, \<^verbatim>\<open>filesys/filesys.cc\<close>, and
    \<^verbatim>\<open>filesys/fstest.cc\<close>.  \<open>Disk_Correct\<close>: under \<open>synch_disk\<close>, \<^verbatim>\<open>ReadAt\<close> and \<^verbatim>\<open>WriteAt\<close> read and replace a part of the content
    of a file.  \<open>Disk_Layout\<close>: headers, bitmaps and directories are read back as they were written; allocation and
    directories against sets and association lists.  \<open>Disk_System\<close>, \<open>Disk_Refinement\<close>: the disk represents a map from names to
    contents, the bitmap marks exactly the sectors in use, and creating, opening, reading, writing,
    removing, formatting and copying act on the map.

  \<^bold>\<open>Blocking calls.\<close>  A call of \<^verbatim>\<open>P\<close> may let other threads run.  Routines that block take the two semaphore
  operations as arguments (\<open>semop\<close>, \<open>kcalls\<close>): the state before the call to the state when it returns to the
  thread.  \<open>P_alone\<close> is \<^verbatim>\<open>P\<close> called by the only thread, which waits in \<^verbatim>\<open>Idle\<close> for a device.

  \<^bold>\<open>Fuel.\<close>  The loop \<^verbatim>\<open>while (CheckIfDue(FALSE));\<close> gets one turn more than there are pending interrupts; it is
  proved that this suffices, since a handler only schedules later interrupts.  A walk of a linked list
  gets as many turns as the heap has elements.  The loop of \<^verbatim>\<open>Sleep\<close> that idles until a thread is ready,
  and the loops that wait for console input, may run forever; their fuel is an argument and running out of
  it is the result \<open>Diverges\<close>.  In \<^verbatim>\<open>P_alone\<close> two turns suffice: a thread that is woken takes the semaphore;
  and two turns suffice for its sleep when the disk is the only device with a pending interrupt.  The loop of
  \<^verbatim>\<open>Print\<close> in \<^verbatim>\<open>filesys/fstest.cc\<close> needs at most one turn more than the file has bytes.

  \<^bold>\<open>Not modelled.\<close>  Debug and trace output, the interactive debugger and \<^verbatim>\<open>Print\<close> routines that only print;
  \<^verbatim>\<open>threads/switch.s\<close>, whose effect is the field \<open>machineState\<close> of a thread; creating sockets, signals and host
  memory protection in \<^verbatim>\<open>machine/sysdep.cc\<close>; the tools of \<^verbatim>\<open>bin/\<close>, which run on the host; test programs.
\<close>

end
